theory Spec2Isabelle
  imports Complex_Main "HOL-Library.Multiset" "HOL-Library.Log_Nat" "HOL-Library.Char_ord"
    "HOL-Library.List_Lexorder"
begin

section \<open>Python values used by the pipeline\<close>

text \<open>
  The two scripts verified here are \<^verbatim>\<open>scripts/convert_xview_to_yolo.py\<close> (class
  \<^verbatim>\<open>xViewToYOLOConverter\<close>) and \<^verbatim>\<open>scripts/split_dataset.py\<close> (class
  \<^verbatim>\<open>DatasetSplitter\<close>), with the pixel-corner part of \<^verbatim>\<open>yolo_to_geo_coords\<close> of
  \<^verbatim>\<open>scripts/visualize_map.py\<close>.

  Python integers are \<^typ>\<open>int\<close>, counters and sizes \<^typ>\<open>nat\<close>. A Python float is an
  IEEE-754 double: a finite one is carried as the rational number it denotes, the other
  three values are constructors of \<open>pyfloat\<close> below.

  In the splitter an integer is taken from a float product and a float sum is compared
  with a tolerance, so every float operation there is followed by the rounding \<open>fl\<close> to
  the nearest double. In the converter the coordinates are clamped into the image frame,
  added, divided and printed at six decimals; these steps are the exact ones on
  rationals. Their rounding to 53 bits moves a value by a \<open>2\<^sup>-\<^sup>5\<^sup>3\<close> part of itself, and
  so can change a printed digit only for a value that close to the midpoint of two
  six-decimal numbers; on dyadic values (integer pixel coordinates on an image whose
  sides are powers of two) nothing is rounded at all.
\<close>

datatype py_error = ValueError | ZeroDivisionError | TypeError

text \<open>A float: finite, \<^verbatim>\<open>inf\<close>, \<^verbatim>\<open>-inf\<close> or \<^verbatim>\<open>nan\<close>.\<close>

datatype pyfloat = Fin rat | PosInf | NegInf | NaN

text \<open>A property value of an annotation row: a string, an integer, or the missing value
  (pandas' NaN).\<close>

datatype pyval = PStr string | PInt int | PNaN

subsection \<open>Rounding\<close>

text \<open>Rounding to the nearest integer, a tie to the even one: the rule of IEEE-754
  arithmetic and of Python's float formatting.\<close>

definition round_half_even :: "rat \<Rightarrow> int" where
  "round_half_even x =
     (let f = \<lfloor>x\<rfloor>; d = x - of_int f
      in if d < 1 / 2 then f
         else if 1 / 2 < d then f + 1
         else if even f then f else f + 1)"

text \<open>
  The double nearest to a rational. In units of \<open>2\<^sup>-\<^sup>1\<^sup>0\<^sup>7\<^sup>4\<close>, the smallest positive
  double, a number of \<open>b\<close> bits before the point keeps its first 53 bits: it is rounded to
  a multiple of \<open>2\<^sup>b\<^sup>-\<^sup>5\<^sup>3\<close>, and to a whole unit when it has 53 bits or fewer (gradual
  underflow). A result of \<open>2\<^sup>1\<^sup>0\<^sup>2\<^sup>4\<close> or more, which Python turns into \<^verbatim>\<open>inf\<close> or an
  \<^verbatim>\<open>OverflowError\<close>, is left as the number it is.
\<close>

definition fl :: "rat \<Rightarrow> rat" where
  "fl x =
     (let y = x * 2 ^ 1074;
          b = bitlen \<lfloor>\<bar>y\<bar>\<rfloor>;
          q = 2 ^ nat (b - 53)
      in of_int (round_half_even (y / q)) * q / 2 ^ 1074)"

subsection \<open>Decimal text\<close>

definition digit_char :: "nat \<Rightarrow> char" where
  "digit_char d = ''0123456789'' ! d"

fun show_nat :: "nat \<Rightarrow> string" where
  "show_nat n = (if n < 10 then [digit_char n] else show_nat (n div 10) @ [digit_char (n mod 10)])"

declare show_nat.simps [simp del]

definition show_int :: "int \<Rightarrow> string" where
  "show_int i = (if i < 0 then CHR ''-'' # show_nat (nat (- i)) else show_nat (nat i))"

text \<open>The number of millionths that \<^verbatim>\<open>f"{x:.6f}"\<close> prints for the value \<open>x\<close>, correctly
  rounded with ties to even, and the text itself.\<close>

definition micro :: "rat \<Rightarrow> int" where
  "micro x = round_half_even (x * 1000000)"

definition frac6 :: "nat \<Rightarrow> string" where
  "frac6 r = replicate (6 - length (show_nat r)) CHR ''0'' @ show_nat r"

definition show_micro :: "nat \<Rightarrow> string" where
  "show_micro q = show_nat (q div 1000000) @ ''.'' @ frac6 (q mod 1000000)"

definition fmt6 :: "rat \<Rightarrow> string" where
  "fmt6 x = (if x < 0 then CHR ''-'' # show_micro (nat (- micro x)) else show_micro (nat (micro x)))"

text \<open>The number that the printed text denotes.\<close>

definition round6 :: "rat \<Rightarrow> rat" where
  "round6 x = of_int (micro x) / 1000000"

section \<open>BoxNormalizer: \<^verbatim>\<open>_bbox_to_yolo_format\<close>\<close>

type_synonym bbox = "pyfloat \<times> pyfloat \<times> pyfloat \<times> pyfloat"

text \<open>
  \<^verbatim>\<open>max(0, min(v, limit))\<close>. Python's \<^verbatim>\<open>min(a, b)\<close> is \<^verbatim>\<open>b\<close> when \<^verbatim>\<open>b < a\<close> and
  \<^verbatim>\<open>a\<close> otherwise, \<^verbatim>\<open>max(a, b)\<close> is \<^verbatim>\<open>b\<close> when \<^verbatim>\<open>b > a\<close> and \<^verbatim>\<open>a\<close> otherwise,
  and every comparison with \<^verbatim>\<open>nan\<close> is false. So \<^verbatim>\<open>min(nan, limit)\<close> is \<^verbatim>\<open>nan\<close>
  and \<^verbatim>\<open>max(0, nan)\<close> is 0; \<^verbatim>\<open>inf\<close> gives the limit and \<^verbatim>\<open>-inf\<close> gives 0. The
  clamped coordinate is always a finite number.
\<close>

definition clamp_coord :: "pyfloat \<Rightarrow> nat \<Rightarrow> rat" where
  "clamp_coord v limit =
     (case v of
        Fin x \<Rightarrow> max 0 (min x (of_nat limit))
      | PosInf \<Rightarrow> max 0 (of_nat limit)
      | NegInf \<Rightarrow> 0
      | NaN \<Rightarrow> 0)"

text \<open>
  The numeric part of \<^verbatim>\<open>_bbox_to_yolo_format\<close>: clamp, centre and extent as fractions,
  validation. Dividing by a zero image side raises \<^verbatim>\<open>ZeroDivisionError\<close>; a rejected box
  is \<^verbatim>\<open>None\<close>.
\<close>

definition bbox_to_yolo_values :: "bbox \<Rightarrow> nat \<Rightarrow> nat \<Rightarrow> py_error + (rat \<times> rat \<times> rat \<times> rat) option" where
  "bbox_to_yolo_values b img_width img_height =
     (case b of (xmin0, ymin0, xmax0, ymax0) \<Rightarrow>
        let xmin = clamp_coord xmin0 img_width;
            ymin = clamp_coord ymin0 img_height;
            xmax = clamp_coord xmax0 img_width;
            ymax = clamp_coord ymax0 img_height
        in if img_width = 0 \<or> img_height = 0 then Inl ZeroDivisionError
           else
             let x_center = ((xmin + xmax) / 2) / of_nat img_width;
                 y_center = ((ymin + ymax) / 2) / of_nat img_height;
                 box_width = (xmax - xmin) / of_nat img_width;
                 box_height = (ymax - ymin) / of_nat img_height
             in if box_width \<le> 0 \<or> box_height \<le> 0 \<or> x_center < 0 \<or> y_center < 0
                then Inr None
                else Inr (Some (x_center, y_center, box_width, box_height)))"

text \<open>The returned f-string: the four values at six decimals, separated by blanks.\<close>

definition yolo_text :: "rat \<times> rat \<times> rat \<times> rat \<Rightarrow> string" where
  "yolo_text v = (case v of (x_center, y_center, box_width, box_height) \<Rightarrow>
     fmt6 x_center @ '' '' @ fmt6 y_center @ '' '' @ fmt6 box_width @ '' '' @ fmt6 box_height)"

definition bbox_to_yolo_format :: "bbox \<Rightarrow> nat \<Rightarrow> nat \<Rightarrow> py_error + string option" where
  "bbox_to_yolo_format b img_width img_height =
     (case bbox_to_yolo_values b img_width img_height of
        Inl e \<Rightarrow> Inl e
      | Inr None \<Rightarrow> Inr None
      | Inr (Some v) \<Rightarrow> Inr (Some (yolo_text v)))"

section \<open>Strings: \<^verbatim>\<open>split\<close>, \<^verbatim>\<open>strip\<close>, \<^verbatim>\<open>int\<close>, \<^verbatim>\<open>float\<close>, \<^verbatim>\<open>str\<close>, \<^verbatim>\<open>Path.stem\<close>\<close>

text \<open>\<^verbatim>\<open>s.split(c)\<close> for a one-character separator: always at least one field.\<close>

fun split_on :: "char \<Rightarrow> string \<Rightarrow> string list" where
  "split_on c [] = [[]]"
| "split_on c (x # xs) =
     (if x = c then [] # split_on c xs
      else (case split_on c xs of [] \<Rightarrow> [[x]] | w # ws \<Rightarrow> (x # w) # ws))"

text \<open>The white space of \<^verbatim>\<open>str.strip\<close> among the characters below 256.\<close>

definition is_space :: "char \<Rightarrow> bool" where
  "is_space c = (c \<in> set [CHR '' '', CHR 0x09, CHR 0x0A, CHR 0x0B, CHR 0x0C, CHR 0x0D,
                            CHR 0x1C, CHR 0x1D, CHR 0x1E, CHR 0x1F, CHR 0x85, CHR 0xA0])"

definition strip :: "string \<Rightarrow> string" where
  "strip s = rev (dropWhile is_space (rev (dropWhile is_space s)))"

text \<open>The position of a character in a text, and with it the value of a decimal digit.\<close>

fun char_index :: "char \<Rightarrow> string \<Rightarrow> nat option" where
  "char_index c [] = None"
| "char_index c (x # xs) = (if x = c then Some 0 else map_option Suc (char_index c xs))"

definition digit_val :: "char \<Rightarrow> nat option" where
  "digit_val c = char_index c ''0123456789''"

fun digits_val :: "nat \<Rightarrow> string \<Rightarrow> nat option" where
  "digits_val acc [] = Some acc"
| "digits_val acc (c # cs) =
     (case digit_val c of None \<Rightarrow> None | Some d \<Rightarrow> digits_val (10 * acc + d) cs)"

definition parse_nat :: "string \<Rightarrow> nat option" where
  "parse_nat s = (if s = [] then None else digits_val 0 s)"

text \<open>
  Digit grouping: \<^verbatim>\<open>int\<close> and \<^verbatim>\<open>float\<close> accept an underscore that stands between two
  digits, and read the text without it. \<open>prev\<close> is the character before, \<^verbatim>\<open>NUL\<close> at
  the start.
\<close>

definition is_digit :: "char \<Rightarrow> bool" where
  "is_digit c = (digit_val c \<noteq> None)"

fun drop_underscores :: "char \<Rightarrow> string \<Rightarrow> string option" where
  "drop_underscores prev [] = (if prev = CHR ''_'' then None else Some [])"
| "drop_underscores prev (c # cs) =
     (if c = CHR ''_'' then (if is_digit prev then drop_underscores c cs else None)
      else if prev = CHR ''_'' \<and> \<not> is_digit c then None
      else map_option ((#) c) (drop_underscores c cs))"

text \<open>Lower case of an ASCII letter, for the words that \<^verbatim>\<open>float\<close> reads in any case.\<close>

definition lower_char :: "char \<Rightarrow> char" where
  "lower_char c =
     (case map_of (zip ''ABCDEFGHIJKLMNOPQRSTUVWXYZ'' ''abcdefghijklmnopqrstuvwxyz'') c of
        None \<Rightarrow> c
      | Some l \<Rightarrow> l)"

definition split_sign :: "string \<Rightarrow> bool \<times> string" where
  "split_sign s =
     (case s of [] \<Rightarrow> (False, [])
      | c # cs \<Rightarrow> if c = CHR ''-'' then (True, cs) else if c = CHR ''+'' then (False, cs) else (False, s))"

text \<open>\<^verbatim>\<open>digits[.digits]\<close> or \<^verbatim>\<open>.digits\<close>, with at least one digit.\<close>

definition parse_decimal :: "string \<Rightarrow> rat option" where
  "parse_decimal s =
     (let ip = takeWhile (\<lambda>c. c \<noteq> CHR ''.'') s;
          rest = dropWhile (\<lambda>c. c \<noteq> CHR ''.'') s
      in case rest of
           [] \<Rightarrow> map_option of_nat (parse_nat ip)
         | _ # fp \<Rightarrow>
             if ip = [] \<and> fp = [] then None
             else (case digits_val 0 ip of None \<Rightarrow> None
                   | Some a \<Rightarrow> (case digits_val 0 fp of None \<Rightarrow> None
                       | Some b \<Rightarrow> Some (of_nat a + of_nat b / 10 ^ length fp))))"

definition is_exp_mark :: "char \<Rightarrow> bool" where
  "is_exp_mark c = (c = CHR ''e'' \<or> c = CHR ''E'')"

definition parse_unsigned_float :: "string \<Rightarrow> rat option" where
  "parse_unsigned_float s =
     (let mant = takeWhile (\<lambda>c. \<not> is_exp_mark c) s;
          rest = dropWhile (\<lambda>c. \<not> is_exp_mark c) s
      in case rest of
           [] \<Rightarrow> parse_decimal mant
         | _ # ex \<Rightarrow>
             (case parse_decimal mant of None \<Rightarrow> None
              | Some m \<Rightarrow> (case split_sign ex of (neg, ds) \<Rightarrow>
                  (case parse_nat ds of None \<Rightarrow> None
                   | Some k \<Rightarrow> Some (if neg then m / 10 ^ k else m * 10 ^ k)))))"

text \<open>
  \<^verbatim>\<open>float(s)\<close> on a string: \<^verbatim>\<open>None\<close> stands for the \<^verbatim>\<open>ValueError\<close>. Digit grouping
  is resolved first, then white space around is dropped; after an optional sign come
  \<^verbatim>\<open>inf\<close>, \<^verbatim>\<open>infinity\<close> or \<^verbatim>\<open>nan\<close> in any case, or a decimal number (digits, point,
  exponent). The value of a decimal number is the number written: its rounding to a
  double is not applied, and neither are overflow to \<^verbatim>\<open>inf\<close> (which the clamping of a
  coordinate treats as it treats any number beyond the frame) and underflow to zero.
\<close>

definition py_float :: "string \<Rightarrow> pyfloat option" where
  "py_float s =
     (case drop_underscores (CHR 0x00) s of
        None \<Rightarrow> None
      | Some t \<Rightarrow>
          (case split_sign (strip t) of (neg, body) \<Rightarrow>
             let word = map lower_char body
             in if word = ''inf'' \<or> word = ''infinity'' then Some (if neg then NegInf else PosInf)
                else if word = ''nan'' then Some NaN
                else map_option (\<lambda>r. Fin (if neg then - r else r)) (parse_unsigned_float body)))"

text \<open>\<^verbatim>\<open>int(v)\<close>, \<^verbatim>\<open>str(v)\<close> and the truth value of a property value.\<close>

definition py_int :: "pyval \<Rightarrow> py_error + int" where
  "py_int v =
     (case v of
        PInt i \<Rightarrow> Inr i
      | PNaN \<Rightarrow> Inl ValueError
      | PStr s \<Rightarrow> (case split_sign (strip s) of (neg, body) \<Rightarrow>
          (case drop_underscores (CHR 0x00) body of
             None \<Rightarrow> Inl ValueError
           | Some ds \<Rightarrow>
               (case parse_nat ds of None \<Rightarrow> Inl ValueError
                | Some n \<Rightarrow> Inr (if neg then - int n else int n)))))"

definition py_str :: "pyval \<Rightarrow> string" where
  "py_str v = (case v of PStr s \<Rightarrow> s | PInt i \<Rightarrow> show_int i | PNaN \<Rightarrow> ''nan'')"

definition py_truthy :: "pyval \<Rightarrow> bool" where
  "py_truthy v = (case v of PStr s \<Rightarrow> s \<noteq> [] | PInt i \<Rightarrow> i \<noteq> 0 | PNaN \<Rightarrow> True)"

text \<open>
  \<^verbatim>\<open>Path(name).stem\<close>: the name without its last suffix; a name whose only dot is the
  first or the last character has no suffix.
\<close>

definition py_stem :: "string \<Rightarrow> string" where
  "py_stem name =
     (let after = takeWhile (\<lambda>c. c \<noteq> CHR ''.'') (rev name)
      in if CHR ''.'' \<notin> set name then name
         else let i = length name - length after - 1
              in if 0 < i \<and> after \<noteq> [] then take i name else name)"

definition ends_with :: "string \<Rightarrow> string \<Rightarrow> bool" where
  "ends_with ext name = (length ext \<le> length name \<and> drop (length name - length ext) name = ext)"

section \<open>GeometryResolver\<close>

text \<open>
  The \<^verbatim>\<open>geometry\<close> of a row: an object with a \<^verbatim>\<open>bounds\<close> attribute, as the rows that
  \<^verbatim>\<open>geopandas\<close> reads have it (the geometry library computes the attribute; it is
  carried here as its value), or a dictionary with a \<^verbatim>\<open>type\<close> and the \<^verbatim>\<open>coordinates\<close>
  rings.
\<close>

datatype geometry = Shape bbox | GeoDict string "(rat \<times> rat) list list"

text \<open>\<^verbatim>\<open>min\<close> and \<^verbatim>\<open>max\<close> of a list; they are applied to non-empty lists only.\<close>

definition py_min :: "rat list \<Rightarrow> rat" where
  "py_min xs = (case xs of [] \<Rightarrow> 0 | x # r \<Rightarrow> fold min r x)"

definition py_max :: "rat list \<Rightarrow> rat" where
  "py_max xs = (case xs of [] \<Rightarrow> 0 | x # r \<Rightarrow> fold max r x)"

text \<open>
  \<^verbatim>\<open>_extract_bbox_from_geometry\<close>. The exceptions of the body (\<^verbatim>\<open>coordinates[0]\<close> of
  no ring, \<^verbatim>\<open>min\<close> of no point) are caught there and give \<^verbatim>\<open>None\<close>.
\<close>

definition extract_bbox_from_geometry :: "geometry option \<Rightarrow> bbox option" where
  "extract_bbox_from_geometry geom =
     (case geom of
        None \<Rightarrow> None
      | Some (Shape b) \<Rightarrow> Some b
      | Some (GeoDict ty rings) \<Rightarrow>
          if ty = ''Polygon'' then
            (case rings of
               [] \<Rightarrow> None
             | coords # _ \<Rightarrow>
                 let x_coords = map fst coords; y_coords = map snd coords
                 in if coords = [] then None
                    else Some (Fin (py_min x_coords), Fin (py_min y_coords),
                               Fin (py_max x_coords), Fin (py_max y_coords)))
          else None)"

section \<open>Annotation rows, ClassMapper and AnnotationIndex\<close>

text \<open>A row of the annotation store; \<^verbatim>\<open>None\<close> in a property field: the key is absent.\<close>

record annotation =
  image_id :: "pyval option"
  feature_id :: "pyval option"
  ann_type :: "pyval option"
  class_type :: "pyval option"
  type_id :: "pyval option"
  bounds_imcoords :: "pyval option"
  geometry :: "geometry option"

text \<open>A key of the class dictionary as the YAML file gives it: an integer, or a text when
  the key is quoted there.\<close>

datatype yaml_key = KInt int | KStr string

definition key_int :: "yaml_key \<Rightarrow> int option" where
  "key_int k = (case k of KInt i \<Rightarrow> Some i | KStr s \<Rightarrow> None)"

definition key_str :: "yaml_key \<Rightarrow> string option" where
  "key_str k = (case k of KInt i \<Rightarrow> None | KStr s \<Rightarrow> Some s)"

definition default_class_dict :: "(yaml_key \<times> nat) list" where
  "default_class_dict =
     [(KInt 11, 0), (KInt 12, 1), (KInt 13, 2), (KInt 15, 3), (KInt 21, 4),
      (KInt 37, 5), (KInt 52, 6), (KInt 57, 7), (KInt 58, 8), (KInt 59, 9)]"

text \<open>
  \<^verbatim>\<open>sorted(class_dict.items())\<close>: the keys are compared as they are, integers by value
  and texts character by character; an integer and a text do not compare. The keys of a
  dictionary differ, so the values are never compared.
\<close>

definition sorted_items :: "(yaml_key \<times> 'v) list \<Rightarrow> py_error + (yaml_key \<times> 'v) list" where
  "sorted_items items =
     (if list_all (\<lambda>kv. key_int (fst kv) \<noteq> None) items
      then Inr (sort_key (\<lambda>kv. the (key_int (fst kv))) items)
      else if list_all (\<lambda>kv. key_str (fst kv) \<noteq> None) items
      then Inr (sort_key (\<lambda>kv. the (key_str (fst kv))) items)
      else Inl TypeError)"

text \<open>The loop of \<^verbatim>\<open>_load_class_mapping\<close>: \<^verbatim>\<open>class_map[int(xview_id)] = yolo_id\<close>.\<close>

fun assign_ids :: "(int \<rightharpoonup> nat) \<Rightarrow> nat \<Rightarrow> (yaml_key \<times> 'v) list \<Rightarrow> py_error + (int \<rightharpoonup> nat)" where
  "assign_ids class_map yolo_id [] = Inr class_map"
| "assign_ids class_map yolo_id ((xview_id, class_name) # rest) =
     (case py_int (case xview_id of KInt i \<Rightarrow> PInt i | KStr s \<Rightarrow> PStr s) of
        Inl e \<Rightarrow> Inl e
      | Inr i \<Rightarrow> assign_ids (class_map(i \<mapsto> yolo_id)) (yolo_id + 1) rest)"

text \<open>\<^verbatim>\<open>_load_class_mapping\<close> on the dictionary read from the configuration.\<close>

definition load_class_mapping :: "(yaml_key \<times> 'v) list \<Rightarrow> py_error + (int \<rightharpoonup> nat)" where
  "load_class_mapping class_dict =
     (case sorted_items class_dict of
        Inl e \<Rightarrow> Inl e
      | Inr items \<Rightarrow> assign_ids Map.empty 0 items)"

text \<open>
  The image identifier of a row: its \<^verbatim>\<open>image_id\<close>, else the part of \<^verbatim>\<open>feature_id\<close>
  before the first dot.
\<close>

definition row_image_id :: "annotation \<Rightarrow> pyval option" where
  "row_image_id row =
     (case image_id row of
        Some v \<Rightarrow> Some v
      | None \<Rightarrow> (case feature_id row of
          Some v \<Rightarrow> Some (PStr (case split_on CHR ''.'' (py_str v) of [] \<Rightarrow> [] | p # _ \<Rightarrow> p))
        | None \<Rightarrow> None))"

definition add_row :: "annotation \<Rightarrow> (string \<rightharpoonup> annotation list) \<Rightarrow> (string \<rightharpoonup> annotation list)" where
  "add_row row annotations_by_image =
     (case row_image_id row of
        None \<Rightarrow> annotations_by_image
      | Some v \<Rightarrow>
          if py_truthy v then
            annotations_by_image(py_str v \<mapsto>
              (case annotations_by_image (py_str v) of None \<Rightarrow> [] | Some g \<Rightarrow> g) @ [row])
          else annotations_by_image)"

definition group_annotations :: "annotation list \<Rightarrow> (string \<rightharpoonup> annotation list)" where
  "group_annotations gdf = fold add_row gdf Map.empty"

section \<open>ConversionPipeline: \<^verbatim>\<open>xViewToYOLOConverter.convert\<close>\<close>

record conv_stats =
  total_images :: nat
  processed_images :: nat
  skipped_images :: nat
  total_objects :: nat
  objects_by_class :: "int \<Rightarrow> nat"
  missing_images :: "string list"
  invalid_annotations :: nat

definition init_stats :: conv_stats where
  "init_stats = \<lparr>total_images = 0, processed_images = 0, skipped_images = 0, total_objects = 0,
     objects_by_class = (\<lambda>_. 0), missing_images = [], invalid_annotations = 0\<rparr>"

text \<open>The taxonomy identifier under the first present key of \<^verbatim>\<open>type\<close>, \<^verbatim>\<open>class_type\<close>,
  \<^verbatim>\<open>type_id\<close>; \<^verbatim>\<open>None\<close> when no key is present.\<close>

definition int_field :: "pyval \<Rightarrow> py_error + int option" where
  "int_field v = (case py_int v of Inl e \<Rightarrow> Inl e | Inr i \<Rightarrow> Inr (Some i))"

definition get_class_type :: "annotation \<Rightarrow> py_error + int option" where
  "get_class_type ann =
     (case ann_type ann of
        Some v \<Rightarrow> int_field v
      | None \<Rightarrow> (case class_type ann of
          Some v \<Rightarrow> int_field v
        | None \<Rightarrow> (case type_id ann of
            Some v \<Rightarrow> int_field v
          | None \<Rightarrow> Inr None)))"

text \<open>\<^verbatim>\<open>[float(x.strip()) for x in fields]\<close>: the first field that does not parse raises.\<close>

fun floats_of :: "string list \<Rightarrow> py_error + pyfloat list" where
  "floats_of [] = Inr []"
| "floats_of (x # xs) =
     (case py_float (strip x) of
        None \<Rightarrow> Inl ValueError
      | Some v \<Rightarrow> (case floats_of xs of Inl e \<Rightarrow> Inl e | Inr vs \<Rightarrow> Inr (v # vs)))"

text \<open>
  The bounding box of an annotation as \<^verbatim>\<open>convert\<close> extracts it: the \<^verbatim>\<open>if\<close> branch on
  the key \<^verbatim>\<open>bounds_imcoords\<close>, the \<^verbatim>\<open>elif\<close> branch on the geometry.
\<close>

definition resolve_bbox :: "annotation \<Rightarrow> py_error + bbox option" where
  "resolve_bbox ann =
     (case bounds_imcoords ann of
        Some v \<Rightarrow>
          let coords_str = py_str v
          in if coords_str \<noteq> [] \<and> coords_str \<noteq> ''nan'' then
               (case floats_of (split_on CHR '','' coords_str) of
                  Inl e \<Rightarrow> Inl e
                | Inr coords \<Rightarrow>
                    if length coords = 4
                    then Inr (Some (coords ! 0, coords ! 1, coords ! 2, coords ! 3))
                    else Inr None)
             else Inr None
      | None \<Rightarrow>
          (case geometry ann of
             None \<Rightarrow> Inr None
           | Some g \<Rightarrow> Inr (extract_bbox_from_geometry (Some g))))"

text \<open>The state of the loop over one image's annotations: the label lines, the object
  count, the statistics.\<close>

type_synonym ann_state = "string list \<times> nat \<times> conv_stats"

definition count_invalid :: "ann_state \<Rightarrow> ann_state" where
  "count_invalid s = (case s of (label_lines, objects_count, stats) \<Rightarrow>
     (label_lines, objects_count, stats\<lparr>invalid_annotations := invalid_annotations stats + 1\<rparr>))"

text \<open>The body of the \<^verbatim>\<open>try\<close> block; \<^verbatim>\<open>Inl\<close> is a raised exception.\<close>

definition try_annotation :: "(int \<rightharpoonup> nat) \<Rightarrow> nat \<Rightarrow> nat \<Rightarrow> annotation \<Rightarrow> ann_state \<Rightarrow> py_error + ann_state" where
  "try_annotation class_map w h ann s =
     (case s of (label_lines, objects_count, stats) \<Rightarrow>
        (case get_class_type ann of
           Inl e \<Rightarrow> Inl e
         | Inr None \<Rightarrow> Inr s
         | Inr (Some ct) \<Rightarrow>
             (case class_map ct of
                None \<Rightarrow> Inr s
              | Some yolo_class_id \<Rightarrow>
                  (case resolve_bbox ann of
                     Inl e \<Rightarrow> Inl e
                   | Inr None \<Rightarrow> Inr (count_invalid s)
                   | Inr (Some b) \<Rightarrow>
                       (case bbox_to_yolo_format b w h of
                          Inl e \<Rightarrow> Inl e
                        | Inr None \<Rightarrow> Inr s
                        | Inr (Some yolo_line) \<Rightarrow>
                            if yolo_line = [] then Inr s
                            else Inr (label_lines @ [show_nat yolo_class_id @ '' '' @ yolo_line @ [CHR 0x0A]],
                                      objects_count + 1,
                                      stats\<lparr>objects_by_class :=
                                        (objects_by_class stats)(ct := objects_by_class stats ct + 1)\<rparr>))))))"

text \<open>One iteration of the loop: \<^verbatim>\<open>except Exception\<close> counts the annotation as invalid
  and goes on.\<close>

definition process_annotation :: "(int \<rightharpoonup> nat) \<Rightarrow> nat \<Rightarrow> nat \<Rightarrow> annotation \<Rightarrow> ann_state \<Rightarrow> ann_state" where
  "process_annotation class_map w h ann s =
     (case try_annotation class_map w h ann s of Inl e \<Rightarrow> count_invalid s | Inr s' \<Rightarrow> s')"

text \<open>An image file of the corpus: its name and what \<^verbatim>\<open>cv2.imread\<close> gives, \<^verbatim>\<open>None\<close> or
  an array of shape \<^verbatim>\<open>(h, w)\<close>.\<close>

record image_file =
  img_name :: string
  img_shape :: "(nat \<times> nat) option"

text \<open>The label directory: file name to contents.\<close>

type_synonym label_dir = "string \<rightharpoonup> string"

text \<open>\<^verbatim>\<open>Path.touch()\<close>: creates the file empty when it does not exist, and leaves an existing
  file's contents alone.\<close>

definition touch :: "label_dir \<Rightarrow> string \<Rightarrow> label_dir" where
  "touch fs p = (case fs p of None \<Rightarrow> fs(p \<mapsto> []) | Some c \<Rightarrow> fs)"

text \<open>\<^verbatim>\<open>open(p, 'w')\<close> and \<^verbatim>\<open>writelines\<close>: the file holds exactly the lines.\<close>

definition write_lines :: "label_dir \<Rightarrow> string \<Rightarrow> string list \<Rightarrow> label_dir" where
  "write_lines fs p ls = fs(p \<mapsto> concat ls)"

definition lookup_group :: "(string \<rightharpoonup> annotation list) \<Rightarrow> string \<Rightarrow> annotation list" where
  "lookup_group annotations_by_image k = (case annotations_by_image k of None \<Rightarrow> [] | Some g \<Rightarrow> g)"

definition image_annotations :: "(string \<rightharpoonup> annotation list) \<Rightarrow> string \<Rightarrow> annotation list" where
  "image_annotations annotations_by_image image_filename =
     (let annotations = lookup_group annotations_by_image (py_stem image_filename)
      in if annotations = [] then lookup_group annotations_by_image image_filename else annotations)"

definition label_path :: "string \<Rightarrow> string" where
  "label_path image_filename = py_stem image_filename @ ''.txt''"

text \<open>The body of the loop over the image files.\<close>

definition process_image :: "(int \<rightharpoonup> nat) \<Rightarrow> (string \<rightharpoonup> annotation list) \<Rightarrow> image_file \<Rightarrow> label_dir \<times> conv_stats \<Rightarrow> label_dir \<times> conv_stats" where
  "process_image class_map annotations_by_image img st =
     (case st of (fs, stats) \<Rightarrow>
        (case img_shape img of
           None \<Rightarrow>
             (fs, stats\<lparr>skipped_images := skipped_images stats + 1,
                        missing_images := missing_images stats @ [py_stem (img_name img)]\<rparr>)
         | Some (h, w) \<Rightarrow>
             let annotations = image_annotations annotations_by_image (img_name img)
             in if annotations = [] then (touch fs (label_path (img_name img)), stats)
                else
                  (case fold (process_annotation class_map w h) annotations ([], 0, stats) of
                     (label_lines, objects_count, stats') \<Rightarrow>
                       if label_lines \<noteq> [] then
                         (write_lines fs (label_path (img_name img)) label_lines,
                          stats'\<lparr>processed_images := processed_images stats' + 1,
                                  total_objects := total_objects stats' + objects_count\<rparr>)
                       else (fs, stats'))))"

text \<open>The four \<^verbatim>\<open>glob\<close> calls over the listing of the image directory.\<close>

definition glob_ext :: "string \<Rightarrow> ('a \<Rightarrow> string) \<Rightarrow> 'a list \<Rightarrow> 'a list" where
  "glob_ext ext name_of dir = filter (\<lambda>f. ends_with ext (name_of f)) dir"

definition glob_images :: "('a \<Rightarrow> string) \<Rightarrow> 'a list \<Rightarrow> 'a list" where
  "glob_images name_of dir =
     glob_ext ''.jpg'' name_of dir @ glob_ext ''.png'' name_of dir
       @ glob_ext ''.tif'' name_of dir @ glob_ext ''.tiff'' name_of dir"

definition convert :: "(int \<rightharpoonup> nat) \<Rightarrow> annotation list \<Rightarrow> image_file list \<Rightarrow> label_dir \<times> conv_stats \<Rightarrow> label_dir \<times> conv_stats" where
  "convert class_map gdf images_dir st =
     (case st of (fs, stats) \<Rightarrow>
        let image_files = glob_images img_name images_dir;
            annotations_by_image = group_annotations gdf
        in fold (process_image class_map annotations_by_image) image_files
             (fs, stats\<lparr>total_images := length image_files\<rparr>))"

section \<open>Pixel corners of a normalized box: \<^verbatim>\<open>yolo_to_geo_coords\<close>\<close>


section \<open>DatasetSplitter\<close>

text \<open>
  The files the splitter sees: the entries of the image directory in the order the
  directory is enumerated (name and contents), the label directory, and the output tree
  (the directories that exist and the files, by directory and name). A path is the list
  of its components.
\<close>

record split_fs =
  images_dir :: "(string \<times> string) list"
  labels_dir :: "string \<rightharpoonup> string"
  out_dirs :: "string list set"
  out_files :: "string list \<times> string \<rightharpoonup> string"

record splitter =
  output_dir :: "string list"
  train_ratio :: rat
  val_ratio :: rat
  test_ratio :: rat

definition train_img_dir :: "splitter \<Rightarrow> string list" where
  "train_img_dir sp = output_dir sp @ [''images'', ''train'']"

definition val_img_dir :: "splitter \<Rightarrow> string list" where
  "val_img_dir sp = output_dir sp @ [''images'', ''val'']"

definition test_img_dir :: "splitter \<Rightarrow> string list" where
  "test_img_dir sp = output_dir sp @ [''images'', ''test'']"

definition train_lbl_dir :: "splitter \<Rightarrow> string list" where
  "train_lbl_dir sp = output_dir sp @ [''labels'', ''train'']"

definition val_lbl_dir :: "splitter \<Rightarrow> string list" where
  "val_lbl_dir sp = output_dir sp @ [''labels'', ''val'']"

definition test_lbl_dir :: "splitter \<Rightarrow> string list" where
  "test_lbl_dir sp = output_dir sp @ [''labels'', ''test'']"

text \<open>\<^verbatim>\<open>dir_path.mkdir(parents=True, exist_ok=True)\<close>: the directory and each of its
  ancestors exist afterwards.\<close>

definition mkdir_parents :: "string list \<Rightarrow> string list set \<Rightarrow> string list set" where
  "mkdir_parents p dirs = dirs \<union> set (map (\<lambda>k. take (Suc k) p) [0..<length p])"

text \<open>
  \<^verbatim>\<open>DatasetSplitter.__init__\<close>: the ratio check raises before the directories are made.
  The two additions, the subtraction and the literal \<^verbatim>\<open>0.01\<close> are floats.
\<close>

definition init_splitter :: "string list \<Rightarrow> rat \<Rightarrow> rat \<Rightarrow> rat \<Rightarrow> split_fs \<Rightarrow> (py_error + splitter) \<times> split_fs" where
  "init_splitter out tr vr te fs =
     (let total = fl (fl (tr + vr) + te)
      in if \<bar>fl (total - 1)\<bar> > fl (1 / 100) then (Inl ValueError, fs)
         else
           let sp = \<lparr>output_dir = out, train_ratio = tr, val_ratio = vr, test_ratio = te\<rparr>
           in (Inr sp,
               fs\<lparr>out_dirs :=
                 fold mkdir_parents
                   [train_img_dir sp, val_img_dir sp, test_img_dir sp,
                    train_lbl_dir sp, val_lbl_dir sp, test_lbl_dir sp]
                   (out_dirs fs)\<rparr>))"

text \<open>
  \<^verbatim>\<open>random.shuffle\<close>: for \<^verbatim>\<open>i\<close> from the last index down to 1, exchange the entries at
  \<^verbatim>\<open>i\<close> and at a drawn index below \<^verbatim>\<open>i + 1\<close>. The generator is not modelled: \<open>rnd i\<close>
  is the number it yields at step \<^verbatim>\<open>i\<close> for the given seed.
\<close>

definition swap :: "nat \<Rightarrow> nat \<Rightarrow> 'a list \<Rightarrow> 'a list" where
  "swap i j xs = xs[i := xs ! j, j := xs ! i]"

fun shuffle_loop :: "(nat \<Rightarrow> nat) \<Rightarrow> nat \<Rightarrow> 'a list \<Rightarrow> 'a list" where
  "shuffle_loop rnd 0 xs = xs"
| "shuffle_loop rnd (Suc i) xs = shuffle_loop rnd i (swap (Suc i) (rnd (Suc i) mod (Suc (Suc i))) xs)"

definition shuffle :: "(nat \<Rightarrow> nat) \<Rightarrow> 'a list \<Rightarrow> 'a list" where
  "shuffle rnd xs = shuffle_loop rnd (length xs - 1) xs"

text \<open>\<^verbatim>\<open>int(x)\<close> on a float truncates towards zero.\<close>

definition py_trunc :: "rat \<Rightarrow> int" where
  "py_trunc x = (if 0 \<le> x then \<lfloor>x\<rfloor> else \<lceil>x\<rceil>)"

text \<open>List slicing \<^verbatim>\<open>xs[lo:hi]\<close> with Python's treatment of negative and of too large
  indices; \<^verbatim>\<open>None\<close> is an omitted bound.\<close>

definition slice_index :: "nat \<Rightarrow> int \<Rightarrow> nat" where
  "slice_index n i = (if i < 0 then nat (max 0 (int n + i)) else min (nat i) n)"

definition py_slice :: "'a list \<Rightarrow> int option \<Rightarrow> int option \<Rightarrow> 'a list" where
  "py_slice xs lo hi =
     (let n = length xs;
          a = (case lo of None \<Rightarrow> 0 | Some i \<Rightarrow> slice_index n i);
          b = (case hi of None \<Rightarrow> n | Some i \<Rightarrow> slice_index n i)
      in take (b - a) (drop a xs))"

definition label_name :: "string \<Rightarrow> string" where
  "label_name img = py_stem img @ ''.txt''"

text \<open>The images with a label file of the same stem, each with the name of its label.\<close>

definition valid_pairs_of :: "split_fs \<Rightarrow> (string \<times> string) list" where
  "valid_pairs_of fs =
     map (\<lambda>img. (img, label_name img))
       (filter (\<lambda>img. labels_dir fs (label_name img) \<noteq> None)
          (map fst (glob_images fst (images_dir fs))))"

text \<open>
  The three lists \<^verbatim>\<open>train_pairs\<close>, \<^verbatim>\<open>val_pairs\<close>, \<^verbatim>\<open>test_pairs\<close> of \<^verbatim>\<open>split\<close>. In
  \<^verbatim>\<open>self.train_ratio * total\<close> the integer \<^verbatim>\<open>total\<close> is converted to a float and the
  product is a float.
\<close>

definition split_pairs :: "splitter \<Rightarrow> (nat \<Rightarrow> nat) \<Rightarrow> split_fs \<Rightarrow> (string \<times> string) list \<times> (string \<times> string) list \<times> (string \<times> string) list" where
  "split_pairs sp rnd fs =
     (let valid_pairs = shuffle rnd (valid_pairs_of fs);
          total = length valid_pairs;
          train_end = py_trunc (fl (train_ratio sp * fl (of_nat total)));
          val_end = train_end + py_trunc (fl (val_ratio sp * fl (of_nat total)))
      in (py_slice valid_pairs None (Some train_end),
          py_slice valid_pairs (Some train_end) (Some val_end),
          py_slice valid_pairs (Some val_end) None))"

text \<open>\<^verbatim>\<open>shutil.copy2\<close> of one image and its label into a partition's two directories.\<close>

definition copy_pair :: "string list \<Rightarrow> string list \<Rightarrow> string \<times> string \<Rightarrow> split_fs \<Rightarrow> split_fs" where
  "copy_pair img_dir lbl_dir pair fs =
     (case pair of (img, lbl) \<Rightarrow>
        fs\<lparr>out_files := (out_files fs)
             ((img_dir, img) := map_of (images_dir fs) img,
              (lbl_dir, lbl) := labels_dir fs lbl)\<rparr>)"

definition split :: "splitter \<Rightarrow> (nat \<Rightarrow> nat) \<Rightarrow> split_fs \<Rightarrow> split_fs \<times> nat \<times> nat \<times> nat" where
  "split sp rnd fs =
     (case split_pairs sp rnd fs of (train_pairs, val_pairs, test_pairs) \<Rightarrow>
        (fold (copy_pair (test_img_dir sp) (test_lbl_dir sp)) test_pairs
           (fold (copy_pair (val_img_dir sp) (val_lbl_dir sp)) val_pairs
              (fold (copy_pair (train_img_dir sp) (train_lbl_dir sp)) train_pairs fs)),
         length train_pairs, length val_pairs, length test_pairs))"

text \<open>The script's \<^verbatim>\<open>main\<close>: build the splitter, then split; an exception of the
  constructor ends the run.\<close>

definition run_split :: "string list \<Rightarrow> rat \<Rightarrow> rat \<Rightarrow> rat \<Rightarrow> (nat \<Rightarrow> nat) \<Rightarrow> split_fs \<Rightarrow> (py_error + nat \<times> nat \<times> nat) \<times> split_fs" where
  "run_split out tr vr te rnd fs =
     (case init_splitter out tr vr te fs of
        (Inl e, fs') \<Rightarrow> (Inl e, fs')
      | (Inr sp, fs') \<Rightarrow> (case split sp rnd fs' of (fs'', counts) \<Rightarrow> (Inr counts, fs'')))"

section \<open>Surviving annotations\<close>

text \<open>
  An annotation contributes a label line on an image of the given size when its class is
  in the class map, its bounding box resolves and the normalizer accepts the box.
\<close>

definition emits_line :: "(int \<rightharpoonup> nat) \<Rightarrow> nat \<Rightarrow> nat \<Rightarrow> annotation \<Rightarrow> bool" where
  "emits_line class_map w h ann =
     (case get_class_type ann of
        Inl e \<Rightarrow> False
      | Inr None \<Rightarrow> False
      | Inr (Some ct) \<Rightarrow>
          (case class_map ct of
             None \<Rightarrow> False
           | Some k \<Rightarrow>
               (case resolve_bbox ann of
                  Inl e \<Rightarrow> False
                | Inr None \<Rightarrow> False
                | Inr (Some b) \<Rightarrow>
                    (case bbox_to_yolo_format b w h of
                       Inl e \<Rightarrow> False
                     | Inr None \<Rightarrow> False
                     | Inr (Some line) \<Rightarrow> line \<noteq> []))))"

section \<open>Example inputs\<close>

text \<open>The class map of the default dictionary.\<close>

definition example_class_map :: "int \<rightharpoonup> nat" where
  "example_class_map =
     (case load_class_mapping default_class_dict of Inl e \<Rightarrow> Map.empty | Inr class_map \<Rightarrow> class_map)"

definition plain_ann :: "string \<Rightarrow> int \<Rightarrow> pyval \<Rightarrow> geometry option \<Rightarrow> annotation" where
  "plain_ann key ct bounds geom =
     \<lparr>image_id = Some (PStr key), feature_id = None, ann_type = Some (PInt ct),
      class_type = None, type_id = None, bounds_imcoords = Some bounds, geometry = geom\<rparr>"

definition square_ring :: "(rat \<times> rat) list" where
  "square_ring = [(10, 20), (30, 20), (30, 40), (10, 40), (10, 20)]"

definition ann_box :: annotation where
  "ann_box = plain_ann ''100'' 13 (PStr ''100,100,300,300'') None"

definition ann_text_bounds :: annotation where
  "ann_text_bounds = plain_ann ''100'' 13 (PStr ''abc'') (Some (GeoDict ''Polygon'' [square_ring]))"

definition ann_missing_bounds :: annotation where
  "ann_missing_bounds = plain_ann ''100'' 13 PNaN (Some (GeoDict ''Polygon'' [square_ring]))"

definition ann_unknown_class :: annotation where
  "ann_unknown_class = plain_ann ''100'' 99 (PStr ''100,100,300,300'') None"

text \<open>An annotation of a class that is not in the class map, with a coordinate string
  that is no number.\<close>

definition ann_unknown_class_text :: annotation where
  "ann_unknown_class_text = plain_ann ''100'' 99 (PStr ''abc'') None"

text \<open>A box of width \<open>2\<^sup>-\<^sup>2\<^sup>0\<close> pixels: \<^verbatim>\<open>(100, 100, 100.00000095367431640625, 300)\<close>.\<close>

definition thin_box :: bbox where
  "thin_box = (Fin 100, Fin 100, Fin (100 + 1 / 2 ^ 20), Fin 300)"

definition ann_outside :: annotation where
  "ann_outside = plain_ann ''100'' 13 (PStr ''2000,100,2300,300'') None"

definition ann_polygon :: annotation where
  "ann_polygon =
     \<lparr>image_id = Some (PStr ''100''), feature_id = None, ann_type = Some (PInt 13),
      class_type = None, type_id = None, bounds_imcoords = None,
      geometry = Some (GeoDict ''Polygon'' [square_ring])\<rparr>"

definition ann_on_a_jpg :: annotation where
  "ann_on_a_jpg = plain_ann ''a.jpg'' 13 (PStr ''100,100,300,300'') None"

definition img_100 :: image_file where
  "img_100 = \<lparr>img_name = ''100.tif'', img_shape = Some (1024, 1024)\<rparr>"

definition img_a_jpg :: image_file where
  "img_a_jpg = \<lparr>img_name = ''a.jpg'', img_shape = Some (1024, 1024)\<rparr>"

definition img_a_png :: image_file where
  "img_a_png = \<lparr>img_name = ''a.png'', img_shape = Some (1024, 1024)\<rparr>"

definition empty_labels :: label_dir where
  "empty_labels = Map.empty"

definition box_line :: string where
  "box_line = ''2 0.195312 0.195312 0.195312 0.195312'' @ [CHR 0x0A]"

definition stale_labels :: label_dir where
  "stale_labels = empty_labels(''100.txt'' \<mapsto> box_line)"

text \<open>The splitter of the default ratios: the doubles written \<^verbatim>\<open>0.8\<close>, \<^verbatim>\<open>0.15\<close> and
  \<^verbatim>\<open>0.05\<close>.\<close>

definition sp_default :: splitter where
  "sp_default = \<lparr>output_dir = [''dataset''], train_ratio = fl (4 / 5), val_ratio = fl (3 / 20),
                  test_ratio = fl (1 / 20)\<rparr>"

text \<open>Ratios that sum to 1 with a negative train ratio: \<^verbatim>\<open>-0.4\<close>, \<^verbatim>\<open>0.4\<close> and \<^verbatim>\<open>1.0\<close>.\<close>

definition sp_negative :: splitter where
  "sp_negative = \<lparr>output_dir = [''dataset''], train_ratio = fl (- (2 / 5)), val_ratio = fl (2 / 5),
                   test_ratio = 1\<rparr>"

definition zero_draws :: "nat \<Rightarrow> nat" where
  "zero_draws i = 0"

definition small_fs :: split_fs where
  "small_fs =
     \<lparr>images_dir = [(''a.jpg'', ''A''), (''b.png'', ''B''), (''c.tif'', ''C''), (''d.txt'', ''D''), (''e.jpg'', ''E'')],
      labels_dir = [''a.txt'' \<mapsto> ''0 0.5 0.5 0.1 0.1'', ''b.txt'' \<mapsto> [], ''c.txt'' \<mapsto> []],
      out_dirs = {}, out_files = Map.empty\<rparr>"

text \<open>A corpus of 1000 images \<^verbatim>\<open>a.jpg\<close>, \<^verbatim>\<open>aa.jpg\<close>, ..., of which the first 950 have
  a label file.\<close>

definition many_name :: "nat \<Rightarrow> string" where
  "many_name i = replicate (Suc i) CHR ''a''"

definition many_fs :: split_fs where
  "many_fs =
     \<lparr>images_dir = map (\<lambda>i. (many_name i @ ''.jpg'', [])) [0..<1000],
      labels_dir = map_of (map (\<lambda>i. (many_name i @ ''.txt'', [])) [0..<950]),
      out_dirs = {}, out_files = Map.empty\<rparr>"

section \<open>Rounding to a double\<close>

lemma round_half_even_error: "\<bar>of_int (round_half_even x) - x\<bar> \<le> 1 / 2"
proof -
  have "of_int \<lfloor>x\<rfloor> \<le> x" "x < of_int \<lfloor>x\<rfloor> + 1" by linarith+
  then show ?thesis
    by (auto simp: round_half_even_def Let_def abs_le_iff)
qed

lemma round_half_even_eqI: "\<bar>x - of_int n\<bar> < 1 / 2 \<Longrightarrow> round_half_even x = n"
proof -
  assume a: "\<bar>x - of_int n\<bar> < 1 / 2"
  have e: "\<bar>of_int (round_half_even x) - x\<bar> \<le> 1 / 2" by (rule round_half_even_error)
  have "\<bar>(of_int (round_half_even x) :: rat) - of_int n\<bar> < 1" using a e by linarith
  then have "\<bar>(of_int (round_half_even x - n) :: rat)\<bar> < 1" by simp
  then have "\<bar>round_half_even x - n\<bar> < 1" by (simp only: of_int_abs[symmetric] of_int_less_1_iff)
  then show ?thesis by simp
qed

lemma round_half_even_nonneg: "0 \<le> x \<Longrightarrow> 0 \<le> round_half_even x"
proof -
  assume "0 \<le> x"
  then have "0 \<le> \<lfloor>x\<rfloor>" by simp
  then show ?thesis by (simp add: round_half_even_def Let_def)
qed

lemma fl_nonneg: "0 \<le> x \<Longrightarrow> 0 \<le> fl x"
  by (simp add: fl_def Let_def round_half_even_nonneg)

lemma fl_zero: "fl 0 = 0"
  by (simp add: fl_def Let_def round_half_even_def)

lemma bitlen_eqI:
  assumes "2 ^ n \<le> k" "k < 2 ^ Suc n"
  shows "bitlen k = int (Suc n)"
proof -
  have "nat (int (Suc n)) = Suc n" "nat (int n) = n" by simp_all
  then have "bitlen k \<le> int (Suc n)" using assms(2) by (simp only: bitlen_le_iff_power) simp
  moreover have "\<not> bitlen k \<le> int n" using assms(1) by (simp add: bitlen_le_iff_power)
  ultimately show ?thesis by simp
qed

text \<open>The double nearest to \<open>x\<close>, for \<open>x\<close> of a magnitude between \<open>2\<^sup>5\<^sup>2\<^sup>-\<^sup>k\<close> and
  \<open>2\<^sup>5\<^sup>3\<^sup>-\<^sup>k\<close>, is the multiple of \<open>2\<^sup>-\<^sup>k\<close> nearest to it.\<close>

lemma fl_value:
  assumes "k \<le> 1074" "2 ^ 52 \<le> \<bar>x\<bar> * 2 ^ k" "\<bar>x\<bar> * 2 ^ k < 2 ^ 53" "\<bar>x * 2 ^ k - of_int n\<bar> < 1 / 2"
  shows "fl x = of_int n / 2 ^ k"
proof -
  define m where "m = 1074 - k"
  have km: "k + m = 1074" using assms(1) by (simp add: m_def)
  define y where "y = x * 2 ^ 1074"
  have y: "y = x * 2 ^ k * 2 ^ m" unfolding y_def km[symmetric] by (simp add: power_add)
  have ay: "\<bar>y\<bar> = \<bar>x\<bar> * 2 ^ k * 2 ^ m" unfolding y by (simp add: abs_mult)
  have lo: "(2::rat) ^ (52 + m) \<le> \<bar>y\<bar>"
    unfolding ay power_add using assms(2) by (simp add: mult_right_mono)
  have hi: "\<bar>y\<bar> < (2::rat) ^ (53 + m)"
    unfolding ay power_add using assms(3) by (simp add: mult_strict_right_mono)
  have flo: "2 ^ (52 + m) \<le> \<lfloor>\<bar>y\<bar>\<rfloor>"
  proof -
    have "(of_int (2 ^ (52 + m)) :: rat) \<le> \<bar>y\<bar>" using lo by simp
    then show ?thesis by (simp only: le_floor_iff)
  qed
  have fhi: "\<lfloor>\<bar>y\<bar>\<rfloor> < 2 ^ Suc (52 + m)"
  proof -
    have "\<bar>y\<bar> < (of_int (2 ^ Suc (52 + m)) :: rat)" using hi by simp
    then show ?thesis by (simp only: floor_less_iff)
  qed
  have b: "bitlen \<lfloor>\<bar>y\<bar>\<rfloor> = int (Suc (52 + m))" by (rule bitlen_eqI[OF flo fhi])
  have q: "nat (bitlen \<lfloor>\<bar>y\<bar>\<rfloor> - 53) = m" by (simp add: b)
  have yq: "y / 2 ^ m = x * 2 ^ k" by (simp add: y)
  have r: "round_half_even (x * 2 ^ k) = n" by (rule round_half_even_eqI[OF assms(4)])
  have "fl x = of_int n * 2 ^ m / 2 ^ 1074"
    by (simp only: fl_def Let_def y_def[symmetric] q yq r)
  also have "\<dots> = of_int n / 2 ^ k"
    unfolding km[symmetric] power_add by simp
  finally show ?thesis .
qed

lemma round_half_even_tie:
  assumes "x = of_int n + 1 / 2"
  shows "round_half_even x = (if even n then n else n + 1)"
proof -
  have "\<lfloor>x\<rfloor> = n" unfolding assms by (simp add: floor_eq_iff)
  then show ?thesis by (simp add: round_half_even_def Let_def assms)
qed

lemma fl_tie:
  assumes "k \<le> 1074" "2 ^ 52 \<le> \<bar>x\<bar> * 2 ^ k" "\<bar>x\<bar> * 2 ^ k < 2 ^ 53" "x * 2 ^ k = of_int n + 1 / 2"
  shows "fl x = of_int (if even n then n else n + 1) / 2 ^ k"
proof -
  define m where "m = 1074 - k"
  have km: "k + m = 1074" using assms(1) by (simp add: m_def)
  define y where "y = x * 2 ^ 1074"
  have y: "y = x * 2 ^ k * 2 ^ m" unfolding y_def km[symmetric] by (simp add: power_add)
  have ay: "\<bar>y\<bar> = \<bar>x\<bar> * 2 ^ k * 2 ^ m" unfolding y by (simp add: abs_mult)
  have lo: "(2::rat) ^ (52 + m) \<le> \<bar>y\<bar>"
    unfolding ay power_add using assms(2) by (simp add: mult_right_mono)
  have hi: "\<bar>y\<bar> < (2::rat) ^ (53 + m)"
    unfolding ay power_add using assms(3) by (simp add: mult_strict_right_mono)
  have flo: "2 ^ (52 + m) \<le> \<lfloor>\<bar>y\<bar>\<rfloor>"
  proof -
    have "(of_int (2 ^ (52 + m)) :: rat) \<le> \<bar>y\<bar>" using lo by simp
    then show ?thesis by (simp only: le_floor_iff)
  qed
  have fhi: "\<lfloor>\<bar>y\<bar>\<rfloor> < 2 ^ Suc (52 + m)"
  proof -
    have "\<bar>y\<bar> < (of_int (2 ^ Suc (52 + m)) :: rat)" using hi by simp
    then show ?thesis by (simp only: floor_less_iff)
  qed
  have b: "bitlen \<lfloor>\<bar>y\<bar>\<rfloor> = int (Suc (52 + m))" by (rule bitlen_eqI[OF flo fhi])
  have q: "nat (bitlen \<lfloor>\<bar>y\<bar>\<rfloor> - 53) = m" by (simp add: b)
  have yq: "y / 2 ^ m = x * 2 ^ k" by (simp add: y)
  have r: "round_half_even (x * 2 ^ k) = (if even n then n else n + 1)"
    by (rule round_half_even_tie[OF assms(4)])
  have "fl x = of_int (if even n then n else n + 1) * 2 ^ m / 2 ^ 1074"
    by (simp only: fl_def Let_def y_def[symmetric] q yq r)
  also have "\<dots> = of_int (if even n then n else n + 1) / 2 ^ k"
    unfolding km[symmetric] power_add by simp
  finally show ?thesis .
qed

text \<open>The rounding moves a number of magnitude up to 4 by \<open>2\<^sup>-\<^sup>5\<^sup>1\<close> at most.\<close>

lemma fl_error_small:
  assumes "\<bar>x\<bar> \<le> 4"
  shows "\<bar>fl x - x\<bar> \<le> 1 / 2 ^ 51"
proof -
  define K :: rat where "K = 2 ^ 1074"
  have K: "0 < K" by (simp add: K_def)
  define y where "y = x * K"
  define m where "m = nat (bitlen \<lfloor>\<bar>y\<bar>\<rfloor> - 53)"
  have "\<bar>y\<bar> = \<bar>x\<bar> * K" using K by (simp add: y_def abs_mult)
  also have "\<dots> \<le> 4 * K" using assms K by (simp add: mult_right_mono)
  also have "\<dots> < (2::rat) ^ 1077" by (simp add: K_def)
  finally have "\<bar>y\<bar> < (of_int (2 ^ 1077) :: rat)" by simp
  then have "\<lfloor>\<bar>y\<bar>\<rfloor> < 2 ^ 1077" by (simp only: floor_less_iff)
  then have "bitlen \<lfloor>\<bar>y\<bar>\<rfloor> \<le> 1077" by (simp add: bitlen_le_iff_power)
  then have m: "m \<le> 1024" by (simp add: m_def)
  have p: "(2::rat) ^ m \<le> 2 ^ 1024" using m by (intro power_increasing) simp_all
  define q where "q = 2 ^ m / K"
  have q0: "0 \<le> q" using K by (simp add: q_def)
  have q: "q \<le> 2 ^ 1024 / K" unfolding q_def using p K by (intro divide_right_mono) simp_all
  have f: "fl x = of_int (round_half_even (y / 2 ^ m)) * 2 ^ m / K"
    by (simp only: fl_def Let_def K_def[symmetric] y_def[symmetric] m_def[symmetric])
  define r where "r = of_int (round_half_even (y / 2 ^ m)) - y / 2 ^ m"
  have r: "\<bar>r\<bar> \<le> 1 / 2" unfolding r_def by (rule round_half_even_error)
  have "of_int (round_half_even (y / 2 ^ m)) = y / 2 ^ m + r" by (simp add: r_def)
  then have "fl x = (y / 2 ^ m + r) * 2 ^ m / K" by (simp only: f)
  also have "\<dots> = y / K + r * q"
  proof -
    have "(y / 2 ^ m + r) * 2 ^ m = y + r * 2 ^ m" by (simp add: algebra_simps)
    then show ?thesis by (simp add: q_def add_divide_distrib)
  qed
  also have "y / K = x" using K by (simp add: y_def)
  finally have "fl x - x = r * q" by simp
  then have "\<bar>fl x - x\<bar> = \<bar>r\<bar> * q" using q0 by (simp add: abs_mult)
  also have "\<dots> \<le> (1 / 2) * q" using r q0 by (intro mult_right_mono) simp_all
  also have "\<dots> \<le> (1 / 2) * (2 ^ 1024 / K)" using q by simp
  also have "\<dots> = 1 / 2 ^ 51" by (simp add: K_def)
  finally show ?thesis .
qed

subsection \<open>The doubles of the examples\<close>

lemma fl_0_8: "fl (4 / 5) = 3602879701896397 / 4503599627370496"
  using fl_value[of 53 "4 / 5" "7205759403792794"] by simp

lemma fl_0_15: "fl (3 / 20) = 5404319552844595 / 36028797018963968"
  using fl_value[of 55 "3 / 20" "5404319552844595"] by simp

lemma fl_0_05: "fl (1 / 20) = 3602879701896397 / 72057594037927936"
  using fl_value[of 57 "1 / 20" "7205759403792794"] by simp

lemma fl_0_1: "fl (1 / 10) = 3602879701896397 / 36028797018963968"
  using fl_value[of 56 "1 / 10" "7205759403792794"] by simp

lemma fl_0_01: "fl (1 / 100) = 5764607523034235 / 576460752303423488"
  using fl_value[of 59 "1 / 100" "5764607523034235"] by simp

lemma fl_0_4: "fl (2 / 5) = 3602879701896397 / 9007199254740992"
  using fl_value[of 54 "2 / 5" "7205759403792794"] by simp

lemma fl_m0_4: "fl (- (2 / 5)) = - (3602879701896397 / 9007199254740992)"
  using fl_value[of 54 "- (2 / 5)" "- 7205759403792794"] by simp

lemma fl_0_33: "fl (33 / 100) = 5944751508129055 / 18014398509481984"
  using fl_value[of 54 "33 / 100" "5944751508129055"] by simp

lemma fl_0_7: "fl (7 / 10) = 3152519739159347 / 4503599627370496"
  using fl_value[of 53 "7 / 10" "6305039478318694"] by simp

lemma fl_1: "fl 1 = 1"
  using fl_value[of 52 "1" "4503599627370496"] by simp

lemma fl_3: "fl 3 = 3"
  using fl_value[of 51 "3" "6755399441055744"] by simp

lemma fl_90: "fl 90 = 90"
  using fl_value[of 46 "90" "6333186975989760"] by simp

lemma fl_950: "fl 950 = 950"
  using fl_value[of 43 "950" "8356288371097600"] by simp

lemma sum_default_1: "fl (3602879701896397 / 4503599627370496 + 5404319552844595 / 36028797018963968) = 8556839292003943 / 9007199254740992"
  using fl_value[of 53 "3602879701896397 / 4503599627370496 + 5404319552844595 / 36028797018963968" "8556839292003943"] by simp

lemma sum_default_2: "fl (8556839292003943 / 9007199254740992 + 3602879701896397 / 72057594037927936) = 1"
  using fl_value[of 52 "8556839292003943 / 9007199254740992 + 3602879701896397 / 72057594037927936" "4503599627370496"] by simp

lemma sum_default_3: "fl (1 - 1) = 0"
  by (simp add: fl_zero)

lemma sum_short_1: "fl (3602879701896397 / 4503599627370496 + 3602879701896397 / 36028797018963968) = 8106479329266893 / 9007199254740992"
  using fl_value[of 53 "3602879701896397 / 4503599627370496 + 3602879701896397 / 36028797018963968" "8106479329266893"] by simp

lemma sum_short_2: "fl (8106479329266893 / 9007199254740992 + 3602879701896397 / 72057594037927936) = 8556839292003943 / 9007199254740992"
  using fl_value[of 53 "8106479329266893 / 9007199254740992 + 3602879701896397 / 72057594037927936" "8556839292003943"] by simp

lemma sum_short_3: "fl (8556839292003943 / 9007199254740992 - 1) = - (450359962737049 / 9007199254740992)"
  using fl_value[of 57 "8556839292003943 / 9007199254740992 - 1" "- 7205759403792784"] by simp

lemma sum_negative_1: "fl (- (3602879701896397 / 9007199254740992) + 3602879701896397 / 9007199254740992) = 0"
  by (simp add: fl_zero)

lemma sum_negative_2: "fl (0 + 1) = 1"
  using fl_value[of 52 "0 + 1" "4503599627370496"] by simp

lemma sum_thirds_1: "fl (5944751508129055 / 18014398509481984 + 5944751508129055 / 18014398509481984) = 5944751508129055 / 9007199254740992"
  using fl_value[of 53 "5944751508129055 / 18014398509481984 + 5944751508129055 / 18014398509481984" "5944751508129055"] by simp

lemma sum_thirds_2: "fl (5944751508129055 / 9007199254740992 + 5944751508129055 / 18014398509481984) = 4458563631096791 / 4503599627370496"
  using fl_tie[of 53 "5944751508129055 / 9007199254740992 + 5944751508129055 / 18014398509481984" "8917127262193582"] by simp

lemma sum_thirds_3: "fl (4458563631096791 / 4503599627370496 - 1) = - (45035996273705 / 4503599627370496)"
  using fl_value[of 59 "4458563631096791 / 4503599627370496 - 1" "- 5764607523034240"] by simp

lemma prod_0_8_950: "fl (3602879701896397 / 4503599627370496 * 950) = 760"
  using fl_value[of 43 "3602879701896397 / 4503599627370496 * 950" "6685030696878080"] by simp

lemma prod_0_15_950: "fl (5404319552844595 / 36028797018963968 * 950) = 285 / 2"
  using fl_value[of 45 "5404319552844595 / 36028797018963968 * 950" "5013773022658560"] by simp

lemma prod_0_8_3: "fl (3602879701896397 / 4503599627370496 * 3) = 1351079888211149 / 562949953421312"
  using fl_tie[of 51 "3602879701896397 / 4503599627370496 * 3" "5404319552844595"] by simp

lemma prod_0_15_3: "fl (5404319552844595 / 36028797018963968 * 3) = 2026619832316723 / 4503599627370496"
  using fl_tie[of 54 "5404319552844595 / 36028797018963968 * 3" "8106479329266892"] by simp

lemma prod_m0_4_3: "fl (- (3602879701896397 / 9007199254740992) * 3) = - (1351079888211149 / 1125899906842624)"
  using fl_tie[of 52 "- (3602879701896397 / 9007199254740992) * 3" "- 5404319552844596"] by simp

lemma prod_0_4_3: "fl (3602879701896397 / 9007199254740992 * 3) = 1351079888211149 / 1125899906842624"
  using fl_tie[of 52 "3602879701896397 / 9007199254740992 * 3" "5404319552844595"] by simp

lemma prod_0_7_90: "fl (3152519739159347 / 4503599627370496 * 90) = 8866461766385663 / 140737488355328"
  using fl_value[of 47 "3152519739159347 / 4503599627370496 * 90" "8866461766385663"] by simp

lemma fl_0_6: "fl (3 / 5) = 5404319552844595 / 9007199254740992"
  using fl_value[of 53 "3 / 5" "5404319552844595"] by simp

lemma fl_5: "fl 5 = 5"
  using fl_value[of 50 "5" "5629499534213120"] by simp

lemma prod_0_6_5: "fl (5404319552844595 / 9007199254740992 * 5) = 3"
  using fl_value[of 51 "5404319552844595 / 9007199254740992 * 5" "6755399441055744"] by simp

section \<open>The box normalizer\<close>

lemma clamp_bounds: "0 \<le> clamp_coord v n \<and> clamp_coord v n \<le> of_nat n"
  by (cases v) (simp_all add: clamp_coord_def)


lemma round6_error: "\<bar>round6 x - x\<bar> \<le> 1 / 2000000"
proof -
  have "\<bar>of_int (micro x) - x * 1000000\<bar> \<le> 1 / 2"
    unfolding micro_def by (rule round_half_even_error)
  then show ?thesis unfolding round6_def by (simp add: abs_le_iff field_simps)
qed

lemma round_half_even_range:
  assumes "0 \<le> x" "x \<le> of_int n"
  shows "0 \<le> round_half_even x \<and> round_half_even x \<le> n"
proof (cases "\<lfloor>x\<rfloor> = n")
  case True
  have "of_int \<lfloor>x\<rfloor> \<le> x" by simp
  with True assms have "x = of_int n" by simp
  then have "x - of_int \<lfloor>x\<rfloor> = 0" by simp
  then have "round_half_even x = \<lfloor>x\<rfloor>" by (simp add: round_half_even_def Let_def)
  then show ?thesis using True assms by simp
next
  case False
  have "\<lfloor>x\<rfloor> \<le> n" using assms by (simp add: floor_le_iff)
  then have lt: "\<lfloor>x\<rfloor> + 1 \<le> n" using False by simp
  have f0: "0 \<le> \<lfloor>x\<rfloor>" using assms by simp
  have "round_half_even x = \<lfloor>x\<rfloor> \<or> round_half_even x = \<lfloor>x\<rfloor> + 1"
    by (simp add: round_half_even_def Let_def)
  then show ?thesis using lt f0 by auto
qed

lemma micro_range: "0 \<le> x \<Longrightarrow> x \<le> 1 \<Longrightarrow> 0 \<le> micro x \<and> micro x \<le> 1000000"
  unfolding micro_def using round_half_even_range[of "x * 1000000" 1000000] by simp


lemma yolo_values_range:
  assumes "0 < w" "0 < h" "bbox_to_yolo_values b w h = Inr (Some (xc, yc, bw, bh))"
  shows "0 \<le> xc \<and> xc \<le> 1 \<and> 0 \<le> yc \<and> yc \<le> 1 \<and> 0 < bw \<and> bw \<le> 1 \<and> 0 < bh \<and> bh \<le> 1"
proof -
  obtain x0 y0 x1 y1 where b: "b = (x0, y0, x1, y1)" by (cases b) auto
  define xmin where "xmin = clamp_coord x0 w"
  define xmax where "xmax = clamp_coord x1 w"
  define ymin where "ymin = clamp_coord y0 h"
  define ymax where "ymax = clamp_coord y1 h"
  have bx: "0 \<le> xmin" "xmin \<le> of_nat w" "0 \<le> xmax" "xmax \<le> of_nat w"
    and byy: "0 \<le> ymin" "ymin \<le> of_nat h" "0 \<le> ymax" "ymax \<le> of_nat h"
    using clamp_bounds by (simp_all add: xmin_def xmax_def ymin_def ymax_def)
  from assms b have v: "xc = ((xmin + xmax) / 2) / of_nat w" "yc = ((ymin + ymax) / 2) / of_nat h"
    "bw = (xmax - xmin) / of_nat w" "bh = (ymax - ymin) / of_nat h" "0 < bw" "0 < bh"
    by (auto simp: bbox_to_yolo_values_def Let_def xmin_def xmax_def ymin_def ymax_def split: if_splits)
  have wp: "(0::rat) < of_nat w" "(0::rat) < of_nat h" using assms by simp_all
  have "0 \<le> xc" "0 \<le> yc" unfolding v using bx byy by simp_all
  moreover have "xc \<le> 1" unfolding v using bx wp by (simp add: pos_divide_le_eq)
  moreover have "yc \<le> 1" unfolding v using byy wp by (simp add: pos_divide_le_eq)
  moreover have "bw \<le> 1" unfolding v using bx wp by (simp add: pos_divide_le_eq)
  moreover have "bh \<le> 1" unfolding v using byy wp by (simp add: pos_divide_le_eq)
  ultimately show ?thesis using v(5,6) by simp
qed

lemma outside_rejected:
  assumes "0 < w" "0 < h" "x1 \<le> 0 \<or> of_nat w \<le> x0 \<or> y1 \<le> 0 \<or> of_nat h \<le> y0"
  shows "bbox_to_yolo_values (Fin x0, Fin y0, Fin x1, Fin y1) w h = Inr None"
proof -
  have wp: "(0::rat) < of_nat w" "(0::rat) < of_nat h" using assms by simp_all
  have "clamp_coord (Fin x1) w - clamp_coord (Fin x0) w \<le> 0
      \<or> clamp_coord (Fin y1) h - clamp_coord (Fin y0) h \<le> 0"
    using assms(3) wp by (auto simp: clamp_coord_def max_def min_def)
  then have "(clamp_coord (Fin x1) w - clamp_coord (Fin x0) w) / of_nat w \<le> 0
     \<or> (clamp_coord (Fin y1) h - clamp_coord (Fin y0) h) / of_nat h \<le> 0"
    using wp by (auto simp: divide_le_0_iff)
  then show ?thesis using assms(1,2)
    by (auto simp: bbox_to_yolo_values_def Let_def)
qed



lemma yolo_format_values:
  "bbox_to_yolo_format b w h = Inr (Some line) \<longleftrightarrow>
     (\<exists>v. bbox_to_yolo_values b w h = Inr (Some v) \<and> line = yolo_text v)"
  by (auto simp: bbox_to_yolo_format_def split: sum.splits option.splits)

lemma round6_range: "0 \<le> x \<Longrightarrow> x \<le> 1 \<Longrightarrow> 0 \<le> round6 x \<and> round6 x \<le> 1"
  using micro_range[of x] by (simp add: round6_def)

lemma show_nat_0: "show_nat 0 = ''0''"
  by (simp add: show_nat.simps digit_char_def)

lemma fmt6_example: "fmt6 (25 / 128) = ''0.195312''"
proof -
  have fl: "\<lfloor>(390625 / 2 :: rat)\<rfloor> = 195312" by (simp add: floor_eq_iff)
  have m: "micro (25 / 128) = 195312"
    by (simp add: micro_def round_half_even_def Let_def fl)
  have s: "show_nat 195312 = ''195312''"
    by (simp add: show_nat.simps digit_char_def)
  show ?thesis by (simp add: fmt6_def show_micro_def frac6_def m s show_nat_0)
qed

lemma example_box_values:
  "bbox_to_yolo_values (Fin 100, Fin 100, Fin 300, Fin 300) 1024 1024
     = Inr (Some (25 / 128, 25 / 128, 25 / 128, 25 / 128))"
  by (simp add: bbox_to_yolo_values_def clamp_coord_def Let_def)

lemma example_box_text:
  "bbox_to_yolo_format (Fin 100, Fin 100, Fin 300, Fin 300) 1024 1024
     = Inr (Some ''0.195312 0.195312 0.195312 0.195312'')"
  by (simp add: bbox_to_yolo_format_def example_box_values yolo_text_def fmt6_example)

subsection \<open>Reading the printed values back\<close>

lemma digit_cases: "d < 10 \<Longrightarrow> d \<in> {0, 1, 2, 3, 4, 5, 6, 7, 8, 9 :: nat}"
  by auto

lemma digit_val_char: "d < 10 \<Longrightarrow> digit_val (digit_char d) = Some d"
  using digit_cases[of d] by (auto simp: digit_val_def digit_char_def)

lemma digit_not_special:
  assumes "digit_val c = Some d"
  shows "c \<noteq> CHR ''.''" "\<not> is_exp_mark c" "\<not> is_space c" "c \<noteq> CHR ''-''" "c \<noteq> CHR ''+''" "c \<noteq> CHR '' ''"
    "c \<noteq> CHR ''_''" "c \<noteq> CHR ''i''" "c \<noteq> CHR ''n''"
  using assms by (auto simp: digit_val_def is_exp_mark_def is_space_def)

lemma lower_char_digits:
  "lower_char CHR ''0'' = CHR ''0''" "lower_char CHR ''1'' = CHR ''1''" "lower_char CHR ''2'' = CHR ''2''"
  "lower_char CHR ''3'' = CHR ''3''" "lower_char CHR ''4'' = CHR ''4''" "lower_char CHR ''5'' = CHR ''5''"
  "lower_char CHR ''6'' = CHR ''6''" "lower_char CHR ''7'' = CHR ''7''" "lower_char CHR ''8'' = CHR ''8''"
  "lower_char CHR ''9'' = CHR ''9''"
  by (simp_all add: lower_char_def)

lemma digit_lower:
  assumes "digit_val c = Some d"
  shows "lower_char c = c"
proof -
  from assms have "c \<in> set ''0123456789''"
    by (auto simp: digit_val_def split: if_splits)
  then have "c = CHR ''0'' \<or> c = CHR ''1'' \<or> c = CHR ''2'' \<or> c = CHR ''3'' \<or> c = CHR ''4''
      \<or> c = CHR ''5'' \<or> c = CHR ''6'' \<or> c = CHR ''7'' \<or> c = CHR ''8'' \<or> c = CHR ''9''"
    by simp
  then show ?thesis by (elim disjE) (simp_all only: lower_char_digits)
qed

lemma drop_underscores_plain:
  "CHR ''_'' \<notin> set s \<Longrightarrow> prev \<noteq> CHR ''_'' \<Longrightarrow> drop_underscores prev s = Some s"
  by (induction s arbitrary: prev) auto

lemma digit_first_no_word:
  assumes "s \<noteq> []" "digit_val (hd s) = Some d"
  shows "map lower_char s \<noteq> ''inf''" "map lower_char s \<noteq> ''infinity''" "map lower_char s \<noteq> ''nan''"
proof -
  obtain c r where s: "s = c # r" using assms(1) by (cases s) auto
  have c: "lower_char c = c" "c \<noteq> CHR ''i''" "c \<noteq> CHR ''n''"
    using assms(2) digit_lower[of c d] digit_not_special(8,9)[of c d] by (simp_all add: s)
  show "map lower_char s \<noteq> ''inf''" "map lower_char s \<noteq> ''infinity''" "map lower_char s \<noteq> ''nan''"
    using c by (simp_all add: s)
qed

lemma show_nat_digits: "c \<in> set (show_nat n) \<Longrightarrow> \<exists>d. digit_val c = Some d"
proof (induction n arbitrary: c rule: show_nat.induct)
  case (1 n)
  show ?case
  proof (cases "n < 10")
    case True
    with "1.prems" show ?thesis by (simp add: show_nat.simps[of n] digit_val_char)
  next
    case False
    with "1.prems" have "c \<in> set (show_nat (n div 10)) \<or> c = digit_char (n mod 10)"
      by (auto simp: show_nat.simps[of n])
    then show ?thesis
      using "1.IH"[OF False] digit_val_char[of "n mod 10"] by auto
  qed
qed

lemma show_nat_nonempty: "show_nat n \<noteq> []"
  by (subst show_nat.simps) simp

lemma digits_val_append:
  "digits_val acc (xs @ ys) = (case digits_val acc xs of None \<Rightarrow> None | Some a \<Rightarrow> digits_val a ys)"
  by (induction xs arbitrary: acc) (auto split: option.splits)

lemma digits_val_show_nat: "digits_val acc (show_nat n) = Some (acc * 10 ^ length (show_nat n) + n)"
proof (induction n arbitrary: acc rule: show_nat.induct)
  case (1 n)
  show ?case
  proof (cases "n < 10")
    case True
    then show ?thesis by (simp add: show_nat.simps[of n] digit_val_char)
  next
    case False
    have "10 * (n div 10) + n mod 10 = n" by simp
    then have e: "10 * (acc * 10 ^ length (show_nat (n div 10)) + n div 10) + n mod 10
        = acc * 10 ^ Suc (length (show_nat (n div 10))) + n"
      by (simp add: algebra_simps)
    show ?thesis
      using False "1.IH"[OF False, of acc] e
      by (simp add: show_nat.simps[of n] digits_val_append digit_val_char)
  qed
qed

lemma length_show_nat: "n < 10 ^ k \<Longrightarrow> 0 < k \<Longrightarrow> length (show_nat n) \<le> k"
proof (induction n arbitrary: k rule: show_nat.induct)
  case (1 n)
  show ?case
  proof (cases "n < 10")
    case True
    with "1.prems" show ?thesis by (simp add: show_nat.simps[of n])
  next
    case False
    obtain j where k: "k = Suc j" using "1.prems"(2) by (cases k) auto
    have j0: "0 < j"
    proof (rule ccontr)
      assume "\<not> 0 < j"
      then have "k = 1" using k by simp
      with "1.prems"(1) False show False by simp
    qed
    have "n div 10 < 10 ^ j" using "1.prems"(1) k by (simp add: less_mult_imp_div_less mult.commute)
    from "1.IH"[OF False this j0] show ?thesis
      using False k by (simp add: show_nat.simps[of n])
  qed
qed

lemma digits_val_zeros: "digits_val acc (replicate k CHR ''0'') = Some (acc * 10 ^ k)"
  by (induction k arbitrary: acc) (simp_all add: digit_val_def)


lemma takeWhile_all: "\<forall>x \<in> set xs. P x \<Longrightarrow> takeWhile P (xs @ ys) = xs @ takeWhile P ys"
  by (induction xs) auto

lemma dropWhile_all: "\<forall>x \<in> set xs. P x \<Longrightarrow> dropWhile P (xs @ ys) = dropWhile P ys"
  by (induction xs) auto

lemma dropWhile_keep: "xs \<noteq> [] \<Longrightarrow> \<not> P (hd xs) \<Longrightarrow> dropWhile P xs = xs"
  by (cases xs) auto

lemma strip_clean:
  assumes "s \<noteq> []" "\<not> is_space (hd s)" "\<not> is_space (last s)"
  shows "strip s = s"
proof -
  have 1: "dropWhile is_space s = s" using assms(1,2) by (rule dropWhile_keep)
  have "rev s \<noteq> []" "\<not> is_space (hd (rev s))" using assms(1,3) by (simp_all add: hd_rev)
  then have 2: "dropWhile is_space (rev s) = rev s" by (rule dropWhile_keep)
  show ?thesis by (simp add: strip_def 1 2)
qed

lemma show_micro_parts: "show_micro q = show_nat (q div 1000000) @ CHR ''.'' # frac6 (q mod 1000000)"
  by (simp add: show_micro_def)

lemma frac6_digits: "c \<in> set (frac6 r) \<Longrightarrow> \<exists>d. digit_val c = Some d"
proof -
  assume "c \<in> set (frac6 r)"
  then have "c = CHR ''0'' \<or> c \<in> set (show_nat r)" by (auto simp: frac6_def)
  moreover have "digit_val CHR ''0'' = Some 0" by (simp add: digit_val_def)
  ultimately show ?thesis using show_nat_digits[of c r] by auto
qed

lemma frac6_length: "r < 1000000 \<Longrightarrow> length (frac6 r) = 6"
  using length_show_nat[of r 6] by (simp add: frac6_def)

lemma frac6_value: "digits_val 0 (frac6 r) = Some r"
  by (simp add: frac6_def digits_val_append digits_val_zeros digits_val_show_nat)

lemma show_micro_chars:
  "c \<in> set (show_micro q) \<Longrightarrow> c = CHR ''.'' \<or> (\<exists>d. digit_val c = Some d)"
  using show_nat_digits frac6_digits by (auto simp: show_micro_parts)

lemma show_micro_no_blank: "CHR '' '' \<notin> set (show_micro q)"
  using show_micro_chars[of "CHR '' ''" q] digit_not_special(6) by auto

lemma parse_decimal_show_micro: "parse_decimal (show_micro q) = Some (of_nat q / 1000000)"
proof -
  define ip where "ip = show_nat (q div 1000000)"
  define fp where "fp = frac6 (q mod 1000000)"
  have nd: "\<forall>c \<in> set ip. c \<noteq> CHR ''.''"
    using show_nat_digits digit_not_special(1) unfolding ip_def by blast
  have tw: "takeWhile (\<lambda>c. c \<noteq> CHR ''.'') (ip @ CHR ''.'' # fp) = ip"
    using takeWhile_all[OF nd, of "CHR ''.'' # fp"] by simp
  have dw: "dropWhile (\<lambda>c. c \<noteq> CHR ''.'') (ip @ CHR ''.'' # fp) = CHR ''.'' # fp"
    using dropWhile_all[OF nd, of "CHR ''.'' # fp"] by simp
  have ipn: "ip \<noteq> []" by (simp add: ip_def show_nat_nonempty)
  have iv: "digits_val 0 ip = Some (q div 1000000)" by (simp add: ip_def digits_val_show_nat)
  have fv: "digits_val 0 fp = Some (q mod 1000000)" by (simp add: fp_def frac6_value)
  have fl: "length fp = 6" by (simp add: fp_def frac6_length)
  have "(of_nat (q div 1000000) :: rat) + of_nat (q mod 1000000) / 1000000 = of_nat q / 1000000"
  proof -
    have "q = (q div 1000000) * 1000000 + q mod 1000000" by simp
    then have "(of_nat q :: rat) = of_nat (q div 1000000) * 1000000 + of_nat (q mod 1000000)"
      by (metis of_nat_add of_nat_mult of_nat_numeral)
    then show ?thesis by (simp add: field_simps)
  qed
  then show ?thesis
    unfolding show_micro_parts ip_def[symmetric] fp_def[symmetric]
    by (simp add: parse_decimal_def tw dw ipn iv fv fl Let_def)
qed

lemma py_float_show_micro: "py_float (show_micro q) = Some (Fin (of_nat q / 1000000))"
proof -
  have ne: "show_micro q \<noteq> []" by (simp add: show_micro_parts)
  have "CHR ''_'' \<notin> set (show_micro q)"
    using show_micro_chars[of "CHR ''_''" q] digit_not_special(7) by auto
  then have du: "drop_underscores (CHR 0x00) (show_micro q) = Some (show_micro q)"
    by (rule drop_underscores_plain) simp
  have hd: "hd (show_micro q) \<in> set (show_nat (q div 1000000))"
    by (simp add: show_micro_parts show_nat_nonempty)
  have "frac6 (q mod 1000000) \<noteq> []" using frac6_length[of "q mod 1000000"] by auto
  then have la: "last (show_micro q) \<in> set (frac6 (q mod 1000000))"
    by (simp add: show_micro_parts)
  from hd obtain d where d: "digit_val (hd (show_micro q)) = Some d" using show_nat_digits by blast
  from la obtain e where e: "digit_val (last (show_micro q)) = Some e" using frac6_digits by blast
  have st: "strip (show_micro q) = show_micro q"
    by (rule strip_clean[OF ne digit_not_special(3)[OF d] digit_not_special(3)[OF e]])
  have sg: "split_sign (show_micro q) = (False, show_micro q)"
    using ne digit_not_special(4,5)[OF d] by (cases "show_micro q") (auto simp: split_sign_def)
  have nx: "\<forall>c \<in> set (show_micro q). \<not> is_exp_mark c"
    using show_micro_chars digit_not_special(2) by (auto simp: is_exp_mark_def)
  have tw: "takeWhile (\<lambda>c. \<not> is_exp_mark c) (show_micro q) = show_micro q"
    using nx by (simp add: takeWhile_eq_all_conv)
  have dw: "dropWhile (\<lambda>c. \<not> is_exp_mark c) (show_micro q) = []"
    using nx by simp
  note nw = digit_first_no_word[OF ne d]
  show ?thesis
    by (simp add: py_float_def du st sg nw parse_unsigned_float_def tw dw Let_def parse_decimal_show_micro)
qed

lemma micro_nonneg: "0 \<le> x \<Longrightarrow> 0 \<le> micro x"
proof -
  assume "0 \<le> x"
  then have "0 \<le> \<lfloor>x * 1000000\<rfloor>" by simp
  then show ?thesis by (simp add: micro_def round_half_even_def Let_def)
qed

lemma read_fmt6: "0 \<le> x \<Longrightarrow> py_float (fmt6 x) = Some (Fin (round6 x))"
  using micro_nonneg[of x] by (simp add: fmt6_def py_float_show_micro round6_def)

lemma fmt6_no_blank: "0 \<le> x \<Longrightarrow> CHR '' '' \<notin> set (fmt6 x)"
  by (simp add: fmt6_def show_micro_no_blank)

lemma split_on_field: "c \<notin> set a \<Longrightarrow> split_on c (a @ c # rest) = a # split_on c rest"
  by (induction a) auto

lemma split_on_last: "c \<notin> set a \<Longrightarrow> split_on c a = [a]"
  by (induction a) auto

lemma read_yolo_text:
  assumes "0 \<le> xc" "0 \<le> yc" "0 \<le> bw" "0 \<le> bh"
  shows "map py_float (split_on CHR '' '' (yolo_text (xc, yc, bw, bh)))
           = [Some (Fin (round6 xc)), Some (Fin (round6 yc)), Some (Fin (round6 bw)), Some (Fin (round6 bh))]"
proof -
  have "split_on CHR '' '' (yolo_text (xc, yc, bw, bh)) = [fmt6 xc, fmt6 yc, fmt6 bw, fmt6 bh]"
    using assms by (simp add: yolo_text_def split_on_field split_on_last fmt6_no_blank)
  then show ?thesis using assms by (simp add: read_fmt6)
qed

text \<open>
  \<open>fmt6\<close> prints the value it is given. The quotient \<open>1/640\<close> lies midway between
  two six-decimal numbers and prints as \<^verbatim>\<open>0.001562\<close>; the double nearest to it, which
  is what Python's division \<^verbatim>\<open>1.0 / 640\<close> yields, lies above it and prints as
  \<^verbatim>\<open>0.001563\<close>. Where a quotient of the normalizer is no double, the last digit that
  Python prints can differ in this way from the one printed here; the statements below
  are about ranges and distances, which this does not affect, and about the text of
  boxes whose values are dyadic, where no operation is rounded.
\<close>

lemma fl_1_640: "fl (1 / 640) = 3602879701896397 / 2305843009213693952"
  using fl_value[of 62 "1 / 640" "7205759403792794"] by simp

lemma printed_midpoint:
  "fmt6 (1 / 640) = ''0.001562''" "fmt6 (fl (1 / 640)) = ''0.001563''"
proof -
  have f: "\<lfloor>(3125 / 2 :: rat)\<rfloor> = 1562" "\<lfloor>(56294995342131203125 / 36028797018963968 :: rat)\<rfloor> = 1562"
    by (simp_all add: floor_eq_iff)
  have m: "micro (1 / 640) = 1562" "micro (3602879701896397 / 2305843009213693952) = 1563"
    by (simp_all add: micro_def round_half_even_def Let_def f)
  have s: "show_nat 1562 = ''1562''" "show_nat 1563 = ''1563''"
    by (simp_all add: show_nat.simps digit_char_def)
  have r: "replicate 2 CHR ''0'' = ''00''" by (simp add: numeral_eq_Suc)
  show "fmt6 (1 / 640) = ''0.001562''" "fmt6 (fl (1 / 640)) = ''0.001563''"
    unfolding fl_1_640 by (simp_all add: fmt6_def show_micro_def frac6_def m s r show_nat_0)
qed

lemma thin_box_values:
  "bbox_to_yolo_values thin_box 1024 1024
     = Inr (Some (209715201 / 2147483648, 25 / 128, 1 / 1073741824, 25 / 128))"
  by (simp add: thin_box_def bbox_to_yolo_values_def clamp_coord_def Let_def)

lemma micro_thin:
  "micro (209715201 / 2147483648) = 97656" "micro (1 / 1073741824) = 0" "micro (25 / 128) = 195312"
proof -
  have f: "\<lfloor>(3276800015625 / 33554432 :: rat)\<rfloor> = 97656" "\<lfloor>(15625 / 16777216 :: rat)\<rfloor> = 0"
    "\<lfloor>(390625 / 2 :: rat)\<rfloor> = 195312"
    by (simp_all add: floor_eq_iff)
  show "micro (209715201 / 2147483648) = 97656" "micro (1 / 1073741824) = 0" "micro (25 / 128) = 195312"
    by (simp_all add: micro_def round_half_even_def Let_def f)
qed

lemma fmt6_thin:
  "fmt6 (209715201 / 2147483648) = ''0.097656''" "fmt6 (1 / 1073741824) = ''0.000000''"
proof -
  have s: "show_nat 97656 = ''97656''"
    by (simp add: show_nat.simps digit_char_def)
  have r: "replicate 5 CHR ''0'' = ''00000''"
    by (simp add: numeral_eq_Suc)
  show "fmt6 (209715201 / 2147483648) = ''0.097656''" "fmt6 (1 / 1073741824) = ''0.000000''"
    by (simp_all add: fmt6_def show_micro_def frac6_def micro_thin s show_nat_0 r)
qed

lemma thin_box_text:
  "bbox_to_yolo_format thin_box 1024 1024 = Inr (Some ''0.097656 0.195312 0.000000 0.195312'')"
  by (simp add: bbox_to_yolo_format_def thin_box_values yolo_text_def fmt6_thin fmt6_example)

text \<open>
  C6 (amended). Given a pixel box and positive image width and height, every box the
  normalizer emits has centre, width and height in \<open>[0,1]\<close> with width and height
  positive as computed, before they are printed; the four printed fields are these values
  rounded to six decimals (each within half a millionth of its value), they lie in
  \<open>[0,1]\<close>, and a printed width or height can be \<open>0.000000\<close>; a pixel box that lies
  entirely outside \<open>[0,width] \<times> [0,height]\<close> is rejected: no line comes out.
\<close>

theorem C6_normalized_box_in_unit_range:
  assumes "0 < w" and "0 < h"
  shows "(\<forall>line. bbox_to_yolo_format b w h = Inr (Some line) \<longrightarrow>
            (\<exists>xc yc bw bh pxc pyc pbw pbh.
               bbox_to_yolo_values b w h = Inr (Some (xc, yc, bw, bh)) \<and>
               0 \<le> xc \<and> xc \<le> 1 \<and> 0 \<le> yc \<and> yc \<le> 1 \<and>
               0 < bw \<and> bw \<le> 1 \<and> 0 < bh \<and> bh \<le> 1 \<and>
               map py_float (split_on CHR '' '' line)
                 = [Some (Fin pxc), Some (Fin pyc), Some (Fin pbw), Some (Fin pbh)] \<and>
               0 \<le> pxc \<and> pxc \<le> 1 \<and> 0 \<le> pyc \<and> pyc \<le> 1 \<and>
               0 \<le> pbw \<and> pbw \<le> 1 \<and> 0 \<le> pbh \<and> pbh \<le> 1 \<and>
               \<bar>pxc - xc\<bar> \<le> 1 / 2000000 \<and> \<bar>pyc - yc\<bar> \<le> 1 / 2000000 \<and>
               \<bar>pbw - bw\<bar> \<le> 1 / 2000000 \<and> \<bar>pbh - bh\<bar> \<le> 1 / 2000000))
       \<and> (x1 \<le> 0 \<or> of_nat w \<le> x0 \<or> y1 \<le> 0 \<or> of_nat h \<le> y0
            \<longrightarrow> bbox_to_yolo_format (Fin x0, Fin y0, Fin x1, Fin y1) w h = Inr None)"
proof (intro conjI allI impI)
  fix line
  assume "bbox_to_yolo_format b w h = Inr (Some line)"
  then obtain v where v: "bbox_to_yolo_values b w h = Inr (Some v)" and l: "line = yolo_text v"
    unfolding yolo_format_values by blast
  obtain xc yc bw bh where vv: "v = (xc, yc, bw, bh)" by (cases v) auto
  have r: "0 \<le> xc" "xc \<le> 1" "0 \<le> yc" "yc \<le> 1" "0 < bw" "bw \<le> 1" "0 < bh" "bh \<le> 1"
    using yolo_values_range[OF assms] v vv by simp_all
  have r6: "0 \<le> round6 xc" "round6 xc \<le> 1" "0 \<le> round6 yc" "round6 yc \<le> 1"
    "0 \<le> round6 bw" "round6 bw \<le> 1" "0 \<le> round6 bh" "round6 bh \<le> 1"
    using r by (simp_all add: round6_range)
  have t: "map py_float (split_on CHR '' '' line)
      = [Some (Fin (round6 xc)), Some (Fin (round6 yc)), Some (Fin (round6 bw)), Some (Fin (round6 bh))]"
    using r by (simp add: l vv read_yolo_text)
  have v': "bbox_to_yolo_values b w h = Inr (Some (xc, yc, bw, bh))" using v vv by simp
  note e = round6_error[of xc] round6_error[of yc] round6_error[of bw] round6_error[of bh]
  show "\<exists>xc yc bw bh pxc pyc pbw pbh.
               bbox_to_yolo_values b w h = Inr (Some (xc, yc, bw, bh)) \<and>
               0 \<le> xc \<and> xc \<le> 1 \<and> 0 \<le> yc \<and> yc \<le> 1 \<and>
               0 < bw \<and> bw \<le> 1 \<and> 0 < bh \<and> bh \<le> 1 \<and>
               map py_float (split_on CHR '' '' line)
                 = [Some (Fin pxc), Some (Fin pyc), Some (Fin pbw), Some (Fin pbh)] \<and>
               0 \<le> pxc \<and> pxc \<le> 1 \<and> 0 \<le> pyc \<and> pyc \<le> 1 \<and>
               0 \<le> pbw \<and> pbw \<le> 1 \<and> 0 \<le> pbh \<and> pbh \<le> 1 \<and>
               \<bar>pxc - xc\<bar> \<le> 1 / 2000000 \<and> \<bar>pyc - yc\<bar> \<le> 1 / 2000000 \<and>
               \<bar>pbw - bw\<bar> \<le> 1 / 2000000 \<and> \<bar>pbh - bh\<bar> \<le> 1 / 2000000"
    by (intro exI conjI) (rule v' t r r6 e)+
next
  assume "x1 \<le> 0 \<or> of_nat w \<le> x0 \<or> y1 \<le> 0 \<or> of_nat h \<le> y0"
  from outside_rejected[OF assms this]
  show "bbox_to_yolo_format (Fin x0, Fin y0, Fin x1, Fin y1) w h = Inr None"
    by (simp add: bbox_to_yolo_format_def)
qed

theorem C6_witness:
  "(0::nat) < 1024
   \<and> bbox_to_yolo_format (Fin 100, Fin 100, Fin 300, Fin 300) 1024 1024
       = Inr (Some ''0.195312 0.195312 0.195312 0.195312'')
   \<and> (\<exists>xc yc bw bh pxc pyc pbw pbh.
         bbox_to_yolo_values (Fin 100, Fin 100, Fin 300, Fin 300) 1024 1024 = Inr (Some (xc, yc, bw, bh)) \<and>
         0 \<le> xc \<and> xc \<le> 1 \<and> 0 \<le> yc \<and> yc \<le> 1 \<and>
         0 < bw \<and> bw \<le> 1 \<and> 0 < bh \<and> bh \<le> 1 \<and>
         map py_float (split_on CHR '' '' ''0.195312 0.195312 0.195312 0.195312'')
           = [Some (Fin pxc), Some (Fin pyc), Some (Fin pbw), Some (Fin pbh)] \<and>
         0 \<le> pxc \<and> pxc \<le> 1 \<and> 0 \<le> pyc \<and> pyc \<le> 1 \<and>
         0 \<le> pbw \<and> pbw \<le> 1 \<and> 0 \<le> pbh \<and> pbh \<le> 1 \<and>
         \<bar>pxc - xc\<bar> \<le> 1 / 2000000 \<and> \<bar>pyc - yc\<bar> \<le> 1 / 2000000 \<and>
         \<bar>pbw - bw\<bar> \<le> 1 / 2000000 \<and> \<bar>pbh - bh\<bar> \<le> 1 / 2000000)
   \<and> of_nat 1024 \<le> (2000::rat)
   \<and> bbox_to_yolo_format (Fin 2000, Fin 100, Fin 2300, Fin 300) 1024 1024 = Inr None"
proof -
  have p: "(0::nat) < 1024" by simp
  note c6 = C6_normalized_box_in_unit_range[OF p p]
  note a = conjunct1[OF c6[of "(Fin 100, Fin 100, Fin 300, Fin 300)" 0 0 0 0], rule_format, OF example_box_text]
  have o: "of_nat 1024 \<le> (2000::rat)" by simp
  have b: "bbox_to_yolo_format (Fin 2000, Fin 100, Fin 2300, Fin 300) 1024 1024 = Inr None"
    using conjunct2[OF c6[of "(Fin 100, Fin 100, Fin 300, Fin 300)" 2300 2000 300 100]] by simp
  show ?thesis
    by (intro conjI) (rule p example_box_text a o b)+
qed

text \<open>
  The claim as stated fails: the box \<^verbatim>\<open>(100, 100, 100.00000095367431640625, 300)\<close> on
  an image of 1024 by 1024 pixels is accepted, its width being positive, and the line
  that is emitted gives the width as \<^verbatim>\<open>0.000000\<close>, which reads back as 0: the emitted
  width is not greater than 0.
\<close>

theorem C6_counterexample:
  "bbox_to_yolo_format thin_box 1024 1024 = Inr (Some ''0.097656 0.195312 0.000000 0.195312'')
   \<and> map py_float (split_on CHR '' '' ''0.097656 0.195312 0.000000 0.195312'') ! 2 = Some (Fin 0)"
proof -
  have "map py_float (split_on CHR '' '' (yolo_text (209715201 / 2147483648, 25 / 128, 1 / 1073741824, 25 / 128)))
      = [Some (Fin (round6 (209715201 / 2147483648))), Some (Fin (round6 (25 / 128))),
         Some (Fin (round6 (1 / 1073741824))), Some (Fin (round6 (25 / 128)))]"
    by (rule read_yolo_text) simp_all
  then have "map py_float (split_on CHR '' '' ''0.097656 0.195312 0.000000 0.195312'') ! 2 = Some (Fin 0)"
    by (simp add: yolo_text_def fmt6_thin fmt6_example round6_def micro_thin)
  then show ?thesis using thin_box_text by simp
qed



section \<open>The conversion pipeline\<close>

lemma show_nat_digit: "n < 10 \<Longrightarrow> show_nat n = [digit_char n]"
  by (simp add: show_nat.simps)

lemma show_nat_2: "show_nat 2 = ''2''"
  by (simp add: show_nat.simps digit_char_def)

lemma default_class_map: "load_class_mapping default_class_dict = Inr example_class_map"
  by (simp add: example_class_map_def load_class_mapping_def sorted_items_def default_class_dict_def
        key_int_def py_int_def)

lemma example_class_13: "example_class_map 13 = Some 2"
  by (simp add: example_class_map_def load_class_mapping_def sorted_items_def default_class_dict_def
        key_int_def py_int_def)

lemma example_class_99: "example_class_map 99 = None"
  by (simp add: example_class_map_def load_class_mapping_def sorted_items_def default_class_dict_def
        key_int_def py_int_def)

text \<open>Keys that the configuration quotes are sorted as texts: \<^verbatim>\<open>'10'\<close> comes before
  \<^verbatim>\<open>'9'\<close>, and class 10 gets the index 0.\<close>

lemma quoted_keys_sorted_as_text:
  "load_class_mapping [(KStr ''9'', ''a''), (KStr ''10'', ''b'')] = Inr [10 \<mapsto> 0, 9 \<mapsto> Suc 0]"
  "load_class_mapping [(KInt 9, ''a''), (KInt 10, ''b'')] = Inr [9 \<mapsto> 0, 10 \<mapsto> Suc 0]"
  "load_class_mapping [(KInt 9, ''a''), (KStr ''10'', ''b'')] = Inl TypeError"
  by (simp_all add: load_class_mapping_def sorted_items_def key_int_def key_str_def py_int_def
        strip_def is_space_def split_sign_def parse_nat_def digit_val_def is_digit_def)

lemma strip_digits: "strip ''100'' = ''100''" "strip ''300'' = ''300''" "strip ''2000'' = ''2000''" "strip ''2300'' = ''2300''" "strip ''abc'' = ''abc''"
  by (simp_all add: strip_def is_space_def)

lemma py_float_examples:
  "py_float ''100'' = Some (Fin 100)" "py_float ''300'' = Some (Fin 300)"
  "py_float ''2000'' = Some (Fin 2000)" "py_float ''2300'' = Some (Fin 2300)"
  "py_float ''abc'' = None"
  by (simp_all add: py_float_def strip_digits split_sign_def parse_unsigned_float_def is_exp_mark_def
       parse_decimal_def parse_nat_def digit_val_def is_digit_def lower_char_def Let_def)

text \<open>Texts that \<^verbatim>\<open>float\<close> and \<^verbatim>\<open>int\<close> read although they are no plain decimal
  numbers, and texts with misplaced underscores, which they refuse.\<close>

lemma py_float_words:
  "py_float ''inf'' = Some PosInf" "py_float ''-Infinity'' = Some NegInf" "py_float ''NaN'' = Some NaN"
  "py_float '' 1_0.5 '' = Some (Fin (21 / 2))" "py_float ''1e3'' = Some (Fin 1000)"
  "py_float ''1_'' = None" "py_float ''_1'' = None" "py_float ''1__0'' = None" "py_float ''1_.5'' = None"
  "py_float ''in_f'' = None"
  by (simp_all add: py_float_def strip_def is_space_def split_sign_def parse_unsigned_float_def is_exp_mark_def
       parse_decimal_def parse_nat_def digit_val_def is_digit_def lower_char_def Let_def)

lemma py_int_words:
  "py_int (PStr '' 1_3 '') = Inr 13" "py_int (PStr ''-7'') = Inr (- 7)" "py_int (PStr ''13.0'') = Inl ValueError"
  "py_int (PStr ''_13'') = Inl ValueError"
  by (simp_all add: py_int_def strip_def is_space_def split_sign_def parse_nat_def digit_val_def is_digit_def)

lemma split_examples:
  "split_on CHR '','' ''100,100,300,300'' = [''100'', ''100'', ''300'', ''300'']"
  "split_on CHR '','' ''2000,100,2300,300'' = [''2000'', ''100'', ''2300'', ''300'']"
  "split_on CHR '','' ''abc'' = [''abc'']"
  by simp_all

lemma resolve_examples:
  "resolve_bbox ann_box = Inr (Some (Fin 100, Fin 100, Fin 300, Fin 300))"
  "resolve_bbox ann_unknown_class = Inr (Some (Fin 100, Fin 100, Fin 300, Fin 300))"
  "resolve_bbox ann_on_a_jpg = Inr (Some (Fin 100, Fin 100, Fin 300, Fin 300))"
  "resolve_bbox ann_outside = Inr (Some (Fin 2000, Fin 100, Fin 2300, Fin 300))"
  "resolve_bbox ann_text_bounds = Inl ValueError"
  "resolve_bbox ann_unknown_class_text = Inl ValueError"
  "resolve_bbox ann_missing_bounds = Inr None"
  by (simp_all add: resolve_bbox_def ann_box_def ann_unknown_class_def ann_on_a_jpg_def ann_outside_def
        ann_text_bounds_def ann_unknown_class_text_def ann_missing_bounds_def plain_ann_def py_str_def
        split_examples strip_digits py_float_examples Let_def)

lemma class_examples:
  "get_class_type ann_box = Inr (Some 13)"
  "get_class_type ann_unknown_class = Inr (Some 99)"
  "get_class_type ann_unknown_class_text = Inr (Some 99)"
  "get_class_type ann_on_a_jpg = Inr (Some 13)"
  "get_class_type ann_outside = Inr (Some 13)"
  "get_class_type ann_text_bounds = Inr (Some 13)"
  "get_class_type ann_missing_bounds = Inr (Some 13)"
  "get_class_type ann_polygon = Inr (Some 13)"
  by (simp_all add: get_class_type_def int_field_def py_int_def ann_box_def ann_unknown_class_def
        ann_unknown_class_text_def ann_on_a_jpg_def ann_outside_def
        ann_text_bounds_def ann_missing_bounds_def ann_polygon_def plain_ann_def)

lemma stems: "py_stem ''100.tif'' = ''100''" "py_stem ''a.jpg'' = ''a''" "py_stem ''a.png'' = ''a''"
  by (simp_all add: py_stem_def Let_def)

lemma polygon_example: "resolve_bbox ann_polygon = Inr (Some (Fin 10, Fin 20, Fin 30, Fin 40))"
  by (simp add: resolve_bbox_def ann_polygon_def extract_bbox_from_geometry_def square_ring_def py_min_def py_max_def Let_def)


lemma process_annotation_cases:
  "process_annotation class_map w h ann s =
     (case get_class_type ann of
        Inl e \<Rightarrow> count_invalid s
      | Inr None \<Rightarrow> s
      | Inr (Some ct) \<Rightarrow>
          (case class_map ct of
             None \<Rightarrow> s
           | Some k \<Rightarrow>
               (case resolve_bbox ann of
                  Inl e \<Rightarrow> count_invalid s
                | Inr None \<Rightarrow> count_invalid s
                | Inr (Some b) \<Rightarrow>
                    (case bbox_to_yolo_format b w h of
                       Inl e \<Rightarrow> count_invalid s
                     | Inr None \<Rightarrow> s
                     | Inr (Some line) \<Rightarrow>
                         if line = [] then s
                         else (fst s @ [show_nat k @ '' '' @ line @ [CHR 0x0A]],
                               fst (snd s) + 1,
                               (snd (snd s))\<lparr>objects_by_class :=
                                  (objects_by_class (snd (snd s)))(ct := objects_by_class (snd (snd s)) ct + 1)\<rparr>)))))"
  by (cases s) (simp add: process_annotation_def try_annotation_def split: sum.splits option.splits)

lemma fst_count_invalid: "fst (count_invalid s) = fst s"
  by (cases s) (simp add: count_invalid_def)

lemma pa_class_error:
  "get_class_type ann = Inl e \<Longrightarrow> process_annotation class_map w h ann s = count_invalid s"
  by (simp add: process_annotation_cases)

lemma pa_no_class:
  "get_class_type ann = Inr None \<Longrightarrow> process_annotation class_map w h ann s = s"
  by (simp add: process_annotation_cases)

lemma pa_unknown_class:
  "get_class_type ann = Inr (Some ct) \<Longrightarrow> class_map ct = None \<Longrightarrow>
     process_annotation class_map w h ann s = s"
  by (simp add: process_annotation_cases)

lemma pa_bbox_error:
  "get_class_type ann = Inr (Some ct) \<Longrightarrow> class_map ct = Some k \<Longrightarrow> resolve_bbox ann = Inl e \<Longrightarrow>
     process_annotation class_map w h ann s = count_invalid s"
  by (simp add: process_annotation_cases)

lemma pa_no_bbox:
  "get_class_type ann = Inr (Some ct) \<Longrightarrow> class_map ct = Some k \<Longrightarrow> resolve_bbox ann = Inr None \<Longrightarrow>
     process_annotation class_map w h ann s = count_invalid s"
  by (simp add: process_annotation_cases)

lemma pa_format_error:
  "get_class_type ann = Inr (Some ct) \<Longrightarrow> class_map ct = Some k \<Longrightarrow> resolve_bbox ann = Inr (Some b) \<Longrightarrow>
     bbox_to_yolo_format b w h = Inl e \<Longrightarrow> process_annotation class_map w h ann s = count_invalid s"
  by (simp add: process_annotation_cases)

lemma pa_rejected:
  "get_class_type ann = Inr (Some ct) \<Longrightarrow> class_map ct = Some k \<Longrightarrow> resolve_bbox ann = Inr (Some b) \<Longrightarrow>
     bbox_to_yolo_format b w h = Inr None \<Longrightarrow> process_annotation class_map w h ann s = s"
  by (simp add: process_annotation_cases)

lemma pa_emitted:
  "get_class_type ann = Inr (Some ct) \<Longrightarrow> class_map ct = Some k \<Longrightarrow> resolve_bbox ann = Inr (Some b) \<Longrightarrow>
     bbox_to_yolo_format b w h = Inr (Some line) \<Longrightarrow> line \<noteq> [] \<Longrightarrow>
     process_annotation class_map w h ann (ls, n, st) =
       (ls @ [show_nat k @ '' '' @ line @ [CHR 0x0A]], n + 1,
        st\<lparr>objects_by_class := (objects_by_class st)(ct := objects_by_class st ct + 1)\<rparr>)"
  by (simp add: process_annotation_cases)

lemma filtered_keeps_lines:
  assumes "\<not> emits_line class_map w h ann"
  shows "fst (process_annotation class_map w h ann s) = fst s"
proof (cases "get_class_type ann")
  case (Inl e)
  then show ?thesis by (simp add: pa_class_error fst_count_invalid)
next
  case (Inr c)
  show ?thesis
  proof (cases c)
    case None
    with Inr show ?thesis by (simp add: pa_no_class)
  next
    case (Some ct)
    note ct = Inr[unfolded Some]
    show ?thesis
    proof (cases "class_map ct")
      case None
      with ct show ?thesis by (simp add: pa_unknown_class)
    next
      case (Some k)
      note k = this
      show ?thesis
      proof (cases "resolve_bbox ann")
        case (Inl e)
        with ct k show ?thesis by (simp add: pa_bbox_error fst_count_invalid)
      next
        case (Inr bo)
        show ?thesis
        proof (cases bo)
          case None
          with ct k Inr show ?thesis by (simp add: pa_no_bbox fst_count_invalid)
        next
          case (Some b)
          note b = Inr[unfolded Some]
          show ?thesis
          proof (cases "bbox_to_yolo_format b w h")
            case (Inl e)
            with ct k b show ?thesis by (simp add: pa_format_error fst_count_invalid)
          next
            case (Inr lo)
            show ?thesis
            proof (cases lo)
              case None
              with ct k b Inr show ?thesis by (simp add: pa_rejected)
            next
              case (Some line)
              with assms ct k b Inr have "line = []" by (simp add: emits_line_def)
              with ct k b Inr Some show ?thesis by (simp add: process_annotation_cases)
            qed
          qed
        qed
      qed
    qed
  qed
qed

lemma filtered_group_keeps_lines:
  "\<forall>ann \<in> set anns. \<not> emits_line class_map w h ann \<Longrightarrow>
     fst (fold (process_annotation class_map w h) anns s) = fst s"
  by (induction anns arbitrary: s) (simp_all add: filtered_keeps_lines)

lemma add_row_nonempty:
  "\<forall>k. m k \<noteq> Some [] \<Longrightarrow> add_row row m k \<noteq> Some []"
  by (auto simp: add_row_def split: option.splits)

lemma fold_add_row_nonempty:
  "\<forall>k. m k \<noteq> Some [] \<Longrightarrow> fold add_row gdf m k \<noteq> Some []"
proof (induction gdf arbitrary: m k)
  case Nil
  then show ?case by simp
next
  case (Cons row gdf)
  have "\<forall>k. add_row row m k \<noteq> Some []" using Cons.prems add_row_nonempty by blast
  then show ?case using Cons.IH by simp
qed

lemma group_nonempty: "group_annotations gdf k \<noteq> Some []"
  unfolding group_annotations_def by (rule fold_add_row_nonempty) simp

lemma lookup_group_empty_iff: "lookup_group (group_annotations gdf) k = [] \<longleftrightarrow> group_annotations gdf k = None"
  using group_nonempty[of gdf k] by (auto simp: lookup_group_def split: option.splits)

lemma image_annotations_empty_iff:
  "image_annotations (group_annotations gdf) name = [] \<longleftrightarrow>
     group_annotations gdf (py_stem name) = None \<and> group_annotations gdf name = None"
  by (auto simp: image_annotations_def Let_def lookup_group_empty_iff)

lemma touch_exists: "touch fs p p \<noteq> None"
  by (simp add: touch_def split: option.splits)

lemma touch_new: "fs p = None \<Longrightarrow> touch fs p p = Some []"
  by (simp add: touch_def)

lemma touch_old: "fs p = Some c \<Longrightarrow> touch fs p = fs"
  by (simp add: touch_def)

lemma touch_other: "q \<noteq> p \<Longrightarrow> touch fs p q = fs q"
  by (simp add: touch_def split: option.splits)

text \<open>
  What one image does to the label directory, for an image that decodes. When no
  annotation group is stored under its stem or under its file name, the label file named
  after its stem exists afterwards, it is empty when no file of that name existed before,
  and no other file is changed. When a group is found but none of its annotations
  survives (unknown class, unresolvable geometry, degenerate box), the label directory is
  left as it was.
\<close>

lemma label_file_of_image:
  assumes "img_shape img = Some (h, w)"
  shows "(group_annotations gdf (py_stem (img_name img)) = None \<and> group_annotations gdf (img_name img) = None
            \<longrightarrow> fst (process_image class_map (group_annotations gdf) img (fs, stats))
                     (label_path (img_name img)) \<noteq> None
                \<and> (fs (label_path (img_name img)) = None
                     \<longrightarrow> fst (process_image class_map (group_annotations gdf) img (fs, stats))
                           (label_path (img_name img)) = Some [])
                \<and> (\<forall>q. q \<noteq> label_path (img_name img)
                     \<longrightarrow> fst (process_image class_map (group_annotations gdf) img (fs, stats)) q = fs q))
       \<and> ((group_annotations gdf (py_stem (img_name img)) \<noteq> None \<or> group_annotations gdf (img_name img) \<noteq> None)
            \<and> (\<forall>ann \<in> set (image_annotations (group_annotations gdf) (img_name img)).
                   \<not> emits_line class_map w h ann)
            \<longrightarrow> fst (process_image class_map (group_annotations gdf) img (fs, stats)) = fs)"
proof (intro conjI impI allI)
  assume n: "group_annotations gdf (py_stem (img_name img)) = None \<and> group_annotations gdf (img_name img) = None"
  then have e: "image_annotations (group_annotations gdf) (img_name img) = []"
    by (simp add: image_annotations_empty_iff)
  have p: "process_image class_map (group_annotations gdf) img (fs, stats)
                   = (touch fs (label_path (img_name img)), stats)"
    by (simp add: process_image_def assms e)
  show "fst (process_image class_map (group_annotations gdf) img (fs, stats)) (label_path (img_name img)) \<noteq> None"
    unfolding p fst_conv by (rule touch_exists)
  {
    assume "fs (label_path (img_name img)) = None"
    then show "fst (process_image class_map (group_annotations gdf) img (fs, stats))
                           (label_path (img_name img)) = Some []"
      unfolding p fst_conv by (rule touch_new)
  }
  {
    fix q
    assume "q \<noteq> label_path (img_name img)"
    then show "fst (process_image class_map (group_annotations gdf) img (fs, stats)) q = fs q"
      unfolding p fst_conv by (rule touch_other)
  }
next
  assume a: "(group_annotations gdf (py_stem (img_name img)) \<noteq> None \<or> group_annotations gdf (img_name img) \<noteq> None)
            \<and> (\<forall>ann \<in> set (image_annotations (group_annotations gdf) (img_name img)).
                   \<not> emits_line class_map w h ann)"
  then have ne: "image_annotations (group_annotations gdf) (img_name img) \<noteq> []"
    by (simp add: image_annotations_empty_iff)
  from a have "fst (fold (process_annotation class_map w h)
                  (image_annotations (group_annotations gdf) (img_name img)) ([], 0, stats)) = []"
    using filtered_group_keeps_lines[of "image_annotations (group_annotations gdf) (img_name img)" class_map w h "([], 0, stats)"]
    by simp
  then obtain n st where "fold (process_annotation class_map w h)
                  (image_annotations (group_annotations gdf) (img_name img)) ([], 0, stats) = ([], n, st)"
    by (metis fst_conv prod_cases3)
  then show "fst (process_image class_map (group_annotations gdf) img (fs, stats)) = fs"
    by (simp add: process_image_def assms ne)
qed



lemma ends_with_examples:
  "ends_with ''.tif'' ''100.tif''" "\<not> ends_with ''.jpg'' ''100.tif''" "\<not> ends_with ''.png'' ''100.tif''"
  "\<not> ends_with ''.tiff'' ''100.tif''"
  "ends_with ''.jpg'' ''a.jpg''" "\<not> ends_with ''.png'' ''a.jpg''" "\<not> ends_with ''.tif'' ''a.jpg''"
  "\<not> ends_with ''.tiff'' ''a.jpg''"
  "ends_with ''.png'' ''a.png''" "\<not> ends_with ''.jpg'' ''a.png''" "\<not> ends_with ''.tif'' ''a.png''"
  "\<not> ends_with ''.tiff'' ''a.png''"
  by (simp_all add: ends_with_def)

lemma glob_examples:
  "glob_images img_name [img_100] = [img_100]"
  "glob_images img_name [img_a_jpg, img_a_png] = [img_a_jpg, img_a_png]"
  "glob_images img_name [\<lparr>img_name = ''100.tif'', img_shape = Some (1024, 1024)\<rparr>]
     = [\<lparr>img_name = ''100.tif'', img_shape = Some (1024, 1024)\<rparr>]"
  by (simp_all add: glob_images_def glob_ext_def img_100_def img_a_jpg_def img_a_png_def ends_with_examples)

lemma group_single:
  "group_annotations [plain_ann key ct bounds geom] = (if key = [] then Map.empty else [key \<mapsto> [plain_ann key ct bounds geom]])"
  by (simp add: group_annotations_def add_row_def row_image_id_def plain_ann_def py_truthy_def py_str_def)

lemma group_nil: "group_annotations [] = Map.empty"
  by (simp add: group_annotations_def)

lemma box_text_nonempty: "''0.195312 0.195312 0.195312 0.195312'' \<noteq> []"
  by simp

lemma outside_box_rejected: "bbox_to_yolo_format (Fin 2000, Fin 100, Fin 2300, Fin 300) 1024 1024 = Inr None"
proof -
  have "bbox_to_yolo_values (Fin 2000, Fin 100, Fin 2300, Fin 300) 1024 1024 = Inr None"
    by (rule outside_rejected) simp_all
  then show ?thesis by (simp add: bbox_to_yolo_format_def)
qed

lemma emits_examples:
  "\<not> emits_line example_class_map 1024 1024 ann_unknown_class"
  "\<not> emits_line example_class_map 1024 1024 ann_outside"
  "\<not> emits_line example_class_map 1024 1024 ann_text_bounds"
  "\<not> emits_line example_class_map 1024 1024 ann_missing_bounds"
  by (simp_all add: emits_line_def class_examples example_class_99 example_class_13 resolve_examples
        outside_box_rejected)

lemma box_annotation_line:
  assumes "class_map ct = Some 2"
  shows "process_annotation class_map 1024 1024 (plain_ann key ct (PStr ''100,100,300,300'') None) ([], 0, stats)
     = ([''2 0.195312 0.195312 0.195312 0.195312'' @ [CHR 0x0A]], 1,
        stats\<lparr>objects_by_class := (objects_by_class stats)(ct := objects_by_class stats ct + 1)\<rparr>)"
proof -
  have c: "get_class_type (plain_ann key ct (PStr ''100,100,300,300'') None) = Inr (Some ct)"
    by (simp add: get_class_type_def int_field_def py_int_def plain_ann_def)
  have r: "resolve_bbox (plain_ann key ct (PStr ''100,100,300,300'') None)
      = Inr (Some (Fin 100, Fin 100, Fin 300, Fin 300))"
    by (simp add: resolve_bbox_def plain_ann_def py_str_def split_examples strip_digits py_float_examples Let_def)
  show ?thesis
    by (simp add: process_annotation_cases c assms r example_box_text show_nat_2)
qed

lemma box_image_label:
  assumes "class_map ct = Some 2" and "key = ''100'' \<or> key = ''100.tif''"
  shows "fst (process_image class_map (group_annotations [plain_ann key ct (PStr ''100,100,300,300'') None])
                img_100 (fs, stats)) ''100.txt''
           = Some (''2 0.195312 0.195312 0.195312 0.195312'' @ [CHR 0x0A])"
proof -
  have a: "image_annotations (group_annotations [plain_ann key ct (PStr ''100,100,300,300'') None]) ''100.tif''
             = [plain_ann key ct (PStr ''100,100,300,300'') None]"
    using assms(2) by (auto simp: image_annotations_def lookup_group_def group_single stems Let_def)
  show ?thesis
    using box_annotation_line[of class_map ct key stats] assms(1)
    by (simp add: process_image_def img_100_def a write_lines_def label_path_def stems)
qed


lemma stale_step:
  "fst (process_image class_map (group_annotations []) img_100 (stale_labels, stats)) = stale_labels"
  by (simp add: process_image_def img_100_def image_annotations_def lookup_group_def group_nil
        label_path_def stems touch_def stale_labels_def)

lemma fresh_step:
  "fst (process_image class_map (group_annotations []) img_100 (empty_labels, stats)) ''100.txt'' = Some []"
  by (simp add: process_image_def img_100_def image_annotations_def lookup_group_def group_nil
        label_path_def stems touch_def empty_labels_def)

lemma box_line_nonempty: "box_line \<noteq> []"
  by (simp add: box_line_def)

text \<open>
  C1. Two runs that reach the branch for an image without annotation group while a label
  file of its stem holds a line. First: the label directory holds \<^verbatim>\<open>100.txt\<close> with a
  line, there is no annotation, and the image \<^verbatim>\<open>100.tif\<close> is processed; the file keeps
  the line. Second: a run from an empty label directory over \<^verbatim>\<open>a.jpg\<close> (annotated
  under the key \<^verbatim>\<open>a.jpg\<close>) and \<^verbatim>\<open>a.png\<close> (no group); the label file \<^verbatim>\<open>a.txt\<close> of
  \<^verbatim>\<open>a.png\<close> ends with the line of \<^verbatim>\<open>a.jpg\<close> in it. In both the label file of an
  image without annotation group is not empty: \<^verbatim>\<open>touch\<close> does not truncate.
\<close>

theorem C1_touch_leaves_label_nonempty:
  "img_shape img_100 = Some (1024, 1024)
   \<and> group_annotations [] (py_stem (img_name img_100)) = None
   \<and> group_annotations [] (img_name img_100) = None
   \<and> fst (process_image example_class_map (group_annotations []) img_100 (stale_labels, init_stats))
         (label_path (img_name img_100)) = Some box_line
   \<and> box_line \<noteq> []
   \<and> img_shape img_a_png = Some (1024, 1024)
   \<and> group_annotations [ann_on_a_jpg] (py_stem (img_name img_a_png)) = None
   \<and> group_annotations [ann_on_a_jpg] (img_name img_a_png) = None
   \<and> fst (convert example_class_map [ann_on_a_jpg] [img_a_jpg, img_a_png] (empty_labels, init_stats))
         (label_path (img_name img_a_png)) = Some box_line"
proof -
  have 1: "fst (process_image example_class_map (group_annotations []) img_100 (stale_labels, init_stats))
         (label_path (img_name img_100)) = Some box_line"
    by (simp add: stale_step) (simp add: stale_labels_def label_path_def img_100_def stems)
  have g: "group_annotations [ann_on_a_jpg] = [''a.jpg'' \<mapsto> [ann_on_a_jpg]]"
    by (simp add: ann_on_a_jpg_def group_single)
  have aj: "image_annotations [''a.jpg'' \<mapsto> [ann_on_a_jpg]] ''a.jpg'' = [ann_on_a_jpg]"
    by (simp add: image_annotations_def lookup_group_def stems)
  have ap: "image_annotations [''a.jpg'' \<mapsto> [ann_on_a_jpg]] ''a.png'' = []"
    by (simp add: image_annotations_def lookup_group_def stems)
  have l: "process_annotation example_class_map 1024 1024 ann_on_a_jpg ([], 0, st)
      = ([box_line], 1, st\<lparr>objects_by_class := (objects_by_class st)(13 := objects_by_class st 13 + 1)\<rparr>)" for st
    using box_annotation_line[of example_class_map 13 "''a.jpg''" st]
    by (simp add: example_class_13 ann_on_a_jpg_def box_line_def)
  have j: "fst (process_image example_class_map [''a.jpg'' \<mapsto> [ann_on_a_jpg]] img_a_jpg (empty_labels, st))
             = empty_labels(''a.txt'' \<mapsto> box_line)" for st
    by (simp add: process_image_def img_a_jpg_def aj l write_lines_def label_path_def stems box_line_nonempty)
  obtain st1 where j': "process_image example_class_map [''a.jpg'' \<mapsto> [ann_on_a_jpg]] img_a_jpg
       (empty_labels, init_stats\<lparr>total_images := Suc (Suc 0)\<rparr>) = (empty_labels(''a.txt'' \<mapsto> box_line), st1)"
    using j[of "init_stats\<lparr>total_images := Suc (Suc 0)\<rparr>"] by (metis fst_conv surj_pair)
  have p: "fst (process_image example_class_map [''a.jpg'' \<mapsto> [ann_on_a_jpg]] img_a_png
             (empty_labels(''a.txt'' \<mapsto> box_line), st1)) ''a.txt'' = Some box_line"
    by (simp add: process_image_def img_a_png_def ap touch_def label_path_def stems)
  have c: "convert example_class_map [ann_on_a_jpg] [img_a_jpg, img_a_png] (empty_labels, init_stats)
      = process_image example_class_map [''a.jpg'' \<mapsto> [ann_on_a_jpg]] img_a_png
          (process_image example_class_map [''a.jpg'' \<mapsto> [ann_on_a_jpg]] img_a_jpg
             (empty_labels, init_stats\<lparr>total_images := Suc (Suc 0)\<rparr>))"
    by (simp add: convert_def glob_examples g Let_def)
  have lab: "label_path (img_name img_a_png) = ''a.txt''"
    by (simp add: label_path_def img_a_png_def stems)
  have 2: "fst (convert example_class_map [ann_on_a_jpg] [img_a_jpg, img_a_png] (empty_labels, init_stats))
         (label_path (img_name img_a_png)) = Some box_line"
    by (simp only: c j' p lab)
  have 3: "group_annotations [ann_on_a_jpg] (py_stem (img_name img_a_png)) = None"
    "group_annotations [ann_on_a_jpg] (img_name img_a_png) = None"
    by (simp_all add: g img_a_png_def stems)
  show ?thesis using 1 2 3 box_line_nonempty
    by (simp add: group_nil img_100_def img_a_png_def)
qed

lemma process_image_frame:
  assumes "q \<noteq> label_path (img_name img)"
  shows "fst (process_image class_map groups img (fs, stats)) q = fs q"
proof (cases "img_shape img")
  case None
  then show ?thesis by (simp add: process_image_def)
next
  case (Some hw)
  obtain h w where hw: "hw = (h, w)" by (cases hw) auto
  show ?thesis
  proof (cases "image_annotations groups (img_name img) = []")
    case True
    with Some hw assms show ?thesis by (simp add: process_image_def touch_other)
  next
    case False
    obtain ls n st where f: "fold (process_annotation class_map w h) (image_annotations groups (img_name img)) ([], 0, stats) = (ls, n, st)"
      by (cases "fold (process_annotation class_map w h) (image_annotations groups (img_name img)) ([], 0, stats)") auto
    with Some hw False assms show ?thesis
      by (simp add: process_image_def write_lines_def)
  qed
qed

lemma process_image_keeps:
  assumes "fs q \<noteq> None"
  shows "fst (process_image class_map groups img (fs, stats)) q \<noteq> None"
proof (cases "q = label_path (img_name img)")
  case False
  then show ?thesis using assms by (simp add: process_image_frame)
next
  case True
  show ?thesis
  proof (cases "img_shape img")
    case None
    then show ?thesis using assms by (simp add: process_image_def)
  next
    case (Some hw)
    obtain h w where hw: "hw = (h, w)" by (cases hw) auto
    show ?thesis
    proof (cases "image_annotations groups (img_name img) = []")
      case e: True
      with Some hw True show ?thesis by (simp add: process_image_def touch_exists)
    next
      case ne: False
      obtain ls n st where f: "fold (process_annotation class_map w h) (image_annotations groups (img_name img)) ([], 0, stats) = (ls, n, st)"
        by (cases "fold (process_annotation class_map w h) (image_annotations groups (img_name img)) ([], 0, stats)") auto
      with Some hw ne True assms show ?thesis
        by (simp add: process_image_def write_lines_def)
    qed
  qed
qed

lemma fold_process_image_frame:
  assumes "q \<notin> (\<lambda>img. label_path (img_name img)) ` set imgs"
  shows "fst (fold (process_image class_map groups) imgs (fs, stats)) q = fs q"
  using assms
proof (induction imgs arbitrary: fs stats)
  case Nil
  then show ?case by simp
next
  case (Cons img imgs)
  obtain fs' stats' where p: "process_image class_map groups img (fs, stats) = (fs', stats')"
    by (cases "process_image class_map groups img (fs, stats)") auto
  have "fs' q = fs q" using process_image_frame[of q img class_map groups fs stats] Cons.prems p by simp
  moreover have "fst (fold (process_image class_map groups) imgs (fs', stats')) q = fs' q"
    using Cons.IH Cons.prems by simp
  ultimately show ?case by (simp add: p)
qed

lemma fold_process_image_keeps:
  assumes "fs q \<noteq> None"
  shows "fst (fold (process_image class_map groups) imgs (fs, stats)) q \<noteq> None"
  using assms
proof (induction imgs arbitrary: fs stats)
  case Nil
  then show ?case by simp
next
  case (Cons img imgs)
  obtain fs' stats' where p: "process_image class_map groups img (fs, stats) = (fs', stats')"
    by (cases "process_image class_map groups img (fs, stats)") auto
  have "fs' q \<noteq> None"
    using process_image_keeps[of fs q class_map groups img stats] Cons.prems p by simp
  then show ?case using Cons.IH by (simp add: p)
qed

text \<open>
  What does hold of a run: a file that is not the label file of a scanned image keeps its
  contents, and no file is deleted.
\<close>

lemma convert_frame:
  assumes "q \<notin> (\<lambda>img. label_path (img_name img)) ` set (glob_images img_name dir)"
  shows "fst (convert class_map gdf dir (fs, stats)) q = fs q"
  using fold_process_image_frame[OF assms] by (simp add: convert_def Let_def)

lemma convert_keeps_files:
  assumes "fs q \<noteq> None"
  shows "fst (convert class_map gdf dir (fs, stats)) q \<noteq> None"
  using fold_process_image_keeps[of fs q class_map "group_annotations gdf" "glob_images img_name dir"] assms
  by (simp add: convert_def Let_def)

text \<open>
  C3. Two runs of \<^verbatim>\<open>convert\<close> on the same inputs (no annotations, the one image
  \<^verbatim>\<open>100.tif\<close>): started on a label directory where \<^verbatim>\<open>100.txt\<close> holds a line, the
  run leaves the line in the file it touches; started on an empty directory, it leaves
  the file empty. The final contents depend on what was there before.
\<close>

theorem C3_touch_keeps_stale_contents:
  "fst (convert example_class_map [] [img_100] (stale_labels, init_stats)) ''100.txt'' = Some box_line
   \<and> fst (convert example_class_map [] [img_100] (empty_labels, init_stats)) ''100.txt'' = Some []
   \<and> box_line \<noteq> []"
proof -
  have "fst (convert example_class_map [] [img_100] (stale_labels, init_stats)) = stale_labels"
    by (simp add: convert_def glob_examples Let_def stale_step)
  then have 1: "fst (convert example_class_map [] [img_100] (stale_labels, init_stats)) ''100.txt'' = Some box_line"
    by (simp add: stale_labels_def)
  have 2: "fst (convert example_class_map [] [img_100] (empty_labels, init_stats)) ''100.txt'' = Some []"
    by (simp add: convert_def glob_examples Let_def fresh_step)
  from 1 2 box_line_nonempty show ?thesis by simp
qed



text \<open>
  C10. In a run over the one image \<^verbatim>\<open>100.tif\<close> of 1024 by 1024 pixels and the one
  annotation with bounds string \<^verbatim>\<open>100,100,300,300\<close>, whose class the class map sends
  to index 2, the label file \<^verbatim>\<open>100.txt\<close> holds exactly the line
  \<^verbatim>\<open>2 0.195312 0.195312 0.195312 0.195312\<close> and its newline, whatever the label
  directory and the statistics were before.
\<close>

theorem C10_example_label_line:
  assumes "class_map ct = Some 2"
  shows "fst (convert class_map [plain_ann ''100'' ct (PStr ''100,100,300,300'') None] [img_100] (fs, stats))
           ''100.txt''
         = Some (''2 0.195312 0.195312 0.195312 0.195312'' @ [CHR 0x0A])"
  using box_image_label[of class_map ct "''100''" fs "stats\<lparr>total_images := 1\<rparr>"] assms
  by (simp add: convert_def glob_examples Let_def)

theorem C10_witness:
  "example_class_map 13 = Some 2
   \<and> fst (convert example_class_map [ann_box] [img_100] (empty_labels, init_stats)) ''100.txt'' = Some box_line"
  using C10_example_label_line[of example_class_map 13 empty_labels init_stats] example_class_13
  by (simp add: ann_box_def box_line_def)

section \<open>Geometry resolution\<close>

lemma floats_of_error:
  "None \<in> set (map (\<lambda>x. py_float (strip x)) xs) \<Longrightarrow> floats_of xs = Inl ValueError"
  by (induction xs) (auto split: option.splits sum.splits)

lemma floats_of_ok:
  "map (\<lambda>x. py_float (strip x)) xs = map Some vs \<Longrightarrow> floats_of xs = Inr vs"
  by (induction xs arbitrary: vs) (auto split: option.splits sum.splits)

lemma floats_of_total:
  "None \<notin> set (map (\<lambda>x. py_float (strip x)) xs) \<Longrightarrow> \<exists>vs. floats_of xs = Inr vs \<and> length vs = length xs"
  by (induction xs) (auto split: option.splits sum.splits)

lemma py_min_Min: "xs \<noteq> [] \<Longrightarrow> py_min xs = Min (set xs)"
  by (cases xs) (simp_all add: py_min_def Min.set_eq_fold[symmetric])

lemma py_max_Max: "xs \<noteq> [] \<Longrightarrow> py_max xs = Max (set xs)"
  by (cases xs) (simp_all add: py_max_def Max.set_eq_fold[symmetric])

lemma resolve_ignores_geometry:
  "bounds_imcoords ann = Some v \<Longrightarrow> resolve_bbox (ann\<lparr>geometry := g\<rparr>) = resolve_bbox ann"
  by (simp add: resolve_bbox_def)

lemma class_ignores_geometry: "get_class_type (ann\<lparr>geometry := g\<rparr>) = get_class_type ann"
  by (simp add: get_class_type_def split: option.splits)

text \<open>
  C9 (amended). Geometry resolution consults one encoding only, chosen by the presence
  of the bounds key. When the annotation has the bounds key, the geometry is never looked
  at: four fields that \<^verbatim>\<open>float\<close> reads give the box; a field that it does not read
  raises; an empty or missing (\<^verbatim>\<open>nan\<close>) value, or a number of fields other than four,
  is unresolvable; and in the last two cases an annotation whose class is in the class
  map is counted invalid, whatever geometry it carries. Only when the bounds key is
  absent is the geometry used: a geometry object resolves to its \<^verbatim>\<open>bounds\<close>, and a
  polygon given as a dictionary to the minimum and maximum of x and of y over the points
  of its first ring.
\<close>

theorem C9_geometry_resolution:
  "(bounds_imcoords ann = Some v \<longrightarrow> resolve_bbox (ann\<lparr>geometry := g\<rparr>) = resolve_bbox ann)
   \<and> (bounds_imcoords ann = Some v \<and> py_str v \<noteq> [] \<and> py_str v \<noteq> ''nan''
        \<and> map (\<lambda>x. py_float (strip x)) (split_on CHR '','' (py_str v)) = [Some a, Some b, Some c, Some d]
      \<longrightarrow> resolve_bbox ann = Inr (Some (a, b, c, d)))
   \<and> (bounds_imcoords ann = Some v \<and> py_str v \<noteq> [] \<and> py_str v \<noteq> ''nan''
        \<and> None \<in> set (map (\<lambda>x. py_float (strip x)) (split_on CHR '','' (py_str v)))
      \<longrightarrow> resolve_bbox ann = Inl ValueError)
   \<and> (bounds_imcoords ann = Some v
        \<and> (py_str v = [] \<or> py_str v = ''nan''
            \<or> (None \<notin> set (map (\<lambda>x. py_float (strip x)) (split_on CHR '','' (py_str v)))
                \<and> length (split_on CHR '','' (py_str v)) \<noteq> 4))
      \<longrightarrow> resolve_bbox ann = Inr None)
   \<and> (bounds_imcoords ann = Some v \<and> (resolve_bbox ann = Inl ValueError \<or> resolve_bbox ann = Inr None)
        \<and> get_class_type ann = Inr (Some ct) \<and> class_map ct = Some k
      \<longrightarrow> process_annotation class_map w h (ann\<lparr>geometry := g\<rparr>) (ls, n, st)
            = (ls, n, st\<lparr>invalid_annotations := invalid_annotations st + 1\<rparr>))
   \<and> (bounds_imcoords ann = None \<and> geometry ann = Some (Shape bnds)
      \<longrightarrow> resolve_bbox ann = Inr (Some bnds))
   \<and> (bounds_imcoords ann = None \<and> geometry ann = Some (GeoDict ''Polygon'' (ring # rings)) \<and> ring \<noteq> []
      \<longrightarrow> resolve_bbox ann
            = Inr (Some (Fin (Min (fst ` set ring)), Fin (Min (snd ` set ring)),
                         Fin (Max (fst ` set ring)), Fin (Max (snd ` set ring)))))"
proof (intro conjI impI)
  assume "bounds_imcoords ann = Some v"
  then show "resolve_bbox (ann\<lparr>geometry := g\<rparr>) = resolve_bbox ann"
    by (rule resolve_ignores_geometry)
next
  assume h: "bounds_imcoords ann = Some v \<and> py_str v \<noteq> [] \<and> py_str v \<noteq> ''nan''
        \<and> map (\<lambda>x. py_float (strip x)) (split_on CHR '','' (py_str v)) = [Some a, Some b, Some c, Some d]"
  then have "floats_of (split_on CHR '','' (py_str v)) = Inr [a, b, c, d]"
    using floats_of_ok[of "split_on CHR '','' (py_str v)" "[a, b, c, d]"] by simp
  with h show "resolve_bbox ann = Inr (Some (a, b, c, d))"
    by (simp add: resolve_bbox_def Let_def)
next
  assume h: "bounds_imcoords ann = Some v \<and> py_str v \<noteq> [] \<and> py_str v \<noteq> ''nan''
        \<and> None \<in> set (map (\<lambda>x. py_float (strip x)) (split_on CHR '','' (py_str v)))"
  then have "floats_of (split_on CHR '','' (py_str v)) = Inl ValueError"
    using floats_of_error by blast
  with h show "resolve_bbox ann = Inl ValueError"
    by (simp add: resolve_bbox_def Let_def)
next
  assume h: "bounds_imcoords ann = Some v
        \<and> (py_str v = [] \<or> py_str v = ''nan''
            \<or> (None \<notin> set (map (\<lambda>x. py_float (strip x)) (split_on CHR '','' (py_str v)))
                \<and> length (split_on CHR '','' (py_str v)) \<noteq> 4))"
  show "resolve_bbox ann = Inr None"
  proof (cases "py_str v = [] \<or> py_str v = ''nan''")
    case True
    with h show ?thesis by (auto simp: resolve_bbox_def Let_def)
  next
    case False
    with h have n: "None \<notin> set (map (\<lambda>x. py_float (strip x)) (split_on CHR '','' (py_str v)))"
      and l: "length (split_on CHR '','' (py_str v)) \<noteq> 4" by auto
    from floats_of_total[OF n] obtain vs where
      "floats_of (split_on CHR '','' (py_str v)) = Inr vs" "length vs = length (split_on CHR '','' (py_str v))"
      by blast
    with h False l show ?thesis by (simp add: resolve_bbox_def Let_def)
  qed
next
  assume h: "bounds_imcoords ann = Some v \<and> (resolve_bbox ann = Inl ValueError \<or> resolve_bbox ann = Inr None)
        \<and> get_class_type ann = Inr (Some ct) \<and> class_map ct = Some k"
  then have r: "resolve_bbox (ann\<lparr>geometry := g\<rparr>) = Inl ValueError \<or> resolve_bbox (ann\<lparr>geometry := g\<rparr>) = Inr None"
    by (simp add: resolve_ignores_geometry)
  from h have c: "get_class_type (ann\<lparr>geometry := g\<rparr>) = Inr (Some ct)" and k: "class_map ct = Some k"
    by (simp_all add: class_ignores_geometry)
  from r have "process_annotation class_map w h (ann\<lparr>geometry := g\<rparr>) (ls, n, st) = count_invalid (ls, n, st)"
  proof
    assume "resolve_bbox (ann\<lparr>geometry := g\<rparr>) = Inl ValueError"
    with c k show ?thesis by (simp add: process_annotation_cases)
  next
    assume "resolve_bbox (ann\<lparr>geometry := g\<rparr>) = Inr None"
    with c k show ?thesis by (simp add: process_annotation_cases)
  qed
  then show "process_annotation class_map w h (ann\<lparr>geometry := g\<rparr>) (ls, n, st)
            = (ls, n, st\<lparr>invalid_annotations := invalid_annotations st + 1\<rparr>)"
    by (simp add: count_invalid_def)
next
  assume "bounds_imcoords ann = None \<and> geometry ann = Some (Shape bnds)"
  then show "resolve_bbox ann = Inr (Some bnds)"
    by (simp add: resolve_bbox_def extract_bbox_from_geometry_def)
next
  assume h: "bounds_imcoords ann = None \<and> geometry ann = Some (GeoDict ''Polygon'' (ring # rings)) \<and> ring \<noteq> []"
  then have m: "py_min (map fst ring) = Min (fst ` set ring)" "py_min (map snd ring) = Min (snd ` set ring)"
    "py_max (map fst ring) = Max (fst ` set ring)" "py_max (map snd ring) = Max (snd ` set ring)"
    by (simp_all add: py_min_Min py_max_Max)
  from h show "resolve_bbox ann
            = Inr (Some (Fin (Min (fst ` set ring)), Fin (Min (snd ` set ring)),
                         Fin (Max (fst ` set ring)), Fin (Max (snd ` set ring))))"
    by (simp add: resolve_bbox_def extract_bbox_from_geometry_def Let_def m)
qed

lemma shape_example:
  "resolve_bbox (ann_polygon\<lparr>geometry := Some (Shape (Fin 10, Fin 20, Fin 30, Fin 40))\<rparr>)
     = Inr (Some (Fin 10, Fin 20, Fin 30, Fin 40))"
  by (simp add: resolve_bbox_def ann_polygon_def extract_bbox_from_geometry_def)

theorem C9_witness:
  "resolve_bbox (ann_text_bounds\<lparr>geometry := None\<rparr>) = resolve_bbox ann_text_bounds
   \<and> resolve_bbox ann_box = Inr (Some (Fin 100, Fin 100, Fin 300, Fin 300))
   \<and> resolve_bbox ann_text_bounds = Inl ValueError
   \<and> resolve_bbox ann_missing_bounds = Inr None
   \<and> process_annotation example_class_map 1024 1024 ann_text_bounds ([], 0, init_stats)
       = ([], 0, init_stats\<lparr>invalid_annotations := invalid_annotations init_stats + 1\<rparr>)
   \<and> resolve_bbox (ann_polygon\<lparr>geometry := Some (Shape (Fin 10, Fin 20, Fin 30, Fin 40))\<rparr>)
       = Inr (Some (Fin 10, Fin 20, Fin 30, Fin 40))
   \<and> resolve_bbox ann_polygon = Inr (Some (Fin 10, Fin 20, Fin 30, Fin 40))"
proof -
  have 1: "resolve_bbox (ann_text_bounds\<lparr>geometry := None\<rparr>) = resolve_bbox ann_text_bounds"
    using C9_geometry_resolution[where ann = ann_text_bounds and v = "PStr ''abc''" and g = None]
    by (simp add: ann_text_bounds_def plain_ann_def)
  have 2: "resolve_bbox ann_box = Inr (Some (Fin 100, Fin 100, Fin 300, Fin 300))"
    using C9_geometry_resolution[where ann = ann_box and v = "PStr ''100,100,300,300''"
        and a = "Fin 100" and b = "Fin 100" and c = "Fin 300" and d = "Fin 300"]
    by (simp add: ann_box_def plain_ann_def py_str_def split_examples strip_digits py_float_examples)
  have 3: "resolve_bbox ann_text_bounds = Inl ValueError"
    using C9_geometry_resolution[where ann = ann_text_bounds and v = "PStr ''abc''"]
    by (simp add: ann_text_bounds_def plain_ann_def py_str_def split_examples strip_digits py_float_examples)
  have 4: "resolve_bbox ann_missing_bounds = Inr None"
    using C9_geometry_resolution[where ann = ann_missing_bounds and v = PNaN]
    by (simp add: ann_missing_bounds_def plain_ann_def py_str_def)
  have g: "ann_text_bounds\<lparr>geometry := Some (GeoDict ''Polygon'' [square_ring])\<rparr> = ann_text_bounds"
    by (simp add: ann_text_bounds_def plain_ann_def)
  have 5: "process_annotation example_class_map 1024 1024 ann_text_bounds ([], 0, init_stats)
       = ([], 0, init_stats\<lparr>invalid_annotations := invalid_annotations init_stats + 1\<rparr>)"
    using C9_geometry_resolution[where ann = ann_text_bounds and v = "PStr ''abc''" and ct = 13
        and class_map = example_class_map and k = 2 and w = 1024 and h = 1024 and ls = "[]" and n = 0
        and st = init_stats and g = "Some (GeoDict ''Polygon'' [square_ring])"] 3
    by (simp add: g class_examples example_class_13) (simp add: ann_text_bounds_def plain_ann_def)
  have 6: "resolve_bbox (ann_polygon\<lparr>geometry := Some (Shape (Fin 10, Fin 20, Fin 30, Fin 40))\<rparr>)
       = Inr (Some (Fin 10, Fin 20, Fin 30, Fin 40))"
    using C9_geometry_resolution[where ann = "ann_polygon\<lparr>geometry := Some (Shape (Fin 10, Fin 20, Fin 30, Fin 40))\<rparr>"
        and bnds = "(Fin 10, Fin 20, Fin 30, Fin 40)"]
    by (simp add: ann_polygon_def)
  have 7: "resolve_bbox ann_polygon = Inr (Some (Fin 10, Fin 20, Fin 30, Fin 40))"
    using C9_geometry_resolution[where ann = ann_polygon and ring = square_ring and rings = "[]"]
    by (simp add: ann_polygon_def) (simp add: square_ring_def)
  from 1 2 3 4 5 6 7 show ?thesis by simp
qed

text \<open>
  The claim as stated fails: an annotation whose bounds value is the text \<^verbatim>\<open>abc\<close>,
  or is missing, and which carries a polygon whose bounding box is \<open>(10, 20, 30, 40)\<close>,
  does not resolve to that box; it is counted as an invalid annotation.
\<close>

theorem C9_counterexample:
  "extract_bbox_from_geometry (geometry ann_text_bounds) = Some (Fin 10, Fin 20, Fin 30, Fin 40)
   \<and> resolve_bbox ann_text_bounds = Inl ValueError
   \<and> process_annotation example_class_map 1024 1024 ann_text_bounds ([], 0, init_stats)
       = ([], 0, init_stats\<lparr>invalid_annotations := 1\<rparr>)
   \<and> extract_bbox_from_geometry (geometry ann_missing_bounds) = Some (Fin 10, Fin 20, Fin 30, Fin 40)
   \<and> resolve_bbox ann_missing_bounds = Inr None
   \<and> process_annotation example_class_map 1024 1024 ann_missing_bounds ([], 0, init_stats)
       = ([], 0, init_stats\<lparr>invalid_annotations := 1\<rparr>)"
proof -
  have g: "extract_bbox_from_geometry (Some (GeoDict ''Polygon'' [square_ring]))
      = Some (Fin 10, Fin 20, Fin 30, Fin 40)"
    by (simp add: extract_bbox_from_geometry_def square_ring_def py_min_def py_max_def Let_def)
  have 1: "process_annotation example_class_map 1024 1024 ann_text_bounds ([], 0, init_stats)
       = ([], 0, init_stats\<lparr>invalid_annotations := 1\<rparr>)"
    using pa_bbox_error[of ann_text_bounds 13 example_class_map 2 ValueError 1024 1024 "([], 0, init_stats)"]
    by (simp add: class_examples example_class_13 resolve_examples count_invalid_def init_stats_def)
  have 2: "process_annotation example_class_map 1024 1024 ann_missing_bounds ([], 0, init_stats)
       = ([], 0, init_stats\<lparr>invalid_annotations := 1\<rparr>)"
    using pa_no_bbox[of ann_missing_bounds 13 example_class_map 2 1024 1024 "([], 0, init_stats)"]
    by (simp add: class_examples example_class_13 resolve_examples count_invalid_def init_stats_def)
  from g 1 2 show ?thesis
    by (simp add: resolve_examples) (simp add: ann_text_bounds_def ann_missing_bounds_def plain_ann_def)
qed

section \<open>The dataset splitter\<close>

lemma ends_with_iff: "ends_with ext name \<longleftrightarrow> (\<exists>p. name = p @ ext)"
proof
  assume "ends_with ext name"
  then have "name = take (length name - length ext) name @ ext"
    by (metis append_take_drop_id ends_with_def)
  then show "\<exists>p. name = p @ ext" ..
next
  assume "\<exists>p. name = p @ ext"
  then show "ends_with ext name" by (auto simp: ends_with_def)
qed

lemma ends_with_append: "ends_with ext (p @ ext)"
  by (simp add: ends_with_iff)

lemma ext_exclusive:
  "\<not> (ends_with ''.jpg'' n \<and> ends_with ''.png'' n)"
  "\<not> (ends_with ''.jpg'' n \<and> ends_with ''.tif'' n)"
  "\<not> (ends_with ''.jpg'' n \<and> ends_with ''.tiff'' n)"
  "\<not> (ends_with ''.png'' n \<and> ends_with ''.tif'' n)"
  "\<not> (ends_with ''.png'' n \<and> ends_with ''.tiff'' n)"
  "\<not> (ends_with ''.tif'' n \<and> ends_with ''.tiff'' n)"
proof -
  have l: "ends_with e n \<Longrightarrow> e \<noteq> [] \<Longrightarrow> last n = last e" for e
    by (auto simp: ends_with_iff)
  have l2: "ends_with e n \<Longrightarrow> length e \<ge> 2 \<Longrightarrow> last (butlast n) = last (butlast e)" for e
  proof -
    assume e: "ends_with e n" and len: "length e \<ge> 2"
    then obtain p where n: "n = p @ e" by (auto simp: ends_with_iff)
    from len have ne: "e \<noteq> []" "butlast e \<noteq> []" by (auto simp: butlast_conv_take)
    show ?thesis using ne by (simp add: n butlast_append)
  qed
  show "\<not> (ends_with ''.jpg'' n \<and> ends_with ''.tif'' n)" using l[of "''.jpg''"] l[of "''.tif''"] by auto
  show "\<not> (ends_with ''.jpg'' n \<and> ends_with ''.tiff'' n)" using l[of "''.jpg''"] l[of "''.tiff''"] by auto
  show "\<not> (ends_with ''.png'' n \<and> ends_with ''.tif'' n)" using l[of "''.png''"] l[of "''.tif''"] by auto
  show "\<not> (ends_with ''.png'' n \<and> ends_with ''.tiff'' n)" using l[of "''.png''"] l[of "''.tiff''"] by auto
  show "\<not> (ends_with ''.jpg'' n \<and> ends_with ''.png'' n)" using l2[of "''.jpg''"] l2[of "''.png''"] by auto
  show "\<not> (ends_with ''.tif'' n \<and> ends_with ''.tiff'' n)" using l2[of "''.tif''"] l2[of "''.tiff''"] by auto
qed

lemma glob_ext_map: "map name_of (glob_ext ext name_of dir) = filter (ends_with ext) (map name_of dir)"
  by (simp add: glob_ext_def filter_map comp_def)

lemma glob_images_map:
  "map name_of (glob_images name_of dir) =
     filter (ends_with ''.jpg'') (map name_of dir) @ filter (ends_with ''.png'') (map name_of dir)
     @ filter (ends_with ''.tif'') (map name_of dir) @ filter (ends_with ''.tiff'') (map name_of dir)"
  by (simp add: glob_images_def glob_ext_map)

lemma glob_images_distinct:
  assumes "distinct (map name_of dir)"
  shows "distinct (map name_of (glob_images name_of dir))"
  unfolding glob_images_map using assms ext_exclusive
  by (auto simp: distinct_filter)

lemma swap_length: "length (swap i j xs) = length xs"
  by (simp add: swap_def)

lemma swap_mset: "i < length xs \<Longrightarrow> j < length xs \<Longrightarrow> mset (swap i j xs) = mset xs"
  unfolding swap_def by (rule mset_swap)

lemma shuffle_loop_mset: "i < length xs \<Longrightarrow> mset (shuffle_loop rnd i xs) = mset xs"
proof (induction i arbitrary: xs)
  case 0
  then show ?case by simp
next
  case (Suc i)
  have j: "rnd (Suc i) mod Suc (Suc i) < length xs"
    using Suc.prems by (meson Suc_leI le_trans mod_less_divisor not_less zero_less_Suc less_le_trans)
  have "mset (shuffle_loop rnd i (swap (Suc i) (rnd (Suc i) mod Suc (Suc i)) xs))
      = mset (swap (Suc i) (rnd (Suc i) mod Suc (Suc i)) xs)"
    using Suc.prems by (intro Suc.IH) (simp add: swap_length)
  also have "\<dots> = mset xs" using Suc.prems j by (simp add: swap_mset)
  finally show ?case by simp
qed

lemma shuffle_mset: "mset (shuffle rnd xs) = mset xs"
proof (cases xs)
  case Nil
  then show ?thesis by (simp add: shuffle_def)
next
  case (Cons x r)
  then show ?thesis unfolding shuffle_def by (intro shuffle_loop_mset) simp
qed

lemma shuffle_length: "length (shuffle rnd xs) = length xs"
  using shuffle_mset[of rnd xs] by (metis size_mset)

lemma shuffle_set: "set (shuffle rnd xs) = set xs"
  using shuffle_mset[of rnd xs] by (metis set_mset_mset)

lemma shuffle_distinct_map: "distinct (map f (shuffle rnd xs)) = distinct (map f xs)"
proof -
  have "mset (map f (shuffle rnd xs)) = mset (map f xs)"
    by (simp add: shuffle_mset)
  then show ?thesis by (rule mset_eq_imp_distinct_iff)
qed

lemma py_trunc_nonneg: "0 \<le> x \<Longrightarrow> py_trunc x = \<lfloor>x\<rfloor> \<and> 0 \<le> py_trunc x"
  by (simp add: py_trunc_def)

lemma slice_head: "0 \<le> a \<Longrightarrow> py_slice xs None (Some a) = take (nat a) xs"
  by (simp add: py_slice_def slice_index_def Let_def min_def)

lemma slice_tail: "0 \<le> b \<Longrightarrow> py_slice xs (Some b) None = drop (nat b) xs"
  by (simp add: py_slice_def slice_index_def Let_def min_def)

lemma slice_mid:
  assumes "0 \<le> a" "a \<le> b"
  shows "py_slice xs (Some a) (Some b) = take (nat b - nat a) (drop (nat a) xs)"
proof (cases "nat a \<le> length xs")
  case True
  have "take (min (nat b) (length xs) - nat a) (drop (nat a) xs) = take (nat b - nat a) (drop (nat a) xs)"
    by (cases "nat b \<le> length xs") (simp_all add: min_def)
  then show ?thesis using assms True
    by (simp add: py_slice_def slice_index_def Let_def min_absorb1)
next
  case False
  then show ?thesis using assms
    by (simp add: py_slice_def slice_index_def Let_def)
qed


lemma split_pairs_cut:
  assumes "0 \<le> train_ratio sp" and "0 \<le> val_ratio sp"
  shows "split_pairs sp rnd fs =
     (take (nat \<lfloor>fl (train_ratio sp * fl (of_nat (length (valid_pairs_of fs))))\<rfloor>) (shuffle rnd (valid_pairs_of fs)),
      take (nat \<lfloor>fl (val_ratio sp * fl (of_nat (length (valid_pairs_of fs))))\<rfloor>)
        (drop (nat \<lfloor>fl (train_ratio sp * fl (of_nat (length (valid_pairs_of fs))))\<rfloor>) (shuffle rnd (valid_pairs_of fs))),
      drop (nat \<lfloor>fl (train_ratio sp * fl (of_nat (length (valid_pairs_of fs))))\<rfloor>
            + nat \<lfloor>fl (val_ratio sp * fl (of_nat (length (valid_pairs_of fs))))\<rfloor>) (shuffle rnd (valid_pairs_of fs)))"
proof -
  define xs where "xs = shuffle rnd (valid_pairs_of fs)"
  define a where "a = \<lfloor>fl (train_ratio sp * fl (of_nat (length xs)))\<rfloor>"
  define b where "b = \<lfloor>fl (val_ratio sp * fl (of_nat (length xs)))\<rfloor>"
  have n: "length xs = length (valid_pairs_of fs)" by (simp add: xs_def shuffle_length)
  have t0: "0 \<le> fl (of_nat (length xs))" by (rule fl_nonneg) simp
  have pa: "0 \<le> fl (train_ratio sp * fl (of_nat (length xs)))"
    by (rule fl_nonneg) (rule mult_nonneg_nonneg[OF assms(1) t0])
  have pb: "0 \<le> fl (val_ratio sp * fl (of_nat (length xs)))"
    by (rule fl_nonneg) (rule mult_nonneg_nonneg[OF assms(2) t0])
  have a0: "0 \<le> a" and b0: "0 \<le> b" using pa pb by (simp_all add: a_def b_def)
  have ta: "py_trunc (fl (train_ratio sp * fl (of_nat (length xs)))) = a"
    using pa by (simp add: py_trunc_def a_def)
  have tb: "py_trunc (fl (val_ratio sp * fl (of_nat (length xs)))) = b"
    using pb by (simp add: py_trunc_def b_def)
  have "split_pairs sp rnd fs =
      (py_slice xs None (Some a), py_slice xs (Some a) (Some (a + b)), py_slice xs (Some (a + b)) None)"
    by (simp add: split_pairs_def Let_def xs_def[symmetric] ta tb)
  also have "\<dots> = (take (nat a) xs, take (nat b) (drop (nat a) xs), drop (nat a + nat b) xs)"
    using a0 b0 by (simp add: slice_head slice_mid slice_tail nat_add_distrib)
  finally show ?thesis by (simp add: a_def b_def xs_def shuffle_length)
qed

lemma split_counts:
  "snd (split sp rnd fs) = (case split_pairs sp rnd fs of (tr, va, te) \<Rightarrow> (length tr, length va, length te))"
  by (simp add: split_def split: prod.splits)

lemma floor_142: "\<lfloor>(285 / 2 :: rat)\<rfloor> = 142"
  by (simp add: floor_eq_iff)

lemma default_counts_950:
  "\<lfloor>fl (fl (4 / 5) * fl (of_nat 950))\<rfloor> = 760" "\<lfloor>fl (fl (3 / 20) * fl (of_nat 950))\<rfloor> = 142"
  by (simp_all only: of_nat_numeral fl_0_8 fl_0_15 fl_950 prod_0_8_950 prod_0_15_950 floor_142 floor_numeral)

text \<open>
  The float product is neither the exact product of the decimal numbers nor that of the
  doubles. For the ratio \<^verbatim>\<open>0.7\<close> and 90 pairs it is \<^verbatim>\<open>62.99999999999999\<close> and the
  count is 62, where the product of the decimal numbers is 63. For the ratio \<^verbatim>\<open>0.6\<close>
  and 5 pairs it is \<^verbatim>\<open>3.0\<close> and the count is 3, where the exact product of the double
  and 5 lies below 3.
\<close>

lemma float_product_is_rounded:
  "py_trunc (fl (fl (7 / 10) * fl (of_nat 90))) = 62" "\<lfloor>(7 / 10 :: rat) * of_nat 90\<rfloor> = 63"
  "py_trunc (fl (fl (3 / 5) * fl (of_nat 5))) = 3" "\<lfloor>fl (3 / 5) * of_nat 5\<rfloor> = 2"
proof -
  have f: "\<lfloor>(8866461766385663 / 140737488355328 :: rat)\<rfloor> = 62"
    "\<lfloor>(27021597764222975 / 9007199254740992 :: rat)\<rfloor> = 2"
    by (simp_all add: floor_eq_iff)
  have e: "fl (fl (7 / 10) * fl (of_nat 90)) = 8866461766385663 / 140737488355328"
    by (simp only: of_nat_numeral fl_0_7 fl_90 prod_0_7_90)
  have g: "fl (fl (3 / 5) * fl (of_nat 5)) = 3"
    by (simp only: of_nat_numeral fl_0_6 fl_5 prod_0_6_5)
  show "py_trunc (fl (fl (7 / 10) * fl (of_nat 90))) = 62"
    unfolding e by (simp add: py_trunc_def f)
  show "\<lfloor>(7 / 10 :: rat) * of_nat 90\<rfloor> = 63" by simp
  show "py_trunc (fl (fl (3 / 5) * fl (of_nat 5))) = 3"
    unfolding g by (simp add: py_trunc_def)
  show "\<lfloor>fl (3 / 5) * of_nat 5\<rfloor> = 2"
    unfolding fl_0_6 by (simp add: f)
qed

text \<open>
  C2 (amended). With non-negative train and validation ratios, a split run over the \<open>N\<close>
  retained pairs shuffles them (the shuffled list holds the same pairs) and cuts the
  shuffled list by index: train is the first \<open>trainCount\<close> pairs, val the next
  \<open>valCount\<close>, test the rest, and the run returns the three lengths. Here
  \<open>trainCount\<close> is the floor of the double-precision product of the train ratio and
  \<open>N\<close>, and \<open>valCount\<close> that of the validation ratio and \<open>N\<close>. With 950 retained pairs
  and the ratios \<^verbatim>\<open>0.8\<close> and \<^verbatim>\<open>0.15\<close> the counts are 760, 142 and 48.
\<close>

theorem C2_partition_by_cut_points:
  assumes "0 \<le> train_ratio sp" and "0 \<le> val_ratio sp"
  shows "(let xs = shuffle rnd (valid_pairs_of fs);
              n = length (valid_pairs_of fs);
              train_count = nat \<lfloor>fl (train_ratio sp * fl (of_nat n))\<rfloor>;
              val_count = nat \<lfloor>fl (val_ratio sp * fl (of_nat n))\<rfloor>
          in mset xs = mset (valid_pairs_of fs)
             \<and> split_pairs sp rnd fs
                 = (take train_count xs, take val_count (drop train_count xs), drop (train_count + val_count) xs)
             \<and> snd (split sp rnd fs)
                 = (length (take train_count xs), length (take val_count (drop train_count xs)),
                    length (drop (train_count + val_count) xs)))
       \<and> (train_ratio sp = fl (4 / 5) \<and> val_ratio sp = fl (3 / 20) \<and> length (valid_pairs_of fs) = 950
            \<longrightarrow> snd (split sp rnd fs) = (760, 142, 48))"
proof -
  note cut = split_pairs_cut[OF assms, of rnd fs]
  have cnt: "snd (split sp rnd fs)
      = (length (take (nat \<lfloor>fl (train_ratio sp * fl (of_nat (length (valid_pairs_of fs))))\<rfloor>) (shuffle rnd (valid_pairs_of fs))),
         length (take (nat \<lfloor>fl (val_ratio sp * fl (of_nat (length (valid_pairs_of fs))))\<rfloor>)
           (drop (nat \<lfloor>fl (train_ratio sp * fl (of_nat (length (valid_pairs_of fs))))\<rfloor>) (shuffle rnd (valid_pairs_of fs)))),
         length (drop (nat \<lfloor>fl (train_ratio sp * fl (of_nat (length (valid_pairs_of fs))))\<rfloor>
            + nat \<lfloor>fl (val_ratio sp * fl (of_nat (length (valid_pairs_of fs))))\<rfloor>) (shuffle rnd (valid_pairs_of fs))))"
    unfolding split_counts cut by simp
  have ex: "snd (split sp rnd fs) = (760, 142, 48)"
    if "train_ratio sp = fl (4 / 5) \<and> val_ratio sp = fl (3 / 20) \<and> length (valid_pairs_of fs) = 950"
  proof -
    from that have t: "train_ratio sp = fl (4 / 5)" and v: "val_ratio sp = fl (3 / 20)"
      and l: "length (valid_pairs_of fs) = 950" by auto
    show ?thesis unfolding cnt t v l default_counts_950 by (simp add: shuffle_length l)
  qed
  show ?thesis
    using cut cnt ex by (simp add: Let_def shuffle_mset)
qed

lemma py_stem_jpg:
  assumes "CHR ''.'' \<notin> set s" and "s \<noteq> []"
  shows "py_stem (s @ ''.jpg'') = s"
proof -
  have t: "takeWhile (\<lambda>c. c \<noteq> CHR ''.'') (rev (s @ ''.jpg'')) = ''gpj''"
    by simp
  show ?thesis using assms
    unfolding py_stem_def t by (simp add: Let_def)
qed

lemma many_name_props: "CHR ''.'' \<notin> set (many_name i)" "many_name i \<noteq> []" "length (many_name i) = Suc i"
  by (simp_all add: many_name_def)

lemma many_name_inj: "many_name i = many_name j \<longleftrightarrow> i = j"
  by (metis many_name_props(3) nat.inject)

lemma many_label: "label_name (many_name i @ ''.jpg'') = many_name i @ ''.txt''"
  by (simp add: label_name_def py_stem_jpg many_name_props)

lemma many_labels_dir: "labels_dir many_fs (many_name i @ ''.txt'') \<noteq> None \<longleftrightarrow> i < 950"
proof -
  have "labels_dir many_fs (many_name i @ ''.txt'') \<noteq> None
      \<longleftrightarrow> many_name i @ ''.txt'' \<in> (\<lambda>i. many_name i @ ''.txt'') ` {0..<950}"
    by (simp add: many_fs_def map_of_eq_None_iff image_image)
  also have "\<dots> \<longleftrightarrow> i < 950" by (auto simp: many_name_inj)
  finally show ?thesis .
qed

lemma many_glob: "map fst (glob_images fst (images_dir many_fs)) = map (\<lambda>i. many_name i @ ''.jpg'') [0..<1000]"
proof -
  have j: "filter (ends_with ''.jpg'') (map (\<lambda>i. many_name i @ ''.jpg'') [0..<1000])
            = map (\<lambda>i. many_name i @ ''.jpg'') [0..<1000]"
    by (simp add: filter_map comp_def ends_with_append)
  have o: "filter (ends_with e) (map (\<lambda>i. many_name i @ ''.jpg'') [0..<1000]) = []"
    if "\<And>n. \<not> (ends_with ''.jpg'' n \<and> ends_with e n)" for e
    using that by (auto simp: filter_empty_conv ends_with_append)
  have m: "map fst (images_dir many_fs) = map (\<lambda>i. many_name i @ ''.jpg'') [0..<1000]"
    by (simp add: many_fs_def comp_def)
  show ?thesis
    unfolding glob_images_map m j
    using o[of "''.png''"] o[of "''.tif''"] o[of "''.tiff''"] ext_exclusive by simp
qed

lemma filter_less_upt: "k \<le> n \<Longrightarrow> filter (\<lambda>i. i < k) [0..<n] = [0..<k]"
proof (induction n)
  case 0
  then show ?case by simp
next
  case (Suc n)
  show ?case
  proof (cases "k \<le> n")
    case True
    with Suc.IH show ?thesis by simp
  next
    case False
    with Suc.prems have k: "k = Suc n" by simp
    have "filter (\<lambda>i. i < Suc n) [0..<n] = [0..<n]" by (simp add: filter_id_conv)
    then show ?thesis by (simp add: k)
  qed
qed

lemma many_valid_pairs: "length (valid_pairs_of many_fs) = 950"
proof -
  have "filter (\<lambda>img. labels_dir many_fs (label_name img) \<noteq> None) (map (\<lambda>i. many_name i @ ''.jpg'') [0..<1000])
      = map (\<lambda>i. many_name i @ ''.jpg'') (filter (\<lambda>i. i < 950) [0..<1000])"
    by (simp add: filter_map comp_def many_label many_labels_dir del: not_None_eq)
  moreover have "filter (\<lambda>i. i < 950) [0..<1000] = [0..<950]"
    by (rule filter_less_upt) simp
  ultimately show ?thesis by (simp add: valid_pairs_of_def many_glob)
qed

theorem C2_witness:
  "0 \<le> train_ratio sp_default \<and> 0 \<le> val_ratio sp_default
   \<and> train_ratio sp_default = fl (4 / 5) \<and> val_ratio sp_default = fl (3 / 20)
   \<and> length (valid_pairs_of many_fs) = 950
   \<and> snd (split sp_default zero_draws many_fs) = (760, 142, 48)"
proof -
  have r: "0 \<le> train_ratio sp_default" "0 \<le> val_ratio sp_default"
    "train_ratio sp_default = fl (4 / 5)" "val_ratio sp_default = fl (3 / 20)"
    by (simp_all add: sp_default_def fl_nonneg)
  from C2_partition_by_cut_points[OF r(1,2), of zero_draws many_fs] r(3,4) many_valid_pairs
  have "snd (split sp_default zero_draws many_fs) = (760, 142, 48)" by blast
  with r many_valid_pairs show ?thesis by simp
qed


lemma valid_pairs_images:
  "map fst (valid_pairs_of fs)
     = filter (\<lambda>img. labels_dir fs (label_name img) \<noteq> None) (map fst (glob_images fst (images_dir fs)))"
  by (simp add: valid_pairs_of_def comp_def)

text \<open>
  C4 (amended). In a split run over an image directory whose entries have distinct names, with
  non-negative train and validation ratios, no image is in two of the three partitions
  (nor twice in one), the images of the three partitions together are exactly the
  enumerated images that have a label file of their stem, and an image without label
  file is in none of them.
\<close>

theorem C4_partitions_disjoint_and_cover:
  assumes "distinct (map fst (images_dir fs))"
    and "0 \<le> train_ratio sp" and "0 \<le> val_ratio sp"
  shows "case split_pairs sp rnd fs of (train_pairs, val_pairs, test_pairs) \<Rightarrow>
           set (map fst train_pairs) \<inter> set (map fst val_pairs) = {}
         \<and> set (map fst train_pairs) \<inter> set (map fst test_pairs) = {}
         \<and> set (map fst val_pairs) \<inter> set (map fst test_pairs) = {}
         \<and> distinct (map fst (train_pairs @ val_pairs @ test_pairs))
         \<and> set (map fst train_pairs) \<union> set (map fst val_pairs) \<union> set (map fst test_pairs)
             = {img \<in> set (map fst (glob_images fst (images_dir fs))). labels_dir fs (label_name img) \<noteq> None}
         \<and> (\<forall>img. labels_dir fs (label_name img) = None \<longrightarrow>
               img \<notin> set (map fst train_pairs) \<union> set (map fst val_pairs) \<union> set (map fst test_pairs))"
proof -
  define xs where "xs = shuffle rnd (valid_pairs_of fs)"
  define a where "a = nat \<lfloor>fl (train_ratio sp * fl (of_nat (length (valid_pairs_of fs))))\<rfloor>"
  define b where "b = nat \<lfloor>fl (val_ratio sp * fl (of_nat (length (valid_pairs_of fs))))\<rfloor>"
  have cut: "split_pairs sp rnd fs = (take a xs, take b (drop a xs), drop (a + b) xs)"
    using split_pairs_cut[OF assms(2,3), of rnd fs] by (simp add: xs_def a_def b_def)
  have app: "take a xs @ take b (drop a xs) @ drop (a + b) xs = xs"
    by (metis append_take_drop_id drop_drop add.commute)
  have "distinct (map fst (valid_pairs_of fs))"
    unfolding valid_pairs_images using glob_images_distinct[OF assms(1)] by simp
  then have d: "distinct (map fst xs)" by (simp add: xs_def shuffle_distinct_map)
  have mp: "map fst xs = map fst (take a xs) @ map fst (take b (drop a xs)) @ map fst (drop (a + b) xs)"
    by (metis app map_append)
  from d have dd: "distinct (map fst (take a xs) @ map fst (take b (drop a xs)) @ map fst (drop (a + b) xs))"
    by (simp only: mp[symmetric])
  have sx: "set (map fst xs)
      = set (map fst (take a xs)) \<union> set (map fst (take b (drop a xs))) \<union> set (map fst (drop (a + b) xs))"
    using arg_cong[OF mp, of set] by (simp only: set_append Un_assoc)
  have "set (map fst xs) = set (map fst (valid_pairs_of fs))"
    by (simp add: xs_def shuffle_set)
  also have "\<dots> = {img \<in> set (map fst (glob_images fst (images_dir fs))). labels_dir fs (label_name img) \<noteq> None}"
    unfolding valid_pairs_images by (simp only: set_filter)
  finally have u: "set (map fst (take a xs)) \<union> set (map fst (take b (drop a xs))) \<union> set (map fst (drop (a + b) xs))
      = {img \<in> set (map fst (glob_images fst (images_dir fs))). labels_dir fs (label_name img) \<noteq> None}"
    by (simp only: sx)
  have i1: "set (map fst (take a xs)) \<inter> set (map fst (take b (drop a xs))) = {}"
    and i2: "set (map fst (take a xs)) \<inter> set (map fst (drop (a + b) xs)) = {}"
    and i3: "set (map fst (take b (drop a xs))) \<inter> set (map fst (drop (a + b) xs)) = {}"
    using dd unfolding distinct_append set_append by blast+
  have n: "\<forall>img. labels_dir fs (label_name img) = None \<longrightarrow>
        img \<notin> set (map fst (take a xs)) \<union> set (map fst (take b (drop a xs))) \<union> set (map fst (drop (a + b) xs))"
    unfolding u by simp
  have dd': "distinct (map fst (take a xs @ take b (drop a xs) @ drop (a + b) xs))"
    using dd by (simp only: map_append)
  show ?thesis
    unfolding cut prod.case using i1 i2 i3 dd' u n by blast
qed

lemma small_valid_pairs:
  "valid_pairs_of small_fs = [(''a.jpg'', ''a.txt''), (''b.png'', ''b.txt''), (''c.tif'', ''c.txt'')]"
  by (simp add: valid_pairs_of_def small_fs_def glob_images_def glob_ext_def ends_with_def
        label_name_def py_stem_def Let_def)

lemma default_counts_3:
  "\<lfloor>fl (fl (4 / 5) * fl 3)\<rfloor> = 2" "\<lfloor>fl (fl (3 / 20) * fl 3)\<rfloor> = 0"
proof -
  have f: "\<lfloor>(1351079888211149 / 562949953421312 :: rat)\<rfloor> = 2" "\<lfloor>(2026619832316723 / 4503599627370496 :: rat)\<rfloor> = 0"
    by (simp_all add: floor_eq_iff)
  show "\<lfloor>fl (fl (4 / 5) * fl 3)\<rfloor> = 2" "\<lfloor>fl (fl (3 / 20) * fl 3)\<rfloor> = 0"
    by (simp_all only: fl_0_8 fl_0_15 fl_3 prod_0_8_3 prod_0_15_3 f)
qed

lemma small_shuffle:
  "shuffle zero_draws [(''a.jpg'', ''a.txt''), (''b.png'', ''b.txt''), (''c.tif'', ''c.txt'')]
     = [(''b.png'', ''b.txt''), (''c.tif'', ''c.txt''), (''a.jpg'', ''a.txt'')]"
proof -
  have "shuffle_loop zero_draws (Suc (Suc 0)) [(''a.jpg'', ''a.txt''), (''b.png'', ''b.txt''), (''c.tif'', ''c.txt'')]
     = [(''b.png'', ''b.txt''), (''c.tif'', ''c.txt''), (''a.jpg'', ''a.txt'')]"
    by (simp add: swap_def zero_draws_def)
  then show ?thesis by (simp add: shuffle_def numeral_2_eq_2)
qed

theorem C4_witness:
  "distinct (map fst (images_dir small_fs)) \<and> 0 \<le> train_ratio sp_default \<and> 0 \<le> val_ratio sp_default
   \<and> split_pairs sp_default zero_draws small_fs
       = ([(''b.png'', ''b.txt''), (''c.tif'', ''c.txt'')], [], [(''a.jpg'', ''a.txt'')])
   \<and> {''a.jpg'', ''b.png'', ''c.tif''}
       = {img \<in> set (map fst (glob_images fst (images_dir small_fs))). labels_dir small_fs (label_name img) \<noteq> None}
   \<and> labels_dir small_fs (label_name ''e.jpg'') = None"
proof -
  have d: "distinct (map fst (images_dir small_fs))" by (simp add: small_fs_def)
  have r: "0 \<le> train_ratio sp_default" "0 \<le> val_ratio sp_default"
    by (simp_all add: sp_default_def fl_nonneg)
  have s: "split_pairs sp_default zero_draws small_fs
       = ([(''b.png'', ''b.txt''), (''c.tif'', ''c.txt'')], [], [(''a.jpg'', ''a.txt'')])"
    unfolding split_pairs_cut[OF r] small_valid_pairs small_shuffle
    by (simp add: sp_default_def default_counts_3)
  have e: "labels_dir small_fs (label_name ''e.jpg'') = None"
    by (simp add: small_fs_def label_name_def py_stem_def Let_def)
  from C4_partitions_disjoint_and_cover[OF d r, of zero_draws]
  have "{''a.jpg'', ''b.png'', ''c.tif''}
       = {img \<in> set (map fst (glob_images fst (images_dir small_fs))). labels_dir small_fs (label_name img) \<noteq> None}"
    unfolding s prod.case by (simp del: not_None_eq)
  with d r s e show ?thesis by (simp only: simp_thms)
qed

lemma mkdir_parents_mono: "dirs \<subseteq> mkdir_parents p dirs"
  by (auto simp: mkdir_parents_def)

lemma mkdir_parents_self: "p \<noteq> [] \<Longrightarrow> p \<in> mkdir_parents p dirs"
proof -
  assume "p \<noteq> []"
  then have "length p - 1 \<in> set [0..<length p]" "take (Suc (length p - 1)) p = p" by simp_all
  then have "p \<in> (\<lambda>k. take (Suc k) p) ` set [0..<length p]" by (metis image_eqI)
  then show ?thesis by (simp add: mkdir_parents_def)
qed

lemma fold_mkdir_mono: "dirs \<subseteq> fold mkdir_parents ps dirs"
proof (induction ps arbitrary: dirs)
  case Nil
  then show ?case by simp
next
  case (Cons p ps)
  have "dirs \<subseteq> mkdir_parents p dirs" by (rule mkdir_parents_mono)
  also have "\<dots> \<subseteq> fold mkdir_parents ps (mkdir_parents p dirs)" by (rule Cons.IH)
  finally show ?case by simp
qed

lemma fold_mkdir_made: "p \<in> set ps \<Longrightarrow> p \<noteq> [] \<Longrightarrow> p \<in> fold mkdir_parents ps dirs"
proof (induction ps arbitrary: dirs)
  case Nil
  then show ?case by simp
next
  case (Cons q ps)
  show ?case
  proof (cases "p = q")
    case True
    then have "p \<in> mkdir_parents q dirs" using Cons.prems(2) by (simp add: mkdir_parents_self)
    then show ?thesis using fold_mkdir_mono[of "mkdir_parents q dirs" ps] by auto
  next
    case False
    then show ?thesis using Cons by simp
  qed
qed

lemma fold_mkdir_all: "(\<And>p. p \<in> set ps \<Longrightarrow> p \<noteq> []) \<Longrightarrow> set ps \<subseteq> fold mkdir_parents ps dirs"
  using fold_mkdir_made by blast

text \<open>The directories of the default output tree: the six leaves and their ancestors.\<close>

lemma default_output_tree:
  "fold mkdir_parents
     [train_img_dir sp_default, val_img_dir sp_default, test_img_dir sp_default,
      train_lbl_dir sp_default, val_lbl_dir sp_default, test_lbl_dir sp_default] {}
   = {[''dataset''], [''dataset'', ''images''], [''dataset'', ''labels''],
      [''dataset'', ''images'', ''train''], [''dataset'', ''images'', ''val''], [''dataset'', ''images'', ''test''],
      [''dataset'', ''labels'', ''train''], [''dataset'', ''labels'', ''val''], [''dataset'', ''labels'', ''test'']}"
  by (auto simp: mkdir_parents_def train_img_dir_def val_img_dir_def test_img_dir_def
        train_lbl_dir_def val_lbl_dir_def test_lbl_dir_def sp_default_def upt_rec numeral_eq_Suc)

lemma init_rejects:
  "\<bar>fl (fl (fl (tr + vr) + te) - 1)\<bar> > fl (1 / 100) \<Longrightarrow> init_splitter out tr vr te fs = (Inl ValueError, fs)"
  by (simp add: init_splitter_def Let_def)

lemma init_accepts:
  "\<not> \<bar>fl (fl (fl (tr + vr) + te) - 1)\<bar> > fl (1 / 100) \<Longrightarrow>
     init_splitter out tr vr te fs
       = (Inr \<lparr>output_dir = out, train_ratio = tr, val_ratio = vr, test_ratio = te\<rparr>,
          fs\<lparr>out_dirs := fold mkdir_parents
             [out @ [''images'', ''train''], out @ [''images'', ''val''], out @ [''images'', ''test''],
              out @ [''labels'', ''train''], out @ [''labels'', ''val''], out @ [''labels'', ''test'']]
             (out_dirs fs)\<rparr>)"
  by (simp add: init_splitter_def Let_def train_img_dir_def val_img_dir_def test_img_dir_def
        train_lbl_dir_def val_lbl_dir_def test_lbl_dir_def)

text \<open>
  The float value that is compared with the tolerance lies within \<open>3 \<times> 2\<^sup>-\<^sup>5\<^sup>1\<close> of the
  exact difference between the sum of the ratios and 1, for ratios between 0 and 1.
\<close>

lemma ratio_check_error:
  assumes "0 \<le> tr" "tr \<le> 1" "0 \<le> vr" "vr \<le> 1" "0 \<le> te" "te \<le> 1"
  shows "\<bar>fl (fl (fl (tr + vr) + te) - 1) - (tr + vr + te - 1)\<bar> \<le> 3 / 2 ^ 51"
proof -
  define e :: rat where "e = 1 / 2 ^ 51"
  have e: "0 \<le> e" "e \<le> 1 / 4" by (simp_all add: e_def)
  define s where "s = fl (tr + vr)"
  define t where "t = fl (s + te)"
  define d where "d = fl (t - 1)"
  have s0: "0 \<le> s" unfolding s_def using assms by (intro fl_nonneg) simp
  have "\<bar>tr + vr\<bar> \<le> 4" using assms by (simp add: abs_le_iff)
  then have es: "\<bar>s - (tr + vr)\<bar> \<le> e" unfolding s_def e_def by (rule fl_error_small)
  have t0: "0 \<le> t" unfolding t_def using s0 assms by (intro fl_nonneg) simp
  have "\<bar>s + te\<bar> \<le> 4" using es s0 assms e by (simp add: abs_le_iff)
  then have et: "\<bar>t - (s + te)\<bar> \<le> e" unfolding t_def e_def by (rule fl_error_small)
  have "\<bar>t - 1\<bar> \<le> 4" using et es t0 assms e by (simp add: abs_le_iff)
  then have ed: "\<bar>d - (t - 1)\<bar> \<le> e" unfolding d_def e_def by (rule fl_error_small)
  have "\<bar>d - (tr + vr + te - 1)\<bar> \<le> 3 * e" using es et ed by (simp add: abs_le_iff)
  then show ?thesis by (simp add: d_def t_def s_def e_def)
qed

lemma abs_far:
  fixes d x e c :: rat
  shows "\<bar>d - x\<bar> \<le> e \<Longrightarrow> c + e < \<bar>x\<bar> \<Longrightarrow> c < \<bar>d\<bar>"
  by linarith

lemma abs_near:
  fixes d x e c :: rat
  shows "\<bar>d - x\<bar> \<le> e \<Longrightarrow> \<bar>x\<bar> < c - e \<Longrightarrow> \<bar>d\<bar> < c"
  by linarith

lemma tolerance_margin:
  "fl (1 / 100) + 3 / 2 ^ 51 \<le> 1 / 100 + 1 / 10 ^ 14"
  "1 / 100 - 1 / 10 ^ 14 \<le> fl (1 / 100) - 3 / 2 ^ 51"
  unfolding fl_0_01 by simp_all

text \<open>
  C5 (amended). The ratio test of the constructor is carried out on floats: the sum
  \<open>(trainRatio + valRatio) + testRatio\<close> and its difference from 1.0 are each rounded to
  a double, and the invocation is rejected exactly when the absolute difference is
  greater than the double \<^verbatim>\<open>0.01\<close>. A rejected invocation raises the configuration
  error before anything is done to the files: the run ends with the error and the file
  system as it was, so no output directory is made and no file is copied (0.8, 0.1 and
  0.05 are such ratios). Every other invocation is accepted: the splitter is built, with
  these ratios, its six output directories exist afterwards and those that existed
  before still do. For ratios between 0 and 1 every sum more than \<open>0.01 + 10\<^sup>-\<^sup>1\<^sup>4\<close> away
  from 1 is rejected, and every sum less than \<open>0.01 - 10\<^sup>-\<^sup>1\<^sup>4\<close> away from 1 is
  accepted.
\<close>

theorem C5_ratio_check_before_any_file_work:
  "(\<bar>fl (fl (fl (tr + vr) + te) - 1)\<bar> > fl (1 / 100) \<longrightarrow>
       init_splitter out tr vr te fs = (Inl ValueError, fs)
     \<and> run_split out tr vr te rnd fs = (Inl ValueError, fs))
   \<and> (\<not> \<bar>fl (fl (fl (tr + vr) + te) - 1)\<bar> > fl (1 / 100) \<longrightarrow>
       fst (init_splitter out tr vr te fs)
         = Inr \<lparr>output_dir = out, train_ratio = tr, val_ratio = vr, test_ratio = te\<rparr>
     \<and> out_dirs fs \<subseteq> out_dirs (snd (init_splitter out tr vr te fs))
     \<and> set [out @ [''images'', ''train''], out @ [''images'', ''val''], out @ [''images'', ''test''],
             out @ [''labels'', ''train''], out @ [''labels'', ''val''], out @ [''labels'', ''test'']]
         \<subseteq> out_dirs (snd (init_splitter out tr vr te fs))
     \<and> (\<exists>counts. fst (run_split out tr vr te rnd fs) = Inr counts))
   \<and> (0 \<le> tr \<and> tr \<le> 1 \<and> 0 \<le> vr \<and> vr \<le> 1 \<and> 0 \<le> te \<and> te \<le> 1
        \<and> \<bar>tr + vr + te - 1\<bar> > 1 / 100 + 1 / 10 ^ 14
      \<longrightarrow> run_split out tr vr te rnd fs = (Inl ValueError, fs))
   \<and> (0 \<le> tr \<and> tr \<le> 1 \<and> 0 \<le> vr \<and> vr \<le> 1 \<and> 0 \<le> te \<and> te \<le> 1
        \<and> \<bar>tr + vr + te - 1\<bar> < 1 / 100 - 1 / 10 ^ 14
      \<longrightarrow> (\<exists>counts. fst (run_split out tr vr te rnd fs) = Inr counts))
   \<and> run_split out (fl (4 / 5)) (fl (1 / 10)) (fl (1 / 20)) rnd fs = (Inl ValueError, fs)"
proof -
  have rej: "init_splitter out' a b c fs = (Inl ValueError, fs) \<and> run_split out' a b c rnd fs = (Inl ValueError, fs)"
    if "\<bar>fl (fl (fl (a + b) + c) - 1)\<bar> > fl (1 / 100)" for out' a b c
    using init_rejects[OF that, of out' fs] by (simp add: run_split_def)
  have acc: "\<exists>counts. fst (run_split out tr vr te rnd fs) = Inr counts"
    if "\<not> \<bar>fl (fl (fl (tr + vr) + te) - 1)\<bar> > fl (1 / 100)"
    using init_accepts[OF that, of out fs] by (simp add: run_split_def split: prod.splits)
  have 1: "\<bar>fl (fl (fl (tr + vr) + te) - 1)\<bar> > fl (1 / 100) \<longrightarrow>
       init_splitter out tr vr te fs = (Inl ValueError, fs)
     \<and> run_split out tr vr te rnd fs = (Inl ValueError, fs)"
    using rej by blast
  have 2: "\<not> \<bar>fl (fl (fl (tr + vr) + te) - 1)\<bar> > fl (1 / 100) \<longrightarrow>
       fst (init_splitter out tr vr te fs)
         = Inr \<lparr>output_dir = out, train_ratio = tr, val_ratio = vr, test_ratio = te\<rparr>
     \<and> out_dirs fs \<subseteq> out_dirs (snd (init_splitter out tr vr te fs))
     \<and> set [out @ [''images'', ''train''], out @ [''images'', ''val''], out @ [''images'', ''test''],
             out @ [''labels'', ''train''], out @ [''labels'', ''val''], out @ [''labels'', ''test'']]
         \<subseteq> out_dirs (snd (init_splitter out tr vr te fs))
     \<and> (\<exists>counts. fst (run_split out tr vr te rnd fs) = Inr counts)"
  proof
    assume a: "\<not> \<bar>fl (fl (fl (tr + vr) + te) - 1)\<bar> > fl (1 / 100)"
    define ps where "ps = [out @ [''images'', ''train''], out @ [''images'', ''val''], out @ [''images'', ''test''],
             out @ [''labels'', ''train''], out @ [''labels'', ''val''], out @ [''labels'', ''test'']]"
    have i: "init_splitter out tr vr te fs
       = (Inr \<lparr>output_dir = out, train_ratio = tr, val_ratio = vr, test_ratio = te\<rparr>,
          fs\<lparr>out_dirs := fold mkdir_parents ps (out_dirs fs)\<rparr>)"
      unfolding ps_def by (rule init_accepts[OF a])
    have "set ps \<subseteq> fold mkdir_parents ps (out_dirs fs)"
      by (rule fold_mkdir_all) (auto simp: ps_def)
    then have m: "set ps \<subseteq> out_dirs (snd (init_splitter out tr vr te fs))"
      by (simp add: i)
    show "fst (init_splitter out tr vr te fs)
         = Inr \<lparr>output_dir = out, train_ratio = tr, val_ratio = vr, test_ratio = te\<rparr>
     \<and> out_dirs fs \<subseteq> out_dirs (snd (init_splitter out tr vr te fs))
     \<and> set [out @ [''images'', ''train''], out @ [''images'', ''val''], out @ [''images'', ''test''],
             out @ [''labels'', ''train''], out @ [''labels'', ''val''], out @ [''labels'', ''test'']]
         \<subseteq> out_dirs (snd (init_splitter out tr vr te fs))
     \<and> (\<exists>counts. fst (run_split out tr vr te rnd fs) = Inr counts)"
    proof (intro conjI)
      show "fst (init_splitter out tr vr te fs)
         = Inr \<lparr>output_dir = out, train_ratio = tr, val_ratio = vr, test_ratio = te\<rparr>"
        by (simp add: i)
      show "out_dirs fs \<subseteq> out_dirs (snd (init_splitter out tr vr te fs))"
        by (simp add: i fold_mkdir_mono)
      show "set [out @ [''images'', ''train''], out @ [''images'', ''val''], out @ [''images'', ''test''],
             out @ [''labels'', ''train''], out @ [''labels'', ''val''], out @ [''labels'', ''test'']]
         \<subseteq> out_dirs (snd (init_splitter out tr vr te fs))"
        by (rule m[unfolded ps_def])
      show "\<exists>counts. fst (run_split out tr vr te rnd fs) = Inr counts"
        by (rule acc[OF a])
    qed
  qed
  have 3: "0 \<le> tr \<and> tr \<le> 1 \<and> 0 \<le> vr \<and> vr \<le> 1 \<and> 0 \<le> te \<and> te \<le> 1
        \<and> \<bar>tr + vr + te - 1\<bar> > 1 / 100 + 1 / 10 ^ 14
      \<longrightarrow> run_split out tr vr te rnd fs = (Inl ValueError, fs)"
  proof
    assume h: "0 \<le> tr \<and> tr \<le> 1 \<and> 0 \<le> vr \<and> vr \<le> 1 \<and> 0 \<le> te \<and> te \<le> 1
        \<and> \<bar>tr + vr + te - 1\<bar> > 1 / 100 + 1 / 10 ^ 14"
    then have "\<bar>fl (fl (fl (tr + vr) + te) - 1) - (tr + vr + te - 1)\<bar> \<le> 3 / 2 ^ 51"
      by (intro ratio_check_error) simp_all
    moreover from h have "fl (1 / 100) + 3 / 2 ^ 51 < \<bar>tr + vr + te - 1\<bar>"
      using tolerance_margin(1) by (elim conjE) (rule le_less_trans)
    ultimately have "\<bar>fl (fl (fl (tr + vr) + te) - 1)\<bar> > fl (1 / 100)"
      by (rule abs_far)
    then show "run_split out tr vr te rnd fs = (Inl ValueError, fs)" using rej by blast
  qed
  have 4: "0 \<le> tr \<and> tr \<le> 1 \<and> 0 \<le> vr \<and> vr \<le> 1 \<and> 0 \<le> te \<and> te \<le> 1
        \<and> \<bar>tr + vr + te - 1\<bar> < 1 / 100 - 1 / 10 ^ 14
      \<longrightarrow> (\<exists>counts. fst (run_split out tr vr te rnd fs) = Inr counts)"
  proof
    assume h: "0 \<le> tr \<and> tr \<le> 1 \<and> 0 \<le> vr \<and> vr \<le> 1 \<and> 0 \<le> te \<and> te \<le> 1
        \<and> \<bar>tr + vr + te - 1\<bar> < 1 / 100 - 1 / 10 ^ 14"
    then have "\<bar>fl (fl (fl (tr + vr) + te) - 1) - (tr + vr + te - 1)\<bar> \<le> 3 / 2 ^ 51"
      by (intro ratio_check_error) simp_all
    moreover from h have "\<bar>tr + vr + te - 1\<bar> < fl (1 / 100) - 3 / 2 ^ 51"
      using tolerance_margin(2) by (elim conjE) (rule less_le_trans)
    ultimately have "\<bar>fl (fl (fl (tr + vr) + te) - 1)\<bar> < fl (1 / 100)"
      by (rule abs_near)
    then have "\<not> \<bar>fl (fl (fl (tr + vr) + te) - 1)\<bar> > fl (1 / 100)"
      by simp
    then show "\<exists>counts. fst (run_split out tr vr te rnd fs) = Inr counts" by (rule acc)
  qed
  have "\<bar>fl (fl (fl (fl (4 / 5) + fl (1 / 10)) + fl (1 / 20)) - 1)\<bar> > fl (1 / 100)"
    by (simp only: fl_0_8 fl_0_1 fl_0_05 fl_0_01 sum_short_1 sum_short_2 sum_short_3; simp)
  then have 5: "run_split out (fl (4 / 5)) (fl (1 / 10)) (fl (1 / 20)) rnd fs = (Inl ValueError, fs)"
    using rej by blast
  from 1 2 3 4 5 show ?thesis by (intro conjI)
qed

lemma default_ratios_pass:
  "\<not> \<bar>fl (fl (fl (fl (4 / 5) + fl (3 / 20)) + fl (1 / 20)) - 1)\<bar> > fl (1 / 100)"
  by (simp only: fl_0_8 fl_0_15 fl_0_05 fl_0_01 sum_default_1 sum_default_2 sum_default_3; simp)

lemma short_ratios_fail:
  "\<bar>fl (fl (fl (fl (4 / 5) + fl (1 / 10)) + fl (1 / 20)) - 1)\<bar> > fl (1 / 100)"
  by (simp only: fl_0_8 fl_0_1 fl_0_05 fl_0_01 sum_short_1 sum_short_2 sum_short_3; simp)

theorem C5_witness:
  "\<bar>fl (fl (fl (fl (4 / 5) + fl (1 / 10)) + fl (1 / 20)) - 1)\<bar> > fl (1 / 100)
   \<and> run_split [''dataset''] (fl (4 / 5)) (fl (1 / 10)) (fl (1 / 20)) zero_draws small_fs
       = (Inl ValueError, small_fs)
   \<and> \<not> \<bar>fl (fl (fl (fl (4 / 5) + fl (3 / 20)) + fl (1 / 20)) - 1)\<bar> > fl (1 / 100)
   \<and> fst (init_splitter [''dataset''] (fl (4 / 5)) (fl (3 / 20)) (fl (1 / 20)) small_fs) = Inr sp_default
   \<and> [''dataset'', ''images'', ''train''] \<in> out_dirs (snd (init_splitter [''dataset''] (fl (4 / 5)) (fl (3 / 20)) (fl (1 / 20)) small_fs))
   \<and> (\<exists>counts. fst (run_split [''dataset''] (fl (4 / 5)) (fl (3 / 20)) (fl (1 / 20)) zero_draws small_fs) = Inr counts)
   \<and> (0::rat) \<le> 1 / 2 \<and> (1 / 2 :: rat) \<le> 1 \<and> \<bar>(1 / 2 :: rat) + 1 / 2 + 1 / 2 - 1\<bar> > 1 / 100 + 1 / 10 ^ 14
   \<and> run_split [''dataset''] (1 / 2) (1 / 2) (1 / 2) zero_draws small_fs = (Inl ValueError, small_fs)
   \<and> (0::rat) \<le> 1 / 4 \<and> (1 / 4 :: rat) \<le> 1 \<and> \<bar>(1 / 2 :: rat) + 1 / 4 + 1 / 4 - 1\<bar> < 1 / 100 - 1 / 10 ^ 14
   \<and> (\<exists>counts. fst (run_split [''dataset''] (1 / 2) (1 / 4) (1 / 4) zero_draws small_fs) = Inr counts)"
proof -
  note b = short_ratios_fail
  note g = default_ratios_pass
  note c5 = C5_ratio_check_before_any_file_work
  from c5[of "fl (4 / 5)" "fl (1 / 10)" "fl (1 / 20)" "[''dataset'']" small_fs zero_draws] b
  have 1: "run_split [''dataset''] (fl (4 / 5)) (fl (1 / 10)) (fl (1 / 20)) zero_draws small_fs
       = (Inl ValueError, small_fs)"
    by blast
  from c5[of "fl (4 / 5)" "fl (3 / 20)" "fl (1 / 20)" "[''dataset'']" small_fs zero_draws] g
  have 2: "fst (init_splitter [''dataset''] (fl (4 / 5)) (fl (3 / 20)) (fl (1 / 20)) small_fs)
             = Inr \<lparr>output_dir = [''dataset''], train_ratio = fl (4 / 5), val_ratio = fl (3 / 20),
                   test_ratio = fl (1 / 20)\<rparr>"
    and 3: "\<exists>counts. fst (run_split [''dataset''] (fl (4 / 5)) (fl (3 / 20)) (fl (1 / 20)) zero_draws small_fs) = Inr counts"
    and 4: "set [[''dataset''] @ [''images'', ''train''], [''dataset''] @ [''images'', ''val''],
                 [''dataset''] @ [''images'', ''test''], [''dataset''] @ [''labels'', ''train''],
                 [''dataset''] @ [''labels'', ''val''], [''dataset''] @ [''labels'', ''test'']]
         \<subseteq> out_dirs (snd (init_splitter [''dataset''] (fl (4 / 5)) (fl (3 / 20)) (fl (1 / 20)) small_fs))"
    by blast+
  from 4 have dir: "[''dataset'', ''images'', ''train'']
      \<in> out_dirs (snd (init_splitter [''dataset''] (fl (4 / 5)) (fl (3 / 20)) (fl (1 / 20)) small_fs))"
    by simp
  have h: "(0::rat) \<le> 1 / 2" "(1 / 2 :: rat) \<le> 1" "\<bar>(1 / 2 :: rat) + 1 / 2 + 1 / 2 - 1\<bar> > 1 / 100 + 1 / 10 ^ 14"
    "(0::rat) \<le> 1 / 4" "(1 / 4 :: rat) \<le> 1" "\<bar>(1 / 2 :: rat) + 1 / 4 + 1 / 4 - 1\<bar> < 1 / 100 - 1 / 10 ^ 14"
    by simp_all
  from c5[of "1 / 2" "1 / 2" "1 / 2" "[''dataset'']" small_fs zero_draws] h
  have 5: "run_split [''dataset''] (1 / 2) (1 / 2) (1 / 2) zero_draws small_fs = (Inl ValueError, small_fs)"
    by blast
  from c5[of "1 / 2" "1 / 4" "1 / 4" "[''dataset'']" small_fs zero_draws] h
  have 6: "\<exists>counts. fst (run_split [''dataset''] (1 / 2) (1 / 4) (1 / 4) zero_draws small_fs) = Inr counts"
    by blast
  have built: "fst (init_splitter [''dataset''] (fl (4 / 5)) (fl (3 / 20)) (fl (1 / 20)) small_fs) = Inr sp_default"
    using 2 by (simp add: sp_default_def)
  show ?thesis
    by (intro conjI) (rule b g 1 built 3 dir 5 6 h)+
qed

text \<open>
  The claim as stated fails for the ratios \<^verbatim>\<open>0.33\<close>, \<^verbatim>\<open>0.33\<close> and \<^verbatim>\<open>0.33\<close>: their
  sum differs from 1 by no more than 0.01, whether the three doubles or the three decimal
  numbers are added, and the constructor raises the configuration error; the float sum is
  \<^verbatim>\<open>0.99\<close> and its float difference from 1.0 is \<^verbatim>\<open>0.010000000000000009\<close>.
\<close>

theorem C5_counterexample:
  "\<bar>fl (33 / 100) + fl (33 / 100) + fl (33 / 100) - 1\<bar> \<le> 1 / 100
   \<and> \<bar>(33 / 100 :: rat) + 33 / 100 + 33 / 100 - 1\<bar> \<le> 1 / 100
   \<and> init_splitter [''dataset''] (fl (33 / 100)) (fl (33 / 100)) (fl (33 / 100)) small_fs
       = (Inl ValueError, small_fs)
   \<and> run_split [''dataset''] (fl (33 / 100)) (fl (33 / 100)) (fl (33 / 100)) zero_draws small_fs
       = (Inl ValueError, small_fs)"
proof -
  have "\<bar>fl (fl (fl (fl (33 / 100) + fl (33 / 100)) + fl (33 / 100)) - 1)\<bar> > fl (1 / 100)"
    by (simp only: fl_0_33 fl_0_01 sum_thirds_1 sum_thirds_2 sum_thirds_3; simp)
  then have i: "init_splitter [''dataset''] (fl (33 / 100)) (fl (33 / 100)) (fl (33 / 100)) small_fs
       = (Inl ValueError, small_fs)"
    by (rule init_rejects)
  then have r: "run_split [''dataset''] (fl (33 / 100)) (fl (33 / 100)) (fl (33 / 100)) zero_draws small_fs
       = (Inl ValueError, small_fs)"
    by (simp add: run_split_def)
  have d: "\<bar>fl (33 / 100) + fl (33 / 100) + fl (33 / 100) - 1\<bar> \<le> 1 / 100"
    unfolding fl_0_33 by simp
  have e: "\<bar>(33 / 100 :: rat) + 33 / 100 + 33 / 100 - 1\<bar> \<le> 1 / 100" by simp
  from d e i r show ?thesis by (intro conjI)
qed

lemma negative_counts_3:
  "py_trunc (fl (fl (- (2 / 5)) * fl 3)) = - 1" "py_trunc (fl (fl (2 / 5) * fl 3)) = 1"
proof -
  have c: "\<lceil>(- (1351079888211149 / 1125899906842624) :: rat)\<rceil> = - 1" by (simp add: ceiling_eq_iff)
  have f: "\<lfloor>(1351079888211149 / 1125899906842624 :: rat)\<rfloor> = 1" by (simp add: floor_eq_iff)
  have e: "fl (fl (- (2 / 5)) * fl 3) = - (1351079888211149 / 1125899906842624)" "fl (fl (2 / 5) * fl 3) = 1351079888211149 / 1125899906842624"
    by (simp_all only: fl_m0_4 fl_0_4 fl_3 prod_m0_4_3 prod_0_4_3)
  show "py_trunc (fl (fl (- (2 / 5)) * fl 3)) = - 1" "py_trunc (fl (fl (2 / 5) * fl 3)) = 1"
    unfolding e by (simp_all add: py_trunc_def c f)
qed

lemma negative_split:
  "split_pairs sp_negative zero_draws small_fs
     = ([(''b.png'', ''b.txt''), (''c.tif'', ''c.txt'')], [],
        [(''b.png'', ''b.txt''), (''c.tif'', ''c.txt''), (''a.jpg'', ''a.txt'')])"
  by (simp add: split_pairs_def small_valid_pairs small_shuffle sp_negative_def negative_counts_3
        py_slice_def slice_index_def Let_def)

lemma negative_accepted:
  "fst (init_splitter [''dataset''] (fl (- (2 / 5))) (fl (2 / 5)) 1 small_fs) = Inr sp_negative"
proof -
  have "\<not> \<bar>fl (fl (fl (fl (- (2 / 5)) + fl (2 / 5)) + 1) - 1)\<bar> > fl (1 / 100)"
    by (simp only: fl_m0_4 fl_0_4 fl_0_01 sum_negative_1 sum_negative_2 sum_default_3; simp)
  then show ?thesis by (simp add: init_accepts sp_negative_def)
qed

text \<open>
  The claim as stated fails for ratios \<^verbatim>\<open>-0.4\<close>, \<^verbatim>\<open>0.4\<close> and \<^verbatim>\<open>1.0\<close>, which sum to
  1 and are accepted: over three retained pairs \<open>\<lfloor>trainRatio \<times> N\<rfloor>\<close> is \<open>-2\<close>, for
  the exact and for the float product, and the run puts two pairs into train and all
  three into test.
\<close>

theorem C2_counterexample:
  "fst (init_splitter [''dataset''] (fl (- (2 / 5))) (fl (2 / 5)) 1 small_fs) = Inr sp_negative
   \<and> length (valid_pairs_of small_fs) = 3
   \<and> \<lfloor>train_ratio sp_negative * 3\<rfloor> = - 2
   \<and> \<lfloor>fl (train_ratio sp_negative * fl 3)\<rfloor> = - 2
   \<and> fst (split_pairs sp_negative zero_draws small_fs) = [(''b.png'', ''b.txt''), (''c.tif'', ''c.txt'')]
   \<and> snd (split sp_negative zero_draws small_fs) = (2, 0, 3)"
proof -
  have f: "\<lfloor>(- (1351079888211149 / 1125899906842624) :: rat)\<rfloor> = - 2" "\<lfloor>(- (10808639105689191 / 9007199254740992) :: rat)\<rfloor> = - 2"
    by (simp_all add: floor_eq_iff)
  have s: "snd (split sp_negative zero_draws small_fs) = (2, 0, 3)"
    by (simp add: split_def negative_split)
  have t: "\<lfloor>train_ratio sp_negative * 3\<rfloor> = - 2" by (simp add: sp_negative_def fl_m0_4 f)
  have e: "fl (fl (- (2 / 5)) * fl 3) = - (1351079888211149 / 1125899906842624)"
    by (simp only: fl_m0_4 fl_3 prod_m0_4_3)
  have "train_ratio sp_negative = fl (- (2 / 5))" by (simp add: sp_negative_def)
  then have fprod: "\<lfloor>fl (train_ratio sp_negative * fl 3)\<rfloor> = - 2" by (simp only: e f)
  have p: "fst (split_pairs sp_negative zero_draws small_fs) = [(''b.png'', ''b.txt''), (''c.tif'', ''c.txt'')]"
    by (simp add: negative_split)
  have l: "length (valid_pairs_of small_fs) = 3" by (simp add: small_valid_pairs)
  from negative_accepted l t fprod p s show ?thesis by (simp only: simp_thms)
qed

text \<open>
  The claim as stated fails for the accepted ratios \<^verbatim>\<open>-0.4\<close>, \<^verbatim>\<open>0.4\<close> and \<^verbatim>\<open>1.0\<close>: the
  image \<^verbatim>\<open>b.png\<close> is in the train partition and in the test partition.
\<close>

theorem C4_counterexample:
  "fst (init_splitter [''dataset''] (fl (- (2 / 5))) (fl (2 / 5)) 1 small_fs) = Inr sp_negative
   \<and> distinct (map fst (images_dir small_fs))
   \<and> ''b.png'' \<in> set (map fst (fst (split_pairs sp_negative zero_draws small_fs)))
   \<and> ''b.png'' \<in> set (map fst (snd (snd (split_pairs sp_negative zero_draws small_fs))))"
  by (simp add: negative_accepted negative_split) (simp add: small_fs_def)

end
